(* ===== verification/Prelude.thy ===== *)
theory Prelude
  imports Main "HOL-Library.Word"
begin

text \<open>
  Shared vocabulary of the development: the machine types of the Go program, Go's errors as
  values, and the functions of Go's standard library the program computes with
  (\<open>strconv\<close>, \<open>fmt\<close> verbs \<open>%d\<close> and \<open>%x\<close>, \<open>encoding/hex\<close>, \<open>encoding/binary\<close>, slices and maps
  with Go's zero-value reads), with the generic lemmas about them. No code of the repository is
  modelled here.
\<close>

section \<open>Machine types\<close>

type_synonym byte = "8 word"
type_synonym bytes = "8 word list"
type_synonym u16 = "16 word"
type_synonym u32 = "32 word"
type_synonym u64 = "64 word"

text \<open>A Go \<open>map[string]string\<close>; reading an absent key yields the zero value, the empty string.\<close>

type_synonym data = "string \<rightharpoonup> string"

definition data_get :: "data \<Rightarrow> string \<Rightarrow> string" where
  "data_get m k = (case m k of None \<Rightarrow> [] | Some v \<Rightarrow> v)"

named_theorems data_simps \<open>reads of string maps built by successive writes\<close>

lemma data_get_upd [simp, data_simps]:
  "data_get (m(k \<mapsto> v)) j = (if j = k then v else data_get m j)"
  by (simp add: data_get_def)

lemma data_get_empty [simp, data_simps]: "data_get Map.empty j = []"
  by (simp add: data_get_def)

section \<open>Errors as values\<close>

text \<open>
  \<open>fmt.Errorf\<close> with \<open>%w\<close> wraps its cause (\<open>Wrapf\<close>); with \<open>%v\<close> it only renders it
  (\<open>Errorf\<close> of the text). \<open>Canceled\<close> is \<open>context.Canceled\<close>; \<open>NoRows\<close> is \<open>pgx.ErrNoRows\<close>;
  \<open>Panic\<close> is a run-time panic. Comparison with \<open>==\<close> looks at the outermost value only.
\<close>

datatype error =
    Errorf string
  | Wrapf string error
  | Canceled
  | NoRows
  | Panic string

fun error_text :: "error \<Rightarrow> string" where
  "error_text (Errorf s) = s"
| "error_text (Wrapf s e) = s @ '': '' @ error_text e"
| "error_text Canceled = ''context canceled''"
| "error_text NoRows = ''no rows in result set''"
| "error_text (Panic s) = s"

text \<open>\<open>errors.Is\<close>: some error of the chain is the target.\<close>

fun errors_Is :: "error \<Rightarrow> error \<Rightarrow> bool" where
  "errors_Is (Wrapf s e) t \<longleftrightarrow> Wrapf s e = t \<or> errors_Is e t"
| "errors_Is e t \<longleftrightarrow> e = t"

lemma errors_Is_refl [simp]: "errors_Is e e"
  by (cases e) simp_all

definition bind_err :: "error + 'a \<Rightarrow> ('a \<Rightarrow> error + 'b) \<Rightarrow> error + 'b" where
  "bind_err r f = (case r of Inl e \<Rightarrow> Inl e | Inr x \<Rightarrow> f x)"

definition wrap_err :: "string \<Rightarrow> error + 'a \<Rightarrow> error + 'a" where
  "wrap_err s r = (case r of Inl e \<Rightarrow> Inl (Wrapf s e) | Inr x \<Rightarrow> Inr x)"

definition guard_err :: "bool \<Rightarrow> error \<Rightarrow> error + 'a \<Rightarrow> error + 'a" where
  "guard_err bad e r = (if bad then Inl e else r)"

definition is_ok :: "error + 'a \<Rightarrow> bool" where
  "is_ok r = (case r of Inl _ \<Rightarrow> False | Inr _ \<Rightarrow> True)"

named_theorems err_simps \<open>evaluation of the error combinators\<close>

lemma bind_err_simps [simp, err_simps]:
  "bind_err (Inl e) f = Inl e"
  "bind_err (Inr x) f = f x"
  by (simp_all add: bind_err_def)

lemma wrap_err_simps [simp, err_simps]:
  "wrap_err s (Inl e) = Inl (Wrapf s e)"
  "wrap_err s (Inr x) = Inr x"
  by (simp_all add: wrap_err_def)

lemma guard_err_simps [simp, err_simps]:
  "guard_err True e r = Inl e"
  "guard_err False e r = r"
  by (simp_all add: guard_err_def)

lemma is_ok_simps [simp, err_simps]: "\<not> is_ok (Inl e)" "is_ok (Inr x)"
  by (simp_all add: is_ok_def)

lemma bind_err_Inr_iff: "bind_err r f = Inr y \<longleftrightarrow> (\<exists>x. r = Inr x \<and> f x = Inr y)"
  by (cases r) auto

lemma wrap_err_Inr_iff: "wrap_err s r = Inr y \<longleftrightarrow> r = Inr y"
  by (cases r) auto

lemma guard_err_Inr_iff: "guard_err b e r = Inr y \<longleftrightarrow> \<not> b \<and> r = Inr y"
  by (cases b) auto

lemmas err_Inr_iff = bind_err_Inr_iff wrap_err_Inr_iff guard_err_Inr_iff

lemma is_ok_iff: "is_ok r \<longleftrightarrow> (\<exists>x. r = Inr x)"
  by (cases r) auto

section \<open>Decimal numbers: \<open>fmt %d\<close> and \<open>strconv.ParseUint\<close>\<close>

definition digit_char :: "nat \<Rightarrow> char" where
  "digit_char d = ''0123456789'' ! d"

fun dec :: "nat \<Rightarrow> string" where
  "dec n = (if n < 10 then [digit_char n] else dec (n div 10) @ [digit_char (n mod 10)])"

declare dec.simps [simp del]

definition dec_word :: "'a::len word \<Rightarrow> string" where
  "dec_word w = dec (unat w)"

text \<open>\<open>big.Int.String\<close> and \<open>%d\<close> of a signed integer.\<close>

definition dec_int :: "int \<Rightarrow> string" where
  "dec_int i = (if i < 0 then CHR ''-'' # dec (nat (- i)) else dec (nat i))"

definition digit_val :: "char \<Rightarrow> nat option" where
  "digit_val c = (let v = (of_char c :: nat) in if 48 \<le> v \<and> v \<le> 57 then Some (v - 48) else None)"

text \<open>
  The loop of \<open>strconv.ParseUint(s, 10, 64)\<close>: every character a digit, no value above
  \<open>2^64 - 1\<close> on the way. No sign, no underscore, no prefix is accepted in base 10.
\<close>

definition ErrSyntax :: error where "ErrSyntax = Errorf ''invalid syntax''"
definition ErrRange :: error where "ErrRange = Errorf ''value out of range''"

fun parse_digits :: "nat \<Rightarrow> string \<Rightarrow> error + nat" where
  "parse_digits n [] = Inr n"
| "parse_digits n (c # cs) =
     (case digit_val c of
        None \<Rightarrow> Inl ErrSyntax
      | Some d \<Rightarrow> if n * 10 + d \<ge> 2 ^ 64 then Inl ErrRange else parse_digits (n * 10 + d) cs)"

definition ParseUint10 :: "string \<Rightarrow> error + u64" where
  "ParseUint10 s =
     (if s = [] then Inl ErrSyntax
      else case parse_digits 0 s of Inl e \<Rightarrow> Inl e | Inr n \<Rightarrow> Inr (of_nat n))"

lemma unat_less_p2: "unat (w :: 'a::len word) < 2 ^ LENGTH('a)"
  by (rule unsigned_less)

lemma digit_val_digit_char [simp]: "d < 10 \<Longrightarrow> digit_val (digit_char d) = Some d"
proof -
  assume "d < 10"
  then have "d \<in> {0, 1, 2, 3, 4, 5, 6, 7, 8, 9}" by auto
  then show ?thesis by (auto simp: digit_char_def digit_val_def)
qed

lemma dec_nonempty [simp]: "dec n \<noteq> []" "[] \<noteq> dec n"
  by (subst dec.simps, simp)+

lemma parse_digits_append:
  "parse_digits n (xs @ ys) = bind_err (parse_digits n xs) (\<lambda>m. parse_digits m ys)"
  by (induction xs arbitrary: n) (auto split: option.splits)

lemma parse_digits_dec: "n < 2 ^ 64 \<Longrightarrow> parse_digits 0 (dec n) = Inr n"
proof (induction n rule: dec.induct)
  case (1 n)
  show ?case
  proof (cases "n < 10")
    case True
    then show ?thesis by (simp add: dec.simps [of n])
  next
    case False
    moreover have "n div 10 < 2 ^ 64" using "1.prems" by simp
    ultimately have "parse_digits 0 (dec (n div 10)) = Inr (n div 10)"
      using "1.IH" by blast
    with False "1.prems" show ?thesis
      by (simp add: dec.simps [of n] parse_digits_append)
  qed
qed

lemma parse_digits_bound: "parse_digits n s = Inr m \<Longrightarrow> n < 2 ^ 64 \<Longrightarrow> m < 2 ^ 64"
  by (induction s arbitrary: n) (auto split: option.splits if_splits)

text \<open>Printing an unsigned machine integer and reading it back.\<close>

lemma ParseUint10_dec_word [simp]: "ParseUint10 (dec_word (w :: u64)) = Inr w"
proof -
  have "unat w < 2 ^ 64" using unat_less_p2 [of w] by simp
  then show ?thesis
    by (simp add: ParseUint10_def dec_word_def parse_digits_dec)
qed

lemma ParseUint10_empty [simp]: "ParseUint10 [] = Inl ErrSyntax"
  by (simp add: ParseUint10_def)

lemma dec_word_nonempty [simp]: "dec_word w \<noteq> []" "[] \<noteq> dec_word w"
  by (simp_all add: dec_word_def)

lemma dec_word_inj: "dec_word (v :: u64) = dec_word w \<longleftrightarrow> v = w"
  by (metis ParseUint10_dec_word Inr_inject)

text \<open>The decimal rendering does not depend on the width of the word.\<close>

lemma dec_word_ucast:
  fixes w :: "'a::len word"
  assumes "LENGTH('a) \<le> LENGTH('b::len)"
  shows "dec_word (ucast w :: 'b word) = dec_word w"
proof -
  have "unat w < 2 ^ LENGTH('b)"
    using unat_less_p2 [of w] power_increasing [OF assms, of "2 :: nat"] by linarith
  then show ?thesis by (simp add: dec_word_def unsigned_ucast_eq take_bit_nat_eq_self)
qed

lemma ucast_ucast_u16: "ucast (ucast (w :: u16) :: u64) = w"
  by (rule bit_word_eqI) (auto simp: bit_ucast_iff dest: bit_imp_le_length)

lemma ParseUint10_dec_u16 [simp]: "ParseUint10 (dec_word (w :: u16)) = Inr (ucast w)"
proof -
  have "dec_word w = dec_word (ucast w :: u64)" by (simp add: dec_word_ucast)
  then show ?thesis by simp
qed

lemma digit_char_in: "d < 10 \<Longrightarrow> digit_char d \<in> set ''0123456789''"
  unfolding digit_char_def by (intro nth_mem) simp

lemma set_dec: "set (dec n) \<subseteq> set ''0123456789''"
proof (induction n rule: dec.induct)
  case (1 n)
  show ?case
  proof (cases "n < 10")
    case True
    then show ?thesis using digit_char_in [of n] by (simp add: dec.simps [of n])
  next
    case False
    then have "set (dec (n div 10)) \<subseteq> set ''0123456789''" by (rule "1.IH")
    with False show ?thesis using digit_char_in [of "n mod 10"] by (simp add: dec.simps [of n])
  qed
qed

lemma dec_word_no_slash [simp]: "CHR ''/'' \<notin> set (dec_word w)"
  using set_dec [of "unat w"] by (auto simp: dec_word_def)

text \<open>Splitting a string at a separator the first part does not contain.\<close>

lemma split_at_sep:
  "x \<notin> set a \<Longrightarrow> x \<notin> set a' \<Longrightarrow> a @ x # b = a' @ x # b' \<longleftrightarrow> a = a' \<and> b = b'"
proof (induction a arbitrary: a')
  case Nil
  then show ?case by (cases a') auto
next
  case (Cons y a)
  then show ?case by (cases a') auto
qed

section \<open>Hexadecimal and big-endian bytes\<close>

definition hex_digit :: "nat \<Rightarrow> char" where
  "hex_digit d = ''0123456789abcdef'' ! d"

text \<open>\<open>fmt.Sprintf("%x", bs)\<close> and \<open>hex.EncodeToString\<close>: two lower-case digits a byte.\<close>

definition hex_of_byte :: "byte \<Rightarrow> string" where
  "hex_of_byte b = [hex_digit (unat b div 16), hex_digit (unat b mod 16)]"

definition EncodeToString :: "bytes \<Rightarrow> string" where
  "EncodeToString bs = concat (map hex_of_byte bs)"

lemma length_EncodeToString [simp]: "length (EncodeToString bs) = 2 * length bs"
  by (induction bs) (simp_all add: EncodeToString_def hex_of_byte_def)

lemma hex_digit_inj: "a < 16 \<Longrightarrow> b < 16 \<Longrightarrow> hex_digit a = hex_digit b \<longleftrightarrow> a = b"
proof -
  assume a: "a < 16" and b: "b < 16"
  have "distinct ''0123456789abcdef''" by simp
  with a b show ?thesis
    unfolding hex_digit_def by (intro nth_eq_iff_index_eq) simp_all
qed

lemma hex_of_byte_inj: "hex_of_byte a = hex_of_byte b \<longleftrightarrow> a = b"
proof
  assume h: "hex_of_byte a = hex_of_byte b"
  have lt: "unat a < 256" "unat b < 256"
    using unat_less_p2 [of a] unat_less_p2 [of b] by simp_all
  have "unat a div 16 = unat b div 16" "unat a mod 16 = unat b mod 16"
    using h lt by (simp_all add: hex_of_byte_def hex_digit_inj)
  then have "unat a = unat b" by (metis div_mult_mod_eq)
  then show "a = b" by (simp add: word_unat_eq_iff)
qed simp

lemma EncodeToString_inj: "EncodeToString xs = EncodeToString ys \<longleftrightarrow> xs = ys"
proof
  assume "EncodeToString xs = EncodeToString ys"
  moreover from this have "length xs = length ys"
    using length_EncodeToString [of xs] length_EncodeToString [of ys] by simp
  ultimately show "xs = ys"
  proof (induction xs ys rule: list_induct2')
    case (4 x xs y ys)
    then have "hex_of_byte x = hex_of_byte y \<and> EncodeToString xs = EncodeToString ys"
      by (simp add: EncodeToString_def hex_of_byte_def)
    with 4 show ?case by (simp add: hex_of_byte_inj)
  qed simp_all
qed simp

lemma hex_digit_in: "d < 16 \<Longrightarrow> hex_digit d \<in> set ''0123456789abcdef''"
  unfolding hex_digit_def by (intro nth_mem) simp

lemma set_EncodeToString: "set (EncodeToString bs) \<subseteq> set ''0123456789abcdef''"
proof -
  have "set (hex_of_byte b) \<subseteq> set ''0123456789abcdef''" for b
  proof -
    have "unat b < 256" using unat_less_p2 [of b] by simp
    then show ?thesis
      using hex_digit_in [of "unat b div 16"] hex_digit_in [of "unat b mod 16"]
      by (simp add: hex_of_byte_def)
  qed
  then show ?thesis unfolding EncodeToString_def by fastforce
qed

text \<open>\<open>binary.BigEndian.UintN\<close> reads the first \<open>N/8\<close> bytes; the encoder below is its inverse.\<close>

fun be_nat :: "nat \<Rightarrow> bytes \<Rightarrow> nat" where
  "be_nat acc [] = acc"
| "be_nat acc (b # bs) = be_nat (acc * 256 + unat b) bs"

definition BigEndian :: "bytes \<Rightarrow> 'a::len word" where
  "BigEndian bs = of_nat (be_nat 0 bs)"

fun be_bytes :: "nat \<Rightarrow> nat \<Rightarrow> bytes" where
  "be_bytes 0 n = []"
| "be_bytes (Suc k) n = be_bytes k (n div 256) @ [of_nat (n mod 256)]"

lemma length_be_bytes [simp]: "length (be_bytes k n) = k"
  by (induction k arbitrary: n) simp_all

lemma be_nat_append: "be_nat acc (xs @ ys) = be_nat (be_nat acc xs) ys"
  by (induction xs arbitrary: acc) simp_all

lemma be_nat_be_bytes: "be_nat 0 (be_bytes k n) = n mod 256 ^ k"
proof (induction k arbitrary: n)
  case (Suc k)
  have "unat (of_nat (n mod 256) :: byte) = n mod 256"
    by (simp add: unat_of_nat)
  with Suc show ?case
    by (simp add: be_nat_append mod_mult2_eq mult.commute)
qed simp

lemma BigEndian_be_bytes:
  assumes "8 * k = LENGTH('a::len)"
  shows "BigEndian (be_bytes k (unat (w :: 'a word))) = w"
proof -
  have "(256 :: nat) ^ k = 2 ^ LENGTH('a)"
    using assms by (simp flip: assms power_mult add: power_mult)
  then have "unat w mod 256 ^ k = unat w"
    using unat_less_p2 [of w] by simp
  then show ?thesis by (simp add: BigEndian_def be_nat_be_bytes)
qed

lemma be_nat_acc: "be_nat acc bs = acc * 256 ^ length bs + be_nat 0 bs"
proof (induction bs arbitrary: acc)
  case (Cons b bs)
  show ?case
    using Cons [of "acc * 256 + unat b"] Cons [of "unat b"] by (simp add: algebra_simps)
qed simp

lemma be_nat_snoc: "be_nat 0 (bs @ [b]) = be_nat 0 bs * 256 + unat b"
  by (simp add: be_nat_append)

lemma be_nat_less: "be_nat 0 bs < 256 ^ length bs"
proof (induction bs rule: rev_induct)
  case (snoc b bs)
  have "unat b < 256" using unat_less_p2 [of b] by simp
  with snoc show ?case by (simp add: be_nat_snoc)
qed simp

lemma be_bytes_be_nat: "be_bytes (length bs) (be_nat 0 bs) = bs"
proof (induction bs rule: rev_induct)
  case (snoc b bs)
  have "unat b < 256" using unat_less_p2 [of b] by simp
  with snoc show ?case by (simp add: be_nat_snoc)
qed simp

lemma be_bytes_BigEndian:
  assumes "length bs = k" and "8 * k = LENGTH('a::len)"
  shows "be_bytes k (unat (BigEndian bs :: 'a word)) = bs"
proof -
  have "(256 :: nat) ^ k = 2 ^ LENGTH('a)"
    using assms(2) by (simp flip: assms(2) power_mult add: power_mult)
  then have "be_nat 0 bs < 2 ^ LENGTH('a)"
    using be_nat_less [of bs] assms(1) by simp
  then have "unat (BigEndian bs :: 'a word) = be_nat 0 bs"
    by (simp add: BigEndian_def unat_of_nat)
  then show ?thesis using be_bytes_be_nat [of bs] assms(1) by simp
qed

text \<open>A slice expression \<open>s[i:j]\<close>, used where its bounds have been checked.\<close>

definition subslice :: "nat \<Rightarrow> nat \<Rightarrow> 'a list \<Rightarrow> 'a list" where
  "subslice i j xs = take (j - i) (drop i xs)"

lemma length_subslice [simp]: "length (subslice i j xs) = min (j - i) (length xs - i)"
  by (simp add: subslice_def min.commute)

lemma subslice_skip: "length xs = n \<Longrightarrow> n \<le> i \<Longrightarrow> subslice i j (xs @ ys) = subslice (i - n) (j - n) ys"
  by (simp add: subslice_def)

lemma subslice_hit: "length xs = n \<Longrightarrow> subslice 0 n (xs @ ys) = xs"
  by (simp add: subslice_def)

text \<open>Consecutive slices glue together.\<close>

lemma subslice_glue: "i \<le> j \<Longrightarrow> j \<le> k \<Longrightarrow> subslice i j xs @ subslice j k xs = subslice i k xs"
proof -
  assume ij: "i \<le> j" and jk: "j \<le> k"
  have "subslice i k xs = take ((j - i) + (k - j)) (drop i xs)"
    using ij jk by (simp add: subslice_def)
  also have "\<dots> = take (j - i) (drop i xs) @ take (k - j) (drop (j - i) (drop i xs))"
    by (rule take_add)
  finally show ?thesis using ij by (simp add: subslice_def)
qed

section \<open>Maps built from literal tables\<close>

text \<open>
  An \<open>init()\<close> that inverts a table ranges over a Go map, whose order is not specified: the
  result is the fold of the writes over some order of the entries.
\<close>

definition invert_entries :: "('a \<times> 'b) list \<Rightarrow> ('b \<rightharpoonup> 'a)" where
  "invert_entries es = fold (\<lambda>(k, v) m. m(v \<mapsto> k)) es Map.empty"

lemma fold_invert_entries:
  "fold (\<lambda>(k, v) m. m(v \<mapsto> k)) es m0 = m0 ++ map_of (rev (map (\<lambda>(k, v). (v, k)) es))"
  by (induction es arbitrary: m0) (auto simp: map_add_def fun_eq_iff split: option.splits)

lemma invert_entries_map_of:
  "invert_entries es = map_of (rev (map (\<lambda>(k, v). (v, k)) es))"
  by (simp add: invert_entries_def fold_invert_entries)

text \<open>With distinct keys and distinct values, the inverse is the same in every order.\<close>

lemma invert_entries_iff:
  assumes "distinct (map snd es)"
  shows "invert_entries es v = Some k \<longleftrightarrow> (k, v) \<in> set es"
proof -
  let ?r = "rev (map (\<lambda>(k, v). (v, k)) es)"
  have "map fst ?r = rev (map snd es)" by (induction es) auto
  then have "distinct (map fst ?r)" using assms by simp
  then have "map_of ?r v = Some k \<longleftrightarrow> (v, k) \<in> set ?r" by (rule map_of_eq_Some_iff)
  then show ?thesis by (auto simp: invert_entries_map_of)
qed

end
