(* ===== verification/Types.thy ===== *)
theory Types
  imports Prelude
begin

text \<open>
  The data the components exchange: the unified message of \<open>internal/types/message.go\<close>, the
  decoded event of \<open>internal/decoder/types.go\<close>, the Ethereum log the decoders read, and the
  interface of the go-ethereum library. Go's typed string constants stay strings; \<open>uint\<close> is 64
  bits wide; an \<open>int64\<close> is an \<open>int\<close>, its range being established where a value is produced; a
  \<open>time.Time\<close> is an \<open>int\<close>; a pointer to a struct is an option.
\<close>

section \<open>The unified message (internal/types/message.go)\<close>

definition StatusPending :: string where "StatusPending = ''pending''"
definition StatusExecuted :: string where "StatusExecuted = ''executed''"
definition StatusFailed :: string where "StatusFailed = ''failed''"

definition TypeTokenTransfer :: string where "TypeTokenTransfer = ''token_transfer''"
definition TypeMessage :: string where "TypeMessage = ''message''"
definition TypeContractCall :: string where "TypeContractCall = ''contract_call''"

lemmas status_defs = StatusPending_def StatusExecuted_def StatusFailed_def
lemmas type_defs = TypeTokenTransfer_def TypeMessage_def TypeContractCall_def

record source =
  src_ChainID :: u64
  src_TxHash :: string
  src_BlockNumber :: u64
  src_Timestamp :: int
  src_Sender :: string
  src_LogIndex :: u64

record destination =
  dst_ChainID :: u64
  dst_TxHash :: string
  dst_BlockNumber :: u64
  dst_Timestamp :: int
  dst_Receiver :: string
  dst_LogIndex :: u64

record payload =
  pl_Token :: string
  pl_Amount :: string
  pl_Data :: string
  pl_Nonce :: u64

record metadata =
  md_Fee :: string
  md_Relayer :: string
  md_GasUsed :: u64
  md_LatencySeconds :: int

record message =
  MessageID :: string
  msg_Protocol :: string
  msg_Type :: string
  msg_Status :: string
  msg_Source :: source
  msg_Destination :: "destination option"
  msg_Payload :: "payload option"
  msg_Metadata :: "metadata option"
  CreatedAt :: int
  UpdatedAt :: int

text \<open>Go's zero values, where a composite literal leaves fields out.\<close>

definition zero_source :: source where
  "zero_source = \<lparr>src_ChainID = 0, src_TxHash = [], src_BlockNumber = 0, src_Timestamp = 0,
     src_Sender = [], src_LogIndex = 0\<rparr>"

definition zero_payload :: payload where
  "zero_payload = \<lparr>pl_Token = [], pl_Amount = [], pl_Data = [], pl_Nonce = 0\<rparr>"

definition zero_metadata :: metadata where
  "zero_metadata = \<lparr>md_Fee = [], md_Relayer = [], md_GasUsed = 0, md_LatencySeconds = 0\<rparr>"

definition zero_message :: message where
  "zero_message = \<lparr>MessageID = [], msg_Protocol = [], msg_Type = [], msg_Status = [],
     msg_Source = zero_source, msg_Destination = None, msg_Payload = None, msg_Metadata = None,
     CreatedAt = 0, UpdatedAt = 0\<rparr>"

section \<open>Events and logs (internal/decoder/types.go)\<close>

record raw_event =
  re_Protocol :: string
  re_ChainID :: u64
  re_BlockNumber :: u64
  re_TxHash :: string
  re_LogIndex :: u64
  re_Timestamp :: int
  re_EventType :: string
  re_Data :: data

text \<open>The fields of \<open>ethtypes.Log\<close> the decoders read.\<close>

record eth_log =
  log_Address :: bytes
  log_Topics :: "bytes list"
  log_Data :: bytes
  log_BlockNumber :: u64
  log_TxHash :: bytes
  log_Index :: u64

abbreviation event_data :: "raw_event \<Rightarrow> string \<Rightarrow> string" where
  "event_data ev k \<equiv> data_get (re_Data ev) k"

section \<open>The go-ethereum library\<close>

text \<open>
  The values \<open>abi.Arguments.Unpack\<close> returns have a type chosen at run time; a type assertion is
  a match on this datatype. A \<open>*big.Int\<close> may be nil.
\<close>

datatype abi_val =
    AbiBytes bytes
  | AbiString string
  | AbiBool bool
  | AbiUint8 byte
  | AbiUint32 u32
  | AbiUint64 u64
  | AbiBigInt "int option"
  | AbiAddress bytes
  | AbiBytes32 bytes
  | AbiStruct "(string \<times> abi_val) list"
  | AbiPtr "abi_val option"
  | AbiSlice "abi_val list"

text \<open>Go's type assertions \<open>v.(T)\<close>.\<close>

definition as_bytes :: "abi_val \<Rightarrow> bytes option" where
  "as_bytes v = (case v of AbiBytes b \<Rightarrow> Some b | _ \<Rightarrow> None)"

definition as_string :: "abi_val \<Rightarrow> string option" where
  "as_string v = (case v of AbiString s \<Rightarrow> Some s | _ \<Rightarrow> None)"

definition as_uint8 :: "abi_val \<Rightarrow> byte option" where
  "as_uint8 v = (case v of AbiUint8 w \<Rightarrow> Some w | _ \<Rightarrow> None)"

definition as_uint32 :: "abi_val \<Rightarrow> u32 option" where
  "as_uint32 v = (case v of AbiUint32 w \<Rightarrow> Some w | _ \<Rightarrow> None)"

definition as_uint64 :: "abi_val \<Rightarrow> u64 option" where
  "as_uint64 v = (case v of AbiUint64 w \<Rightarrow> Some w | _ \<Rightarrow> None)"

definition as_big :: "abi_val \<Rightarrow> int option option" where
  "as_big v = (case v of AbiBigInt i \<Rightarrow> Some i | _ \<Rightarrow> None)"

definition as_address :: "abi_val \<Rightarrow> bytes option" where
  "as_address v = (case v of AbiAddress a \<Rightarrow> Some a | _ \<Rightarrow> None)"

definition as_bytes32 :: "abi_val \<Rightarrow> bytes option" where
  "as_bytes32 v = (case v of AbiBytes32 b \<Rightarrow> Some b | _ \<Rightarrow> None)"

definition as_struct :: "abi_val \<Rightarrow> (string \<times> abi_val) list" where
  "as_struct v = (case v of AbiStruct fs \<Rightarrow> fs | _ \<Rightarrow> [])"

lemmas assert_defs = as_bytes_def as_string_def as_uint8_def as_uint32_def as_uint64_def as_big_def
  as_address_def as_bytes32_def as_struct_def

text \<open>
  The structs \<open>abi.Arguments.Copy\<close> fills: \<open>packetOrigin\<close>, \<open>packetReceiveData\<close> and \<open>oftSentData\<close>
  of the LayerZero decoder, \<open>logMsgData\<close> of the Wormhole decoder.
\<close>

record packetOrigin =
  po_SrcEid :: u32
  po_Sender :: bytes
  po_Nonce :: u64

record packetReceiveData =
  pr_Origin :: packetOrigin
  pr_Receiver :: bytes

record oftSentData =
  oft_DstEid :: u32
  oft_AmountSentLD :: "int option"
  oft_AmountReceivedLD :: "int option"

record logMsgData =
  lm_Sequence :: u64
  lm_Nonce :: u32
  lm_Payload :: bytes
  lm_ConsistencyLevel :: byte

text \<open>
  The event descriptions the decoders embed as JSON: an input is indexed or not, has a type and a
  name, and a tuple has components. The library turns them into the topic hashes and the
  unpacking functions below.
\<close>

datatype abi_input = Input (in_indexed: bool) (in_type: string) (in_name: string)
  (in_components: "abi_input list")

record abi_event =
  ev_name :: string
  ev_anonymous :: bool
  ev_inputs :: "abi_input list"

text \<open>
  What the decoders use of go-ethereum, as one parameter of the model: the library is not part
  of the repository. \<open>gUnpack p e d\<close> is \<open>Unpack\<close> of the non-indexed arguments of event \<open>e\<close> of
  the ABI of protocol \<open>p\<close>; \<open>gEventID p e\<close> is that event's topic hash; \<open>gLowerUnicode\<close> is
  \<open>strings.ToLower\<close> on a string that is not ASCII.
\<close>

record geth =
  gEventID :: "string \<Rightarrow> string \<Rightarrow> bytes"
  gUnpack :: "string \<Rightarrow> string \<Rightarrow> bytes \<Rightarrow> error + abi_val list"
  gCopyReceived :: "abi_val list \<Rightarrow> error + packetReceiveData"
  gCopyOFTSent :: "abi_val list \<Rightarrow> error + oftSentData"
  gCopyLogMsg :: "abi_val list \<Rightarrow> error + logMsgData"
  gHexToAddress :: "string \<Rightarrow> bytes"
  gBytesToAddress :: "bytes \<Rightarrow> bytes"
  gBytesToHash :: "bytes \<Rightarrow> bytes"
  gAddressHex :: "bytes \<Rightarrow> string"
  gHashHex :: "bytes \<Rightarrow> string"
  gHashBig :: "bytes \<Rightarrow> nat"
  gBytes2Hex :: "bytes \<Rightarrow> string"
  gLowerUnicode :: "string \<Rightarrow> string"

text \<open>\<open>Hash.Big().Uint64()\<close> keeps the low 64 bits, \<open>uint16(...)\<close> of it the low 16.\<close>

definition topic_uint64 :: "geth \<Rightarrow> bytes \<Rightarrow> u64" where
  "topic_uint64 g t = of_nat (gHashBig g t)"

text \<open>
  Documented behaviour of the library, used as hypotheses by name: an address is read from the
  last 20 bytes; a 32-byte hash as a number is its big-endian value; a hash is never rendered as
  the empty string, nor is an address.
\<close>

definition address_crops :: "geth \<Rightarrow> bool" where
  "address_crops g \<longleftrightarrow>
     (\<forall>bs. 20 \<le> length bs \<longrightarrow> gBytesToAddress g bs = drop (length bs - 20) bs)"

definition hash_big_endian :: "geth \<Rightarrow> bool" where
  "hash_big_endian g \<longleftrightarrow> (\<forall>bs. gHashBig g bs = be_nat 0 bs)"

definition hex_nonempty :: "geth \<Rightarrow> bool" where
  "hex_nonempty g \<longleftrightarrow> (\<forall>bs. gHashHex g bs \<noteq> [] \<and> gAddressHex g bs \<noteq> [])"

text \<open>Hexadecimal renderings of hashes are injective and hold no slash.\<close>

definition hash_hex_injective :: "geth \<Rightarrow> bool" where
  "hash_hex_injective g \<longleftrightarrow>
     (\<forall>x y. gHashHex g x = gHashHex g y \<longleftrightarrow> x = y) \<and> (\<forall>x. CHR ''/'' \<notin> set (gHashHex g x))"

text \<open>\<open>strings.ToLower\<close>: the ASCII path of the library, and the parameter for the other.\<close>

definition ascii_lower :: "char \<Rightarrow> char" where
  "ascii_lower c =
     (let v = (of_char c :: nat) in if 65 \<le> v \<and> v \<le> 90 then char_of (v + 32) else c)"

definition ToLower :: "geth \<Rightarrow> string \<Rightarrow> string" where
  "ToLower g s =
     (if \<forall>c \<in> set s. (of_char c :: nat) < 128 then map ascii_lower s else gLowerUnicode g s)"

text \<open>
  A concrete library with the documented behaviour, for the witnesses: addresses and hashes are
  rendered as plain hexadecimal, and the topic of an event is the bytes of its name.
\<close>

definition str_bytes :: "string \<Rightarrow> bytes" where
  "str_bytes s = map of_char s"

definition ref_copy_received :: "abi_val list \<Rightarrow> error + packetReceiveData" where
  "ref_copy_received vs =
     (let fs = as_struct (vs ! 0) in
      Inr \<lparr>pr_Origin = \<lparr>po_SrcEid = the (as_uint32 (snd (fs ! 0))), po_Sender = the (as_bytes32 (snd (fs ! 1))),
                           po_Nonce = the (as_uint64 (snd (fs ! 2)))\<rparr>,
           pr_Receiver = the (as_address (vs ! 1))\<rparr>)"

definition ref_copy_oft :: "abi_val list \<Rightarrow> error + oftSentData" where
  "ref_copy_oft vs =
     Inr \<lparr>oft_DstEid = the (as_uint32 (vs ! 0)), oft_AmountSentLD = the (as_big (vs ! 1)),
          oft_AmountReceivedLD = the (as_big (vs ! 2))\<rparr>"

definition ref_copy_logmsg :: "abi_val list \<Rightarrow> error + logMsgData" where
  "ref_copy_logmsg vs =
     Inr \<lparr>lm_Sequence = the (as_uint64 (vs ! 0)), lm_Nonce = the (as_uint32 (vs ! 1)),
          lm_Payload = the (as_bytes (vs ! 2)), lm_ConsistencyLevel = the (as_uint8 (vs ! 3))\<rparr>"

definition ref_geth :: "(string \<Rightarrow> string \<Rightarrow> bytes \<Rightarrow> error + abi_val list) \<Rightarrow> geth" where
  "ref_geth unpack =
     \<lparr>gEventID = (\<lambda>p e. str_bytes e),
      gUnpack = unpack,
      gCopyReceived = ref_copy_received,
      gCopyOFTSent = ref_copy_oft,
      gCopyLogMsg = ref_copy_logmsg,
      gHexToAddress = (\<lambda>s. str_bytes (drop 2 s)),
      gBytesToAddress = (\<lambda>bs. replicate (20 - length bs) 0 @ drop (length bs - 20) bs),
      gBytesToHash = (\<lambda>bs. replicate (32 - length bs) 0 @ drop (length bs - 32) bs),
      gAddressHex = (\<lambda>bs. ''0x'' @ EncodeToString bs),
      gHashHex = (\<lambda>bs. ''0x'' @ EncodeToString bs),
      gHashBig = be_nat 0,
      gBytes2Hex = EncodeToString,
      gLowerUnicode = (\<lambda>s. s)\<rparr>"

lemma ref_geth_laws [simp]:
  "address_crops (ref_geth u)" "hash_big_endian (ref_geth u)" "hex_nonempty (ref_geth u)"
  by (simp_all add: address_crops_def hash_big_endian_def hex_nonempty_def ref_geth_def)

lemma ref_geth_hash_hex [simp]: "hash_hex_injective (ref_geth u)"
proof -
  have "CHR ''/'' \<notin> set (EncodeToString x)" for x
    using set_EncodeToString [of x] by auto
  then show ?thesis by (simp add: hash_hex_injective_def ref_geth_def EncodeToString_inj)
qed

lemma topic_uint64_be:
  assumes "hash_big_endian g"
  shows "topic_uint64 g (be_bytes 32 (unat (w :: 'a::len word))) = of_nat (unat w mod 256 ^ 32)"
  using assms by (simp add: topic_uint64_def hash_big_endian_def be_nat_be_bytes)

text \<open>
  The part of a decoded event every decoder fills from the log before it looks at the event:
  a composite literal with the protocol, chain, block, transaction and log index.
\<close>

definition base_event :: "geth \<Rightarrow> string \<Rightarrow> eth_log \<Rightarrow> u64 \<Rightarrow> string \<Rightarrow> data \<Rightarrow> raw_event" where
  "base_event g p l cid ty d =
     \<lparr>re_Protocol = p, re_ChainID = cid, re_BlockNumber = log_BlockNumber l,
      re_TxHash = gHashHex g (log_TxHash l), re_LogIndex = log_Index l, re_Timestamp = 0,
      re_EventType = ty, re_Data = d\<rparr>"

text \<open>
  \<open>eventsByTopic\<close>: a loop over the events of the ABI that stores each under its topic hash.
\<close>

definition eventsByTopic :: "geth \<Rightarrow> string \<Rightarrow> string list \<Rightarrow> (bytes \<rightharpoonup> string)" where
  "eventsByTopic g p names = fold (\<lambda>n m. m(gEventID g p n \<mapsto> n)) names Map.empty"

definition distinct_topics :: "geth \<Rightarrow> string \<Rightarrow> string list \<Rightarrow> bool" where
  "distinct_topics g p names \<longleftrightarrow> distinct (map (gEventID g p) names)"

lemma eventsByTopic_fold:
  "fold (\<lambda>n m. m(gEventID g p n \<mapsto> n)) names m0 t = Some n \<Longrightarrow>
   m0 t = Some n \<or> n \<in> set names \<and> gEventID g p n = t"
  by (induction names arbitrary: m0) (fastforce split: if_splits)+

lemma eventsByTopic_Some:
  "eventsByTopic g p names t = Some n \<Longrightarrow> n \<in> set names \<and> gEventID g p n = t"
  using eventsByTopic_fold [of g p names Map.empty t n] by (simp add: eventsByTopic_def)

end
