(* ===== verification/Postgres.thy ===== *)
theory Postgres
  imports Types
begin

text \<open>
  The PostgreSQL database as the program uses it: the tables of \<open>migrations/\<close> with their primary
  keys, CHECK and foreign key constraints, statements that may fail, and transactions that roll
  back. A statement can fail for reasons outside the model (a lost connection, a number above
  the range of BIGINT): the fault schedule \<open>pg_faults\<close> says which of the next statements do.
  The statements themselves are in the theories of the components that issue them.
\<close>

section \<open>Tables\<close>

record message_row =
  mr_protocol :: string
  mr_type :: string
  mr_status :: string
  mr_created :: int
  mr_updated :: int

text \<open>The columns of \<open>message_payloads\<close> and \<open>message_metadata\<close> are nullable.\<close>

record payload_row =
  pr_token :: "string option"
  pr_amount :: "string option"
  pr_data :: "string option"
  pr_nonce :: "u64 option"

record metadata_row =
  mt_fee :: "string option"
  mt_relayer :: "string option"
  mt_gas_used :: "u64 option"
  mt_latency :: "int option"

record block_hash_row =
  bh_hash :: string
  bh_parent :: string

text \<open>
  \<open>t_ids\<close> is the order in which the rows of \<open>messages\<close> were inserted. \<open>t_cursors\<close> is
  \<open>indexer_cursors\<close>, \<open>t_block_hashes\<close> is \<open>block_hashes\<close>.
\<close>

record tables =
  t_ids :: "string list"
  t_messages :: "string \<rightharpoonup> message_row"
  t_sources :: "string \<rightharpoonup> source"
  t_destinations :: "string \<rightharpoonup> destination"
  t_payloads :: "string \<rightharpoonup> payload_row"
  t_metadata :: "string \<rightharpoonup> metadata_row"
  t_cursors :: "u64 \<times> string \<rightharpoonup> u64"
  t_block_hashes :: "u64 \<times> u64 \<rightharpoonup> block_hash_row"

definition empty_tables :: tables where
  "empty_tables = \<lparr>t_ids = [], t_messages = Map.empty, t_sources = Map.empty,
     t_destinations = Map.empty, t_payloads = Map.empty, t_metadata = Map.empty,
     t_cursors = Map.empty, t_block_hashes = Map.empty\<rparr>"

definition message_types :: "string set" where
  "message_types = {TypeTokenTransfer, TypeMessage, TypeContractCall}"

definition message_statuses :: "string set" where
  "message_statuses = {StatusPending, StatusExecuted, StatusFailed}"

text \<open>The constraints of the schema, and the insertion order covering the rows.\<close>

definition row_schema :: "tables \<Rightarrow> string \<Rightarrow> bool" where
  "row_schema t mid \<longleftrightarrow>
     (mid \<in> set (t_ids t) \<longleftrightarrow> t_messages t mid \<noteq> None) \<and>
     (case t_messages t mid of
        Some row \<Rightarrow> mr_type row \<in> message_types \<and> mr_status row \<in> message_statuses
      | None \<Rightarrow> t_sources t mid = None \<and> t_destinations t mid = None \<and> t_payloads t mid = None \<and>
          t_metadata t mid = None)"

definition schema_ok :: "tables \<Rightarrow> bool" where
  "schema_ok t \<longleftrightarrow> distinct (t_ids t) \<and> (\<forall>mid. row_schema t mid)"

lemma schema_ok_empty [simp]: "schema_ok empty_tables"
  by (simp add: schema_ok_def row_schema_def empty_tables_def)

section \<open>The connection: faults, clock and plans\<close>

text \<open>
  \<open>pg_now\<close> is \<open>NOW()\<close>. \<open>pg_plan\<close> is the order in which a query without \<open>ORDER BY\<close> visits the rows
  of \<open>messages\<close>: any rearrangement, chosen by the planner.
\<close>

record pg =
  pg_tables :: tables
  pg_faults :: "bool list"
  pg_now :: int
  pg_plan :: "string list \<Rightarrow> string list"

definition plan_ok :: "pg \<Rightarrow> bool" where
  "plan_ok s \<longleftrightarrow> (\<forall>xs. set (pg_plan s xs) = set xs)"

definition fault :: "pg \<Rightarrow> bool" where
  "fault s = (case pg_faults s of [] \<Rightarrow> False | b # _ \<Rightarrow> b)"

definition tick :: "pg \<Rightarrow> pg" where
  "tick s = s\<lparr>pg_faults := tl (pg_faults s)\<rparr>"

definition DbError :: error where "DbError = Errorf ''database error''"
definition CheckViolation :: error where "CheckViolation = Errorf ''violates check constraint''"
definition FKViolation :: error where "FKViolation = Errorf ''violates foreign key constraint''"

lemma tick_simps [simp]:
  "pg_tables (tick s) = pg_tables s" "pg_now (tick s) = pg_now s" "pg_plan (tick s) = pg_plan s"
  "pg_faults (tick s) = tl (pg_faults s)" "plan_ok (tick s) = plan_ok s"
  by (simp_all add: tick_def plan_ok_def)

lemma fault_free [simp]: "pg_faults s = [] \<Longrightarrow> \<not> fault s"
  by (simp add: fault_def)

text \<open>One statement on its own: it fails, or changes the tables.\<close>

type_synonym stmt = "tables \<Rightarrow> error + tables"

definition exec_one :: "stmt \<Rightarrow> pg \<Rightarrow> pg \<times> error option" where
  "exec_one f s =
     (if fault s then (tick s, Some DbError)
      else case f (pg_tables s) of
        Inl e \<Rightarrow> (tick s, Some e)
      | Inr t \<Rightarrow> ((tick s)\<lparr>pg_tables := t\<rparr>, None))"

definition query_one :: "(tables \<Rightarrow> error + 'a) \<Rightarrow> pg \<Rightarrow> pg \<times> (error + 'a)" where
  "query_one q s = (tick s, if fault s then Inl DbError else q (pg_tables s))"

definition wrap_opt :: "string \<Rightarrow> error option \<Rightarrow> error option" where
  "wrap_opt c = map_option (Wrapf c)"

text \<open>
  A transaction: \<open>BEGIN\<close>, the statements, each with the context its error is wrapped in, and
  \<open>COMMIT\<close>. On any error the deferred rollback leaves the tables as they were.
\<close>

fun run_stmts :: "(string \<times> stmt) list \<Rightarrow> pg \<Rightarrow> pg \<times> error option" where
  "run_stmts [] s = (s, None)"
| "run_stmts ((c, f) # rest) s =
     (case exec_one f s of
        (s', Some e) \<Rightarrow> (s', Some (Wrapf c e))
      | (s', None) \<Rightarrow> run_stmts rest s')"

definition in_tx :: "(string \<times> stmt) list \<Rightarrow> pg \<Rightarrow> pg \<times> error option" where
  "in_tx stmts s =
     (if fault s then (tick s, Some (Wrapf ''beginning transaction'' DbError))
      else case run_stmts stmts (tick s) of
        (s', Some e) \<Rightarrow> (s'\<lparr>pg_tables := pg_tables s\<rparr>, Some e)
      | (s', None) \<Rightarrow>
          (if fault s' then ((tick s')\<lparr>pg_tables := pg_tables s\<rparr>, Some DbError)
           else (tick s', None)))"

text \<open>The effect of a statement list when nothing outside the model fails.\<close>

fun apply_stmts :: "(string \<times> stmt) list \<Rightarrow> tables \<Rightarrow> error + tables" where
  "apply_stmts [] t = Inr t"
| "apply_stmts ((c, f) # rest) t =
     (case f t of Inl e \<Rightarrow> Inl (Wrapf c e) | Inr t' \<Rightarrow> apply_stmts rest t')"

section \<open>Facts about statements and transactions\<close>

lemma exec_one_frame:
  "exec_one f s = (s', r) \<Longrightarrow> pg_now s' = pg_now s \<and> pg_plan s' = pg_plan s \<and>
     pg_faults s' = tl (pg_faults s)"
  by (auto simp: exec_one_def split: if_splits sum.splits)

lemma exec_one_error: "exec_one f s = (s', Some e) \<Longrightarrow> pg_tables s' = pg_tables s"
  by (auto simp: exec_one_def split: if_splits sum.splits)

lemma exec_one_ok: "exec_one f s = (s', None) \<Longrightarrow> f (pg_tables s) = Inr (pg_tables s')"
  by (auto simp: exec_one_def split: if_splits sum.splits)

lemma exec_one_fault_free:
  assumes "pg_faults s = []"
  shows "exec_one f s =
     (case f (pg_tables s) of Inl e \<Rightarrow> (s, Some e) | Inr t \<Rightarrow> (s\<lparr>pg_tables := t\<rparr>, None))"
  using assms by (simp add: exec_one_def tick_def split: sum.splits)

lemma run_stmts_frame:
  "run_stmts ss s = (s', r) \<Longrightarrow> pg_now s' = pg_now s \<and> pg_plan s' = pg_plan s \<and>
     (pg_faults s = [] \<longrightarrow> pg_faults s' = [])"
proof (induction ss s rule: run_stmts.induct)
  case (2 c f rest s)
  then show ?case
    by (auto dest: exec_one_frame split: prod.splits option.splits)
qed simp

lemma run_stmts_ok: "run_stmts ss s = (s', None) \<Longrightarrow> apply_stmts ss (pg_tables s) = Inr (pg_tables s')"
proof (induction ss s rule: run_stmts.induct)
  case (2 c f rest s)
  then show ?case
    by (auto dest: exec_one_ok split: prod.splits option.splits)
qed simp

lemma run_stmts_fault_free:
  assumes "pg_faults s = []"
  shows "case apply_stmts ss (pg_tables s) of
      Inl e \<Rightarrow> snd (run_stmts ss s) = Some e
    | Inr t \<Rightarrow> run_stmts ss s = (s\<lparr>pg_tables := t\<rparr>, None)"
  using assms
proof (induction ss arbitrary: s)
  case (Cons cf rest)
  obtain c f where cf: "cf = (c, f)" by (cases cf)
  show ?case
  proof (cases "f (pg_tables s)")
    case (Inl e)
    then show ?thesis using Cons.prems by (simp add: cf exec_one_fault_free)
  next
    case (Inr t)
    then show ?thesis
      using Cons.IH [of "s\<lparr>pg_tables := t\<rparr>"] Cons.prems
      by (simp add: cf exec_one_fault_free split: sum.splits)
  qed
qed simp

text \<open>Atomicity: a transaction either fails and leaves the tables, or has all its effects.\<close>

lemma in_tx_atomic:
  "in_tx ss s = (s', r) \<Longrightarrow>
     (case r of Some _ \<Rightarrow> pg_tables s' = pg_tables s
      | None \<Rightarrow> apply_stmts ss (pg_tables s) = Inr (pg_tables s'))"
  by (auto simp: in_tx_def dest: run_stmts_ok split: if_splits prod.splits option.splits)

lemma in_tx_frame:
  "in_tx ss s = (s', r) \<Longrightarrow> pg_now s' = pg_now s \<and> pg_plan s' = pg_plan s \<and>
     (pg_faults s = [] \<longrightarrow> pg_faults s' = [])"
  by (auto simp: in_tx_def dest: run_stmts_frame split: if_splits prod.splits option.splits)

lemma in_tx_fault_free:
  assumes "pg_faults s = []"
  shows "in_tx ss s =
     (case apply_stmts ss (pg_tables s) of
        Inl e \<Rightarrow> (s, Some e) | Inr t \<Rightarrow> (s\<lparr>pg_tables := t\<rparr>, None))"
proof -
  have t: "tick s = s" using assms by (simp add: tick_def)
  show ?thesis
  proof (cases "apply_stmts ss (pg_tables s)")
    case (Inl e)
    then obtain s' where r: "run_stmts ss s = (s', Some e)"
      using run_stmts_fault_free [OF assms, of ss] by (cases "run_stmts ss s") auto
    then have "s'\<lparr>pg_tables := pg_tables s\<rparr> = s"
      using run_stmts_frame [OF r] assms by simp
    then show ?thesis unfolding in_tx_def t r using assms Inl by simp
  next
    case (Inr u)
    then have "run_stmts ss s = (s\<lparr>pg_tables := u\<rparr>, None)"
      using run_stmts_fault_free [OF assms, of ss] by simp
    then show ?thesis unfolding in_tx_def t using assms Inr by (simp add: tick_def)
  qed
qed

text \<open>A property of the tables every statement keeps is kept by the transaction.\<close>

lemma apply_stmts_invariant:
  assumes "\<And>c f t t'. (c, f) \<in> set ss \<Longrightarrow> P t \<Longrightarrow> f t = Inr t' \<Longrightarrow> P t'"
    and "P t" and "apply_stmts ss t = Inr t'"
  shows "P t'"
  using assms
proof (induction ss arbitrary: t)
  case (Cons cf rest)
  obtain c f where cf: "cf = (c, f)" by (cases cf)
  with Cons.prems(3) obtain u where u: "f t = Inr u" "apply_stmts rest u = Inr t'"
    by (auto split: sum.splits)
  have "P u" using Cons.prems(1) [of c f t u] Cons.prems(2) u cf by simp
  with Cons.IH [of u] Cons.prems(1) u show ?case by auto
qed simp

lemma in_tx_invariant:
  assumes "\<And>c f t t'. (c, f) \<in> set ss \<Longrightarrow> P t \<Longrightarrow> f t = Inr t' \<Longrightarrow> P t'"
    and "P (pg_tables s)" and "in_tx ss s = (s', r)"
  shows "P (pg_tables s')"
proof (cases r)
  case (Some e)
  with in_tx_atomic [OF assms(3)] assms(2) show ?thesis by simp
next
  case None
  with in_tx_atomic [OF assms(3)] have "apply_stmts ss (pg_tables s) = Inr (pg_tables s')" by simp
  with assms(1,2) show ?thesis by (rule apply_stmts_invariant)
qed

end
