(* ===== verification/Normalizer.thy ===== *)
theory Normalizer
  imports Types
begin

text \<open>
  The normalizer, \<open>internal/normalizer/normalizer.go\<close>: from a decoded event to a new message or to
  a key under which an existing message is completed. \<open>now\<close> is the value of \<open>time.Now()\<close>.
\<close>

record CorrelationKey =
  ck_Protocol :: string
  ck_MessageID :: string
  ck_Nonce :: u64
  ck_Sender :: string
  ck_SrcChainID :: u64

record Result =
  res_Message :: message
  res_IsCorrelation :: bool
  res_CorrelationKey :: "CorrelationKey option"

definition parseUint64 :: "string \<Rightarrow> error + u64" where
  "parseUint64 s = (if s = [] then Inl (Errorf ''empty string'') else ParseUint10 s)"

lemma parseUint64_dec_word [simp]: "parseUint64 (dec_word (w :: u64)) = Inr w"
  by (simp add: parseUint64_def)

lemma parseUint64_dec_u16 [simp]: "parseUint64 (dec_word (w :: u16)) = Inr (ucast w)"
  by (simp add: parseUint64_def)

section \<open>Shapes shared by the event handlers\<close>

text \<open>The composite literal of a new pending message.\<close>

definition pending_message ::
    "string \<Rightarrow> string \<Rightarrow> string \<Rightarrow> source \<Rightarrow> payload \<Rightarrow> metadata \<Rightarrow> int \<Rightarrow> message" where
  "pending_message mid proto ty src pl md now =
     \<lparr>MessageID = mid, msg_Protocol = proto, msg_Type = ty, msg_Status = StatusPending,
      msg_Source = src, msg_Destination = None, msg_Payload = Some pl, msg_Metadata = Some md,
      CreatedAt = now, UpdatedAt = now\<rparr>"

definition event_source :: "raw_event \<Rightarrow> u64 \<Rightarrow> string \<Rightarrow> string \<Rightarrow> source" where
  "event_source ev cid tx sender =
     \<lparr>src_ChainID = cid, src_TxHash = tx, src_BlockNumber = re_BlockNumber ev,
      src_Timestamp = re_Timestamp ev, src_Sender = sender, src_LogIndex = re_LogIndex ev\<rparr>"

definition event_destination :: "raw_event \<Rightarrow> string \<Rightarrow> destination" where
  "event_destination ev receiver =
     \<lparr>dst_ChainID = re_ChainID ev, dst_TxHash = re_TxHash ev, dst_BlockNumber = re_BlockNumber ev,
      dst_Timestamp = re_Timestamp ev, dst_Receiver = receiver, dst_LogIndex = re_LogIndex ev\<rparr>"

definition new_result :: "message \<Rightarrow> Result" where
  "new_result m = \<lparr>res_Message = m, res_IsCorrelation = False, res_CorrelationKey = None\<rparr>"

definition correlation_result :: "message \<Rightarrow> CorrelationKey \<Rightarrow> Result" where
  "correlation_result m k = \<lparr>res_Message = m, res_IsCorrelation = True, res_CorrelationKey = Some k\<rparr>"

section \<open>One function per event\<close>

definition normalizePacketSent :: "int \<Rightarrow> raw_event \<Rightarrow> error + Result" where
  "normalizePacketSent now event =
     (let guid = event_data event ''guid'' in
      if guid = [] then Inl (Errorf ''PacketSent missing guid'')
      else case parseUint64 (event_data event ''nonce'') of
        Inl err \<Rightarrow> Inl (Wrapf ''PacketSent invalid nonce'' err)
      | Inr nonce \<Rightarrow>
          Inr (new_result (pending_message guid (re_Protocol event) TypeMessage
            (event_source event (re_ChainID event) (re_TxHash event) (event_data event ''sender''))
            (zero_payload\<lparr>pl_Data := event_data event ''message'', pl_Nonce := nonce\<rparr>)
            zero_metadata now)))"

definition normalizePacketReceived :: "raw_event \<Rightarrow> error + Result" where
  "normalizePacketReceived event =
     (case parseUint64 (event_data event ''nonce'') of
        Inl err \<Rightarrow> Inl (Wrapf ''PacketReceived invalid nonce'' err)
      | Inr nonce \<Rightarrow>
          let sender = event_data event ''sender'' in
          if sender = [] then Inl (Errorf ''PacketReceived missing sender'')
          else case parseUint64 (event_data event ''src_chain_id'') of
            Inl err \<Rightarrow> Inl (Wrapf ''PacketReceived invalid src_chain_id'' err)
          | Inr srcChainID \<Rightarrow>
              Inr (correlation_result
                (zero_message\<lparr>msg_Destination :=
                   Some (event_destination event (event_data event ''receiver''))\<rparr>)
                \<lparr>ck_Protocol = re_Protocol event, ck_MessageID = [], ck_Nonce = nonce,
                 ck_Sender = sender, ck_SrcChainID = srcChainID\<rparr>))"

definition normalizeOFTSent :: "int \<Rightarrow> raw_event \<Rightarrow> error + Result" where
  "normalizeOFTSent now event =
     (let guid = event_data event ''guid'' in
      if guid = [] then Inl (Errorf ''OFTSent missing guid'')
      else
        Inr (new_result (pending_message guid (re_Protocol event) TypeTokenTransfer
          (event_source event (re_ChainID event) (re_TxHash event) (event_data event ''from_address''))
          (zero_payload\<lparr>pl_Amount := event_data event ''amount_sent''\<rparr>)
          zero_metadata now)))"

definition normalizeAxelarContractCall :: "int \<Rightarrow> raw_event \<Rightarrow> error + Result" where
  "normalizeAxelarContractCall now event =
     (let payloadHash = event_data event ''payload_hash'' in
      if payloadHash = [] then Inl (Errorf ''ContractCall missing payload_hash'')
      else let sender = event_data event ''sender'' in
      if sender = [] then Inl (Errorf ''ContractCall missing sender'')
      else
        Inr (new_result (pending_message payloadHash (re_Protocol event) TypeContractCall
          (event_source event (re_ChainID event) (re_TxHash event) sender)
          (zero_payload\<lparr>pl_Data := event_data event ''payload''\<rparr>)
          zero_metadata now)))"

text \<open>
  \<open>srcChainID, _ := parseUint64(...)\<close> discards the error and keeps the value: 0 on a syntax error,
  the largest \<open>uint64\<close> on a range error, as \<open>strconv.ParseUint\<close> documents.
\<close>

definition parseUint64_value :: "string \<Rightarrow> u64" where
  "parseUint64_value s =
     (case parseUint64 s of Inr w \<Rightarrow> w | Inl e \<Rightarrow> if e = ErrRange then - 1 else 0)"

definition normalizeAxelarContractCallApproved :: "int \<Rightarrow> raw_event \<Rightarrow> error + Result" where
  "normalizeAxelarContractCallApproved now event =
     (let commandID = event_data event ''command_id'' in
      if commandID = [] then Inl (Errorf ''ContractCallApproved missing command_id'')
      else
        let srcChainID = parseUint64_value (event_data event ''src_chain_id'') in
        Inr (new_result (pending_message commandID (re_Protocol event) TypeContractCall
          (event_source event srcChainID (event_data event ''source_tx_hash'')
             (event_data event ''source_address''))
          zero_payload zero_metadata now)))"

definition normalizeAxelarExecuted :: "raw_event \<Rightarrow> error + Result" where
  "normalizeAxelarExecuted event =
     (let commandID = event_data event ''command_id'' in
      if commandID = [] then Inl (Errorf ''Executed missing command_id'')
      else
        Inr (correlation_result
          (zero_message\<lparr>msg_Destination := Some (event_destination event [])\<rparr>)
          \<lparr>ck_Protocol = re_Protocol event, ck_MessageID = commandID, ck_Nonce = 0, ck_Sender = [],
           ck_SrcChainID = 0\<rparr>))"

definition normalizeLogMessagePublished :: "int \<Rightarrow> raw_event \<Rightarrow> error + Result" where
  "normalizeLogMessagePublished now event =
     (let msgID = event_data event ''message_id'' in
      if msgID = [] then Inl (Errorf ''LogMessagePublished missing message_id'')
      else
        Inr (new_result (pending_message msgID (re_Protocol event) TypeMessage
          (event_source event (re_ChainID event) (re_TxHash event) (event_data event ''sender''))
          (zero_payload\<lparr>pl_Data := event_data event ''payload''\<rparr>)
          zero_metadata now)))"

definition normalizeTransferRedeemed :: "raw_event \<Rightarrow> error + Result" where
  "normalizeTransferRedeemed event =
     (let msgID = event_data event ''message_id'' in
      if msgID = [] then Inl (Errorf ''TransferRedeemed missing message_id'')
      else let sender = event_data event ''sender'' in
      if sender = [] then Inl (Errorf ''TransferRedeemed missing sender'')
      else case parseUint64 (event_data event ''src_chain_id'') of
        Inl err \<Rightarrow> Inl (Wrapf ''TransferRedeemed invalid src_chain_id'' err)
      | Inr srcChainID \<Rightarrow>
          (case parseUint64 (event_data event ''sequence'') of
             Inl err \<Rightarrow> Inl (Wrapf ''TransferRedeemed invalid sequence'' err)
           | Inr sequence \<Rightarrow>
               Inr (correlation_result
                 (zero_message\<lparr>msg_Destination :=
                    Some (event_destination event (event_data event ''receiver''))\<rparr>)
                 \<lparr>ck_Protocol = re_Protocol event, ck_MessageID = [], ck_Nonce = sequence,
                  ck_Sender = sender, ck_SrcChainID = srcChainID\<rparr>)))"

definition normalizeCCIPSendRequested :: "int \<Rightarrow> raw_event \<Rightarrow> error + Result" where
  "normalizeCCIPSendRequested now event =
     (let msgID = event_data event ''message_id'' in
      if msgID = [] then Inl (Errorf ''CCIPSendRequested missing message_id'')
      else let sender = event_data event ''sender'' in
      if sender = [] then Inl (Errorf ''CCIPSendRequested missing sender'')
      else case parseUint64 (event_data event ''src_chain_id'') of
        Inl err \<Rightarrow> Inl (Wrapf ''CCIPSendRequested invalid src_chain_id'' err)
      | Inr srcChainID \<Rightarrow>
          (case parseUint64 (event_data event ''nonce'') of
             Inl err \<Rightarrow> Inl (Wrapf ''CCIPSendRequested invalid nonce'' err)
           | Inr nonce \<Rightarrow>
               let tc = event_data event ''token_count'';
                   msgType = (if tc \<noteq> [] \<and> tc \<noteq> ''0'' then TypeTokenTransfer else TypeMessage) in
               Inr (new_result (pending_message msgID (re_Protocol event) msgType
                 (event_source event srcChainID (re_TxHash event) sender)
                 \<lparr>pl_Token = event_data event ''token'', pl_Amount = event_data event ''amount'',
                  pl_Data = event_data event ''data'', pl_Nonce = nonce\<rparr>
                 (zero_metadata\<lparr>md_Fee := event_data event ''fee_token_amount''\<rparr>) now))))"

definition normalizeCCIPExecutionStateChanged :: "raw_event \<Rightarrow> error + Result" where
  "normalizeCCIPExecutionStateChanged event =
     (let msgID = event_data event ''message_id'' in
      if msgID = [] then Inl (Errorf ''ExecutionStateChanged missing message_id'')
      else let stateStr = event_data event ''state'' in
      if stateStr = [] then Inl (Errorf ''ExecutionStateChanged missing state'')
      else case parseUint64 stateStr of
        Inl err \<Rightarrow> Inl (Wrapf ''ExecutionStateChanged invalid state'' err)
      | Inr stateNum \<Rightarrow>
          let status = (if stateNum = 2 then Some StatusExecuted
                        else if stateNum = 3 then Some StatusFailed else None) in
          (case status of
             None \<Rightarrow> Inl (Errorf (''ExecutionStateChanged non-terminal state '' @ dec_word stateNum
                                  @ '', skipping''))
           | Some st \<Rightarrow>
               Inr (correlation_result
                 (zero_message\<lparr>msg_Status := st,
                    msg_Destination := Some (event_destination event [])\<rparr>)
                 \<lparr>ck_Protocol = re_Protocol event, ck_MessageID = msgID, ck_Nonce = 0, ck_Sender = [],
                  ck_SrcChainID = 0\<rparr>)))"

text \<open>\<open>None\<close> is the nil event.\<close>

definition Normalize :: "int \<Rightarrow> raw_event option \<Rightarrow> error + Result" where
  "Normalize now ev =
     (case ev of
        None \<Rightarrow> Inl (Errorf ''nil event'')
      | Some event \<Rightarrow>
          let ty = re_EventType event in
          if ty = ''PacketSent'' then normalizePacketSent now event
          else if ty = ''PacketReceived'' then normalizePacketReceived event
          else if ty = ''OFTSent'' then normalizeOFTSent now event
          else if ty = ''ContractCall'' then normalizeAxelarContractCall now event
          else if ty = ''ContractCallApproved'' then normalizeAxelarContractCallApproved now event
          else if ty = ''Executed'' then normalizeAxelarExecuted event
          else if ty = ''CCIPSendRequested'' then normalizeCCIPSendRequested now event
          else if ty = ''ExecutionStateChanged'' then normalizeCCIPExecutionStateChanged event
          else if ty = ''LogMessagePublished'' then normalizeLogMessagePublished now event
          else if ty = ''TransferRedeemed'' then normalizeTransferRedeemed event
          else Inl (Errorf (''unsupported event type: '' @ ty)))"

section \<open>Results\<close>

named_theorems norm_defs \<open>the event handlers\<close>

lemmas [norm_defs] = normalizePacketSent_def normalizePacketReceived_def normalizeOFTSent_def
  normalizeAxelarContractCall_def normalizeAxelarContractCallApproved_def
  normalizeAxelarExecuted_def normalizeLogMessagePublished_def normalizeTransferRedeemed_def
  normalizeCCIPSendRequested_def normalizeCCIPExecutionStateChanged_def

definition source_events :: "string list" where
  "source_events = [''PacketSent'', ''OFTSent'', ''ContractCall'', ''ContractCallApproved'',
     ''CCIPSendRequested'', ''LogMessagePublished'']"

definition destination_events :: "string list" where
  "destination_events = [''PacketReceived'', ''Executed'', ''ExecutionStateChanged'', ''TransferRedeemed'']"

text \<open>What a result of each kind looks like.\<close>

definition new_message_ok :: "int \<Rightarrow> raw_event \<Rightarrow> message \<Rightarrow> bool" where
  "new_message_ok now ev m \<longleftrightarrow>
     MessageID m \<noteq> [] \<and> msg_Protocol m = re_Protocol ev \<and> msg_Status m = StatusPending \<and>
     msg_Type m \<in> {TypeMessage, TypeTokenTransfer, TypeContractCall} \<and>
     src_BlockNumber (msg_Source m) = re_BlockNumber ev \<and>
     src_Timestamp (msg_Source m) = re_Timestamp ev \<and>
     src_LogIndex (msg_Source m) = re_LogIndex ev \<and>
     msg_Destination m = None \<and> msg_Payload m \<noteq> None \<and> msg_Metadata m \<noteq> None \<and>
     CreatedAt m = now \<and> UpdatedAt m = now"

definition correlation_ok :: "raw_event \<Rightarrow> message \<Rightarrow> CorrelationKey \<Rightarrow> bool" where
  "correlation_ok ev m k \<longleftrightarrow>
     ck_Protocol k = re_Protocol ev \<and> (ck_MessageID k \<noteq> [] \<or> ck_Sender k \<noteq> []) \<and>
     msg_Status m \<in> {[], StatusExecuted, StatusFailed} \<and>
     (\<exists>r. msg_Destination m = Some (event_destination ev r))"

definition new_result_ok :: "int \<Rightarrow> raw_event \<Rightarrow> Result \<Rightarrow> bool" where
  "new_result_ok now ev r \<longleftrightarrow>
     \<not> res_IsCorrelation r \<and> res_CorrelationKey r = None \<and> new_message_ok now ev (res_Message r)"

definition correlation_result_ok :: "raw_event \<Rightarrow> Result \<Rightarrow> bool" where
  "correlation_result_ok ev r \<longleftrightarrow>
     res_IsCorrelation r \<and>
     (\<exists>k. res_CorrelationKey r = Some k \<and> correlation_ok ev (res_Message r) k)"

lemmas result_ok_defs = new_result_ok_def correlation_result_ok_def new_result_def
  correlation_result_def new_message_ok_def correlation_ok_def pending_message_def event_source_def
  zero_message_def

lemma new_handler_ok:
  "normalizePacketSent now ev = Inr r \<Longrightarrow> new_result_ok now ev r"
  "normalizeOFTSent now ev = Inr r \<Longrightarrow> new_result_ok now ev r"
  "normalizeAxelarContractCall now ev = Inr r \<Longrightarrow> new_result_ok now ev r"
  "normalizeAxelarContractCallApproved now ev = Inr r \<Longrightarrow> new_result_ok now ev r"
  "normalizeCCIPSendRequested now ev = Inr r \<Longrightarrow> new_result_ok now ev r"
  "normalizeLogMessagePublished now ev = Inr r \<Longrightarrow> new_result_ok now ev r"
  by (auto simp: norm_defs Let_def result_ok_defs split: sum.splits if_splits)

lemma correlation_handler_ok:
  "normalizePacketReceived ev = Inr r \<Longrightarrow> correlation_result_ok ev r"
  "normalizeAxelarExecuted ev = Inr r \<Longrightarrow> correlation_result_ok ev r"
  "normalizeTransferRedeemed ev = Inr r \<Longrightarrow> correlation_result_ok ev r"
  "normalizeCCIPExecutionStateChanged ev = Inr r \<Longrightarrow> correlation_result_ok ev r"
  by (auto simp: norm_defs Let_def result_ok_defs split: sum.splits if_splits)

text \<open>The dispatch, one equation per event type.\<close>

lemma Normalize_simps:
  "re_EventType ev = ''PacketSent'' \<Longrightarrow> Normalize now (Some ev) = normalizePacketSent now ev"
  "re_EventType ev = ''PacketReceived'' \<Longrightarrow> Normalize now (Some ev) = normalizePacketReceived ev"
  "re_EventType ev = ''OFTSent'' \<Longrightarrow> Normalize now (Some ev) = normalizeOFTSent now ev"
  "re_EventType ev = ''ContractCall'' \<Longrightarrow> Normalize now (Some ev) = normalizeAxelarContractCall now ev"
  "re_EventType ev = ''ContractCallApproved'' \<Longrightarrow>
     Normalize now (Some ev) = normalizeAxelarContractCallApproved now ev"
  "re_EventType ev = ''Executed'' \<Longrightarrow> Normalize now (Some ev) = normalizeAxelarExecuted ev"
  "re_EventType ev = ''CCIPSendRequested'' \<Longrightarrow>
     Normalize now (Some ev) = normalizeCCIPSendRequested now ev"
  "re_EventType ev = ''ExecutionStateChanged'' \<Longrightarrow>
     Normalize now (Some ev) = normalizeCCIPExecutionStateChanged ev"
  "re_EventType ev = ''LogMessagePublished'' \<Longrightarrow>
     Normalize now (Some ev) = normalizeLogMessagePublished now ev"
  "re_EventType ev = ''TransferRedeemed'' \<Longrightarrow> Normalize now (Some ev) = normalizeTransferRedeemed ev"
  by (simp_all add: Normalize_def)

lemma Normalize_new:
  assumes "re_EventType ev \<in> set source_events" and "Normalize now (Some ev) = Inr r"
  shows "new_result_ok now ev r"
  using assms by (auto simp: source_events_def Normalize_simps intro: new_handler_ok)

lemma Normalize_correlation:
  assumes "re_EventType ev \<in> set destination_events" and "Normalize now (Some ev) = Inr r"
  shows "correlation_result_ok ev r"
  using assms by (auto simp: destination_events_def Normalize_simps intro: correlation_handler_ok)

lemma Normalize_supported:
  assumes "Normalize now (Some ev) = Inr r"
  shows "re_EventType ev \<in> set source_events \<union> set destination_events"
  using assms
  by (auto simp: Normalize_def Let_def source_events_def destination_events_def split: if_splits)

text \<open>
  What an event of each type must carry: the texts that may not be empty and the texts that must be
  numbers of 64 bits. An execution event must also report a final state.
\<close>

definition event_fields :: "(string \<times> string list \<times> string list) list" where
  "event_fields =
     [(''PacketSent'', [''guid''], [''nonce'']),
      (''PacketReceived'', [''sender''], [''nonce'', ''src_chain_id'']),
      (''OFTSent'', [''guid''], []),
      (''ContractCall'', [''payload_hash'', ''sender''], []),
      (''ContractCallApproved'', [''command_id''], []),
      (''Executed'', [''command_id''], []),
      (''CCIPSendRequested'', [''message_id'', ''sender''], [''src_chain_id'', ''nonce'']),
      (''ExecutionStateChanged'', [''message_id''], [''state'']),
      (''LogMessagePublished'', [''message_id''], []),
      (''TransferRedeemed'', [''message_id'', ''sender''], [''src_chain_id'', ''sequence''])]"

definition complete_event :: "raw_event \<Rightarrow> bool" where
  "complete_event ev =
     (case map_of event_fields (re_EventType ev) of
        None \<Rightarrow> False
      | Some (texts, numbers) \<Rightarrow>
          list_all (\<lambda>k. event_data ev k \<noteq> []) texts \<and> list_all (\<lambda>k. is_ok (parseUint64 (event_data ev k))) numbers \<and>
          (re_EventType ev \<noteq> ''ExecutionStateChanged'' \<or>
           parseUint64 (event_data ev ''state'') \<in> {Inr 2, Inr 3}))"

lemma complete_event_type:
  "complete_event ev \<Longrightarrow> re_EventType ev \<in> set source_events \<union> set destination_events"
  by (auto simp: complete_event_def event_fields_def source_events_def destination_events_def
      split: if_splits option.splits)

abbreviation carries :: "raw_event \<Rightarrow> string list \<Rightarrow> string list \<Rightarrow> bool" where
  "carries ev texts numbers \<equiv>
     list_all (\<lambda>k. event_data ev k \<noteq> []) texts \<and> list_all (\<lambda>k. is_ok (parseUint64 (event_data ev k))) numbers"

lemma handler_complete:
  "is_ok (normalizePacketSent now ev) = carries ev [''guid''] [''nonce'']"
  "is_ok (normalizePacketReceived ev) = carries ev [''sender''] [''nonce'', ''src_chain_id'']"
  "is_ok (normalizeOFTSent now ev) = carries ev [''guid''] []"
  "is_ok (normalizeAxelarContractCall now ev) = carries ev [''payload_hash'', ''sender''] []"
  "is_ok (normalizeAxelarContractCallApproved now ev) = carries ev [''command_id''] []"
  "is_ok (normalizeAxelarExecuted ev) = carries ev [''command_id''] []"
  "is_ok (normalizeCCIPSendRequested now ev) = carries ev [''message_id'', ''sender''] [''src_chain_id'', ''nonce'']"
  "is_ok (normalizeLogMessagePublished now ev) = carries ev [''message_id''] []"
  "is_ok (normalizeTransferRedeemed ev) = carries ev [''message_id'', ''sender''] [''src_chain_id'', ''sequence'']"
  by (auto simp: norm_defs Let_def is_ok_iff split: sum.splits)

lemma state_complete:
  "is_ok (normalizeCCIPExecutionStateChanged ev) =
     (carries ev [''message_id''] [''state''] \<and> parseUint64 (event_data ev ''state'') \<in> {Inr 2, Inr 3})"
  by (auto simp: normalizeCCIPExecutionStateChanged_def Let_def is_ok_def parseUint64_def split: sum.splits)

lemma Normalize_complete_handler:
  assumes "re_EventType ev \<in> set source_events \<union> set destination_events"
  shows "is_ok (Normalize now (Some ev)) = complete_event ev"
proof -
  have "\<exists>texts numbers. map_of event_fields (re_EventType ev) = Some (texts, numbers) \<and>
     is_ok (Normalize now (Some ev)) = (carries ev texts numbers \<and>
       (re_EventType ev \<noteq> ''ExecutionStateChanged'' \<or> parseUint64 (event_data ev ''state'') \<in> {Inr 2, Inr 3}))"
    using assms unfolding source_events_def destination_events_def
    by (elim UnE; simp only: list.set insert_iff empty_iff; elim disjE FalseE)
       (simp_all only: Normalize_simps handler_complete state_complete event_fields_def map_of.simps fst_conv
          snd_conv, simp_all)
  then show ?thesis by (auto simp: complete_event_def)
qed

lemma Normalize_complete: "is_ok (Normalize now (Some ev)) = complete_event ev"
proof (cases "re_EventType ev \<in> set source_events \<union> set destination_events")
  case False
  with complete_event_type Normalize_supported [of now ev] show ?thesis by (auto simp: is_ok_iff)
qed (rule Normalize_complete_handler)

text \<open>
  C13: what is normalized, and to what. Exactly the events of the ten known types that carry what
  their type needs are. A normalized source event is a new pending message of the event's protocol
  and coordinates, with a non-empty id, one of the three types, a payload and metadata, and no
  destination; a normalized destination event is a correlation whose key is usable (a message id or
  a sender), whose message has the event's coordinates as destination and a status that is unset,
  executed or failed.
\<close>

theorem normalize_results:
  "case Normalize now (Some ev) of
     Inl _ \<Rightarrow> \<not> complete_event ev
   | Inr r \<Rightarrow> complete_event ev \<and>
       (if res_IsCorrelation r
        then re_EventType ev \<in> set destination_events \<and>
             (\<exists>k. res_CorrelationKey r = Some k \<and> correlation_ok ev (res_Message r) k)
        else re_EventType ev \<in> set source_events \<and> res_CorrelationKey r = None \<and>
             new_message_ok now ev (res_Message r))"
proof (cases "Normalize now (Some ev)")
  case (Inl e)
  with Normalize_complete [of now ev] show ?thesis by (simp add: is_ok_def)
next
  case (Inr r)
  with Normalize_complete [of now ev] have c: "complete_event ev" by (simp add: is_ok_def)
  from Normalize_supported [OF Inr] consider
    "re_EventType ev \<in> set source_events" | "re_EventType ev \<in> set destination_events" by blast
  then show ?thesis
  proof cases
    case 1
    with Normalize_new [OF _ Inr] Inr c show ?thesis by (simp add: new_result_ok_def)
  next
    case 2
    with Normalize_correlation [OF _ Inr] Inr c show ?thesis by (simp add: correlation_result_ok_def)
  qed
qed

text \<open>
  CCIP outcomes: an execution event with a message id and execution state \<open>n\<close> is a
  correlation by that id: state 2 completes the message as executed, state 3 as failed, and every
  other state is an error, so it never reaches the store.
\<close>

lemma normalize_ccip_state:
  assumes "re_EventType ev = ''ExecutionStateChanged''"
    and "event_data ev ''message_id'' = mid" and "mid \<noteq> []"
    and "event_data ev ''state'' = dec_word (n :: u64)"
  shows "case Normalize now (Some ev) of
      Inr r \<Rightarrow> res_IsCorrelation r \<and>
        (\<exists>k. res_CorrelationKey r = Some k \<and> ck_MessageID k = mid) \<and>
        (n = 2 \<and> msg_Status (res_Message r) = StatusExecuted \<or>
         n = 3 \<and> msg_Status (res_Message r) = StatusFailed)
    | Inl _ \<Rightarrow> n \<noteq> 2 \<and> n \<noteq> 3"
  using assms
  by (simp add: Normalize_def normalizeCCIPExecutionStateChanged_def Let_def correlation_result_def)

definition demo_event :: "string \<Rightarrow> string \<Rightarrow> data \<Rightarrow> raw_event" where
  "demo_event proto ty d = \<lparr>re_Protocol = proto, re_ChainID = 1, re_BlockNumber = 10, re_TxHash = ''0xaa'',
     re_LogIndex = 0, re_Timestamp = 1000, re_EventType = ty, re_Data = d\<rparr>"

end
