(* ===== verification/MessageStore.thy ===== *)
theory MessageStore
  imports Postgres Normalizer
begin

text \<open>
  The message store, \<open>internal/indexer/message_store.go\<close> and \<open>message_store_pg.go\<close>: the interface
  as a record of its methods, its PostgreSQL implementation statement by statement, and what
  each operation does to the tables.
\<close>

section \<open>The interface\<close>

record 's MessageStore =
  ms_UpsertMessage :: "message \<Rightarrow> 's \<Rightarrow> 's \<times> error option"
  ms_FindByCorrelationKey :: "CorrelationKey \<Rightarrow> 's \<Rightarrow> 's \<times> (error + message option)"
  ms_UpdateDestination :: "string \<Rightarrow> destination \<Rightarrow> string \<Rightarrow> 's \<Rightarrow> 's \<times> error option"

section \<open>UpsertMessage\<close>

text \<open>SQL's \<open>NULLIF(x, '')\<close> and \<open>COALESCE\<close>.\<close>

definition nullif_empty :: "string option \<Rightarrow> string option" where
  "nullif_empty x = (if x = Some [] then None else x)"

definition coalesce :: "'a option \<Rightarrow> 'a option \<Rightarrow> 'a option" where
  "coalesce x y = (case x of None \<Rightarrow> y | Some v \<Rightarrow> Some v)"

lemma coalesce_simps [simp]: "coalesce None y = y" "coalesce (Some v) y = Some v"
  by (simp_all add: coalesce_def)

definition upsert_message_row :: "message \<Rightarrow> stmt" where
  "upsert_message_row msg t =
     (let mid = MessageID msg in
      if msg_Type msg \<notin> message_types \<or> msg_Status msg \<notin> message_statuses then Inl CheckViolation
      else case t_messages t mid of
        None \<Rightarrow>
          Inr (t\<lparr>t_ids := t_ids t @ [mid],
                 t_messages := (t_messages t)(mid \<mapsto>
                   \<lparr>mr_protocol = msg_Protocol msg, mr_type = msg_Type msg, mr_status = msg_Status msg,
                    mr_created = CreatedAt msg, mr_updated = UpdatedAt msg\<rparr>)\<rparr>)
      | Some row \<Rightarrow>
          Inr (t\<lparr>t_messages := (t_messages t)(mid \<mapsto>
                   row\<lparr>mr_type := (if msg_Type msg \<noteq> ''message'' then msg_Type msg else mr_type row),
                       mr_updated := UpdatedAt msg\<rparr>)\<rparr>))"

definition upsert_source_row :: "message \<Rightarrow> stmt" where
  "upsert_source_row msg t =
     (let mid = MessageID msg in
      if t_messages t mid = None then Inl FKViolation
      else case t_sources t mid of
        None \<Rightarrow> Inr (t\<lparr>t_sources := (t_sources t)(mid \<mapsto> msg_Source msg)\<rparr>)
      | Some _ \<Rightarrow> Inr t)"

definition upsert_payload_row :: "string \<Rightarrow> payload \<Rightarrow> stmt" where
  "upsert_payload_row mid p t =
     (if t_messages t mid = None then Inl FKViolation
      else case t_payloads t mid of
        None \<Rightarrow>
          Inr (t\<lparr>t_payloads := (t_payloads t)(mid \<mapsto>
                 \<lparr>pr_token = Some (pl_Token p), pr_amount = Some (pl_Amount p),
                  pr_data = Some (pl_Data p), pr_nonce = Some (pl_Nonce p)\<rparr>)\<rparr>)
      | Some row \<Rightarrow>
          Inr (t\<lparr>t_payloads := (t_payloads t)(mid \<mapsto>
                 row\<lparr>pr_token := coalesce (nullif_empty (Some (pl_Token p))) (pr_token row),
                     pr_amount := coalesce (nullif_empty (Some (pl_Amount p))) (pr_amount row),
                     pr_data := coalesce (nullif_empty (Some (pl_Data p))) (pr_data row)\<rparr>)\<rparr>))"

definition upsert_metadata_row :: "string \<Rightarrow> metadata \<Rightarrow> stmt" where
  "upsert_metadata_row mid md t =
     (if t_messages t mid = None then Inl FKViolation
      else case t_metadata t mid of
        None \<Rightarrow>
          Inr (t\<lparr>t_metadata := (t_metadata t)(mid \<mapsto>
                 \<lparr>mt_fee = Some (md_Fee md), mt_relayer = Some (md_Relayer md),
                  mt_gas_used = Some (md_GasUsed md), mt_latency = Some (md_LatencySeconds md)\<rparr>)\<rparr>)
      | Some _ \<Rightarrow> Inr t)"

definition upsert_stmts :: "message \<Rightarrow> (string \<times> stmt) list" where
  "upsert_stmts msg =
     [(''upserting message'', upsert_message_row msg),
      (''upserting message source'', upsert_source_row msg)]
     @ (case msg_Payload msg of None \<Rightarrow> []
        | Some p \<Rightarrow> [(''upserting message payload'', upsert_payload_row (MessageID msg) p)])
     @ (case msg_Metadata msg of None \<Rightarrow> []
        | Some md \<Rightarrow> [(''upserting message metadata'', upsert_metadata_row (MessageID msg) md)])"

definition UpsertMessage :: "message \<Rightarrow> pg \<Rightarrow> pg \<times> error option" where
  "UpsertMessage msg s = in_tx (upsert_stmts msg) s"

section \<open>FindByCorrelationKey\<close>

text \<open>
  The WHERE clause on the row of the join with this message id; a comparison with NULL is not
  true. With \<open>LIMIT 1\<close> and no \<open>ORDER BY\<close> the first match in the planner's order is returned.
\<close>

definition key_matches :: "tables \<Rightarrow> CorrelationKey \<Rightarrow> string \<Rightarrow> bool" where
  "key_matches t key mid =
     (case (t_messages t mid, t_sources t mid, t_payloads t mid) of
        (Some m, Some s, Some p) \<Rightarrow>
          mr_protocol m = ck_Protocol key \<and> mr_status m = StatusPending \<and>
          (if ck_MessageID key \<noteq> [] then mid = ck_MessageID key
           else pr_nonce p = Some (ck_Nonce key) \<and> src_Sender s = ck_Sender key \<and>
                src_ChainID s = ck_SrcChainID key)
      | _ \<Rightarrow> False)"

definition str_or_empty :: "string option \<Rightarrow> string" where
  "str_or_empty x = (case x of None \<Rightarrow> [] | Some s \<Rightarrow> s)"

text \<open>\<open>row.Scan\<close> into a \<open>uint64\<close> fails on a NULL nonce; the other nullable columns are pointers.\<close>

definition scan_message :: "tables \<Rightarrow> string \<Rightarrow> error + message option" where
  "scan_message t mid =
     (case (t_messages t mid, t_sources t mid, t_payloads t mid) of
        (Some m, Some s, Some p) \<Rightarrow>
          (case pr_nonce p of
             None \<Rightarrow> Inl (Wrapf ''querying by correlation key'' (Errorf ''cannot scan NULL into *uint64''))
           | Some n \<Rightarrow>
               Inr (Some (zero_message\<lparr>MessageID := mid, msg_Protocol := mr_protocol m,
                 msg_Type := mr_type m, msg_Status := mr_status m, msg_Source := s,
                 msg_Payload := Some \<lparr>pl_Token = str_or_empty (pr_token p),
                    pl_Amount = str_or_empty (pr_amount p), pl_Data = str_or_empty (pr_data p),
                    pl_Nonce = n\<rparr>,
                 CreatedAt := mr_created m, UpdatedAt := mr_updated m\<rparr>)))
      | _ \<Rightarrow> Inr None)"

definition find_row :: "(string list \<Rightarrow> string list) \<Rightarrow> CorrelationKey \<Rightarrow> tables \<Rightarrow> string option" where
  "find_row plan key t = find (key_matches t key) (plan (t_ids t))"

definition FindByCorrelationKey :: "CorrelationKey \<Rightarrow> pg \<Rightarrow> pg \<times> (error + message option)" where
  "FindByCorrelationKey key s =
     (case query_one (\<lambda>t. Inr (find_row (pg_plan s) key t)) s of
        (s', Inl e) \<Rightarrow> (s', Inl (Wrapf ''querying by correlation key'' e))
      | (s', Inr None) \<Rightarrow> (s', Inr None)
      | (s', Inr (Some mid)) \<Rightarrow> (s', scan_message (pg_tables s) mid))"

section \<open>UpdateDestination\<close>

definition upsert_destination_row :: "string \<Rightarrow> destination \<Rightarrow> stmt" where
  "upsert_destination_row mid d t =
     (if t_messages t mid = None then Inl FKViolation
      else Inr (t\<lparr>t_destinations := (t_destinations t)(mid \<mapsto> d)\<rparr>))"

definition update_status_row :: "string \<Rightarrow> string \<Rightarrow> int \<Rightarrow> stmt" where
  "update_status_row mid status now t =
     (case t_messages t mid of
        None \<Rightarrow> Inr t
      | Some row \<Rightarrow>
          if status \<notin> message_statuses then Inl CheckViolation
          else Inr (t\<lparr>t_messages := (t_messages t)(mid \<mapsto>
                       row\<lparr>mr_status := status, mr_updated := now\<rparr>)\<rparr>))"

definition update_latency_row :: "string \<Rightarrow> int \<Rightarrow> stmt" where
  "update_latency_row mid ts t =
     (case (t_metadata t mid, t_sources t mid) of
        (Some md, Some src) \<Rightarrow>
          if src_Timestamp src > 0
          then Inr (t\<lparr>t_metadata := (t_metadata t)(mid \<mapsto>
                      md\<lparr>mt_latency := Some (ts - src_Timestamp src)\<rparr>)\<rparr>)
          else Inr t
      | _ \<Rightarrow> Inr t)"

definition destination_stmts :: "string \<Rightarrow> destination \<Rightarrow> string \<Rightarrow> int \<Rightarrow> (string \<times> stmt) list" where
  "destination_stmts mid d status now =
     [(''upserting destination'', upsert_destination_row mid d),
      (''updating message status'', update_status_row mid status now)]
     @ (if dst_Timestamp d > 0
        then [(''updating latency'', update_latency_row mid (dst_Timestamp d))] else [])"

definition UpdateDestination :: "string \<Rightarrow> destination \<Rightarrow> string \<Rightarrow> pg \<Rightarrow> pg \<times> error option" where
  "UpdateDestination mid d status s = in_tx (destination_stmts mid d status (pg_now s)) s"

definition PostgresMessageStore :: "pg MessageStore" where
  "PostgresMessageStore =
     \<lparr>ms_UpsertMessage = UpsertMessage, ms_FindByCorrelationKey = FindByCorrelationKey,
      ms_UpdateDestination = UpdateDestination\<rparr>"

section \<open>Effects on the tables\<close>

lemmas upsert_row_defs = upsert_message_row_def upsert_source_row_def upsert_payload_row_def
  upsert_metadata_row_def

lemmas destination_row_defs = upsert_destination_row_def update_status_row_def update_latency_row_def

lemma upsert_stmts_cases:
  assumes "(c, f) \<in> set (upsert_stmts msg)"
  obtains "f = upsert_message_row msg" | "f = upsert_source_row msg"
    | p where "f = upsert_payload_row (MessageID msg) p"
    | md where "f = upsert_metadata_row (MessageID msg) md"
  using assms by (auto simp: upsert_stmts_def split: option.splits)

lemma destination_stmts_cases:
  assumes "(c, f) \<in> set (destination_stmts mid d st now)"
  obtains "f = upsert_destination_row mid d" | "f = update_status_row mid st now"
    | "f = update_latency_row mid (dst_Timestamp d)"
  using assms by (auto simp: destination_stmts_def split: if_splits)

text \<open>Every statement keeps the schema's constraints.\<close>

lemma upsert_message_row_schema:
  assumes "schema_ok t" and "upsert_message_row msg t = Inr t'"
  shows "schema_ok t'"
  unfolding schema_ok_def
proof (intro conjI allI)
  have r: "row_schema t m" for m using assms(1) by (simp add: schema_ok_def)
  have d: "distinct (t_ids t)" using assms(1) by (simp add: schema_ok_def)
  show "distinct (t_ids t')"
    using assms(2) d r [of "MessageID msg"]
    by (auto simp: upsert_message_row_def row_schema_def Let_def split: if_splits option.splits)
  fix mid
  show "row_schema t' mid"
    using assms(2) r [of mid]
    by (auto simp: upsert_message_row_def row_schema_def Let_def split: if_splits option.splits)
qed

lemma row_schema_stmt:
  "row_schema t m \<Longrightarrow> update_status_row mid st now t = Inr t' \<Longrightarrow> row_schema t' m"
  "row_schema t m \<Longrightarrow> upsert_source_row msg t = Inr t' \<Longrightarrow> row_schema t' m"
  "row_schema t m \<Longrightarrow> upsert_payload_row mid p t = Inr t' \<Longrightarrow> row_schema t' m"
  "row_schema t m \<Longrightarrow> upsert_metadata_row mid md t = Inr t' \<Longrightarrow> row_schema t' m"
  "row_schema t m \<Longrightarrow> upsert_destination_row mid d t = Inr t' \<Longrightarrow> row_schema t' m"
  "row_schema t m \<Longrightarrow> update_latency_row mid ts t = Inr t' \<Longrightarrow> row_schema t' m"
  by (auto simp: upsert_row_defs destination_row_defs row_schema_def Let_def
      split: if_splits option.splits)

lemma ids_stmt:
  "update_status_row mid st now t = Inr t' \<Longrightarrow> t_ids t' = t_ids t"
  "upsert_source_row msg t = Inr t' \<Longrightarrow> t_ids t' = t_ids t"
  "upsert_payload_row mid p t = Inr t' \<Longrightarrow> t_ids t' = t_ids t"
  "upsert_metadata_row mid md t = Inr t' \<Longrightarrow> t_ids t' = t_ids t"
  "upsert_destination_row mid d t = Inr t' \<Longrightarrow> t_ids t' = t_ids t"
  "update_latency_row mid ts t = Inr t' \<Longrightarrow> t_ids t' = t_ids t"
  by (auto simp: upsert_row_defs destination_row_defs Let_def split: if_splits option.splits)

lemma other_rows_schema:
  "schema_ok t \<Longrightarrow> update_status_row mid st now t = Inr t' \<Longrightarrow> schema_ok t'"
  "schema_ok t \<Longrightarrow> upsert_source_row msg t = Inr t' \<Longrightarrow> schema_ok t'"
  "schema_ok t \<Longrightarrow> upsert_payload_row mid p t = Inr t' \<Longrightarrow> schema_ok t'"
  "schema_ok t \<Longrightarrow> upsert_metadata_row mid md t = Inr t' \<Longrightarrow> schema_ok t'"
  "schema_ok t \<Longrightarrow> upsert_destination_row mid d t = Inr t' \<Longrightarrow> schema_ok t'"
  "schema_ok t \<Longrightarrow> update_latency_row mid ts t = Inr t' \<Longrightarrow> schema_ok t'"
  by (simp_all add: schema_ok_def ids_stmt) (blast intro: row_schema_stmt)+

lemma UpsertMessage_schema:
  assumes "schema_ok (pg_tables s)" and "UpsertMessage msg s = (s', r)"
  shows "schema_ok (pg_tables s')"
  using _ assms(1) assms(2) [unfolded UpsertMessage_def]
  by (rule in_tx_invariant)
     (auto elim!: upsert_stmts_cases intro: upsert_message_row_schema other_rows_schema)

lemma UpdateDestination_schema:
  assumes "schema_ok (pg_tables s)" and "UpdateDestination mid d st s = (s', r)"
  shows "schema_ok (pg_tables s')"
  using _ assms(1) assms(2) [unfolded UpdateDestination_def]
  by (rule in_tx_invariant)
     (auto elim!: destination_stmts_cases intro: other_rows_schema)

section \<open>Specification and refinement\<close>

text \<open>
  What the two writing operations promise, without statements: the rows of one message id after
  the operation as functions of the rows before.
\<close>

definition upserted_message :: "message \<Rightarrow> message_row option \<Rightarrow> message_row" where
  "upserted_message msg old =
     (case old of
        None \<Rightarrow> \<lparr>mr_protocol = msg_Protocol msg, mr_type = msg_Type msg, mr_status = msg_Status msg,
                 mr_created = CreatedAt msg, mr_updated = UpdatedAt msg\<rparr>
      | Some row \<Rightarrow> row\<lparr>mr_type := (if msg_Type msg \<noteq> ''message'' then msg_Type msg else mr_type row),
                        mr_updated := UpdatedAt msg\<rparr>)"

definition keep_first :: "'a \<Rightarrow> 'a option \<Rightarrow> 'a" where
  "keep_first new old = (case old of None \<Rightarrow> new | Some x \<Rightarrow> x)"

definition fill_text :: "string \<Rightarrow> string option \<Rightarrow> string option" where
  "fill_text new old = (if new = [] then old else Some new)"

definition upserted_payload :: "payload \<Rightarrow> payload_row option \<Rightarrow> payload_row" where
  "upserted_payload p old =
     (case old of
        None \<Rightarrow> \<lparr>pr_token = Some (pl_Token p), pr_amount = Some (pl_Amount p), pr_data = Some (pl_Data p),
                 pr_nonce = Some (pl_Nonce p)\<rparr>
      | Some row \<Rightarrow> row\<lparr>pr_token := fill_text (pl_Token p) (pr_token row),
                        pr_amount := fill_text (pl_Amount p) (pr_amount row),
                        pr_data := fill_text (pl_Data p) (pr_data row)\<rparr>)"

definition metadata_row_of :: "metadata \<Rightarrow> metadata_row" where
  "metadata_row_of md = \<lparr>mt_fee = Some (md_Fee md), mt_relayer = Some (md_Relayer md),
     mt_gas_used = Some (md_GasUsed md), mt_latency = Some (md_LatencySeconds md)\<rparr>"

definition upsert_spec :: "message \<Rightarrow> tables \<Rightarrow> tables" where
  "upsert_spec msg t =
     (let mid = MessageID msg in
      t\<lparr>t_ids := (if t_messages t mid = None then t_ids t @ [mid] else t_ids t),
        t_messages := (t_messages t)(mid \<mapsto> upserted_message msg (t_messages t mid)),
        t_sources := (t_sources t)(mid \<mapsto> keep_first (msg_Source msg) (t_sources t mid)),
        t_payloads := (case msg_Payload msg of None \<Rightarrow> t_payloads t
           | Some p \<Rightarrow> (t_payloads t)(mid \<mapsto> upserted_payload p (t_payloads t mid))),
        t_metadata := (case msg_Metadata msg of None \<Rightarrow> t_metadata t
           | Some md \<Rightarrow> (t_metadata t)(mid \<mapsto> keep_first (metadata_row_of md) (t_metadata t mid)))\<rparr>)"

definition latency_spec :: "int \<Rightarrow> source option \<Rightarrow> metadata_row \<Rightarrow> metadata_row" where
  "latency_spec ts src md =
     (case src of
        None \<Rightarrow> md
      | Some sr \<Rightarrow> if ts > 0 \<and> src_Timestamp sr > 0
                   then md\<lparr>mt_latency := Some (ts - src_Timestamp sr)\<rparr> else md)"

definition destination_spec :: "string \<Rightarrow> destination \<Rightarrow> string \<Rightarrow> int \<Rightarrow> tables \<Rightarrow> tables" where
  "destination_spec mid d status now t =
     t\<lparr>t_destinations := (t_destinations t)(mid \<mapsto> d),
       t_messages := (t_messages t)(mid :=
          map_option (\<lambda>row. row\<lparr>mr_status := status, mr_updated := now\<rparr>) (t_messages t mid)),
       t_metadata := (t_metadata t)(mid :=
          map_option (latency_spec (dst_Timestamp d) (t_sources t mid)) (t_metadata t mid))\<rparr>"

definition storable :: "message \<Rightarrow> bool" where
  "storable msg \<longleftrightarrow> msg_Type msg \<in> message_types \<and> msg_Status msg \<in> message_statuses"

lemma coalesce_nullif [simp]: "coalesce (nullif_empty (Some x)) y = fill_text x y"
  by (simp add: nullif_empty_def fill_text_def)

lemma upsert_rows:
  "storable msg \<Longrightarrow> upsert_message_row msg t =
     Inr (t\<lparr>t_ids := (if t_messages t (MessageID msg) = None then t_ids t @ [MessageID msg] else t_ids t),
            t_messages := (t_messages t)(MessageID msg \<mapsto>
               upserted_message msg (t_messages t (MessageID msg)))\<rparr>)"
  "t_messages t (MessageID msg) \<noteq> None \<Longrightarrow> upsert_source_row msg t =
     Inr (t\<lparr>t_sources := (t_sources t)(MessageID msg \<mapsto>
               keep_first (msg_Source msg) (t_sources t (MessageID msg)))\<rparr>)"
  "t_messages t mid \<noteq> None \<Longrightarrow> upsert_payload_row mid p t =
     Inr (t\<lparr>t_payloads := (t_payloads t)(mid \<mapsto> upserted_payload p (t_payloads t mid))\<rparr>)"
  "t_messages t mid \<noteq> None \<Longrightarrow> upsert_metadata_row mid md t =
     Inr (t\<lparr>t_metadata := (t_metadata t)(mid \<mapsto> keep_first (metadata_row_of md) (t_metadata t mid))\<rparr>)"
  by (auto simp: upsert_row_defs storable_def Let_def upserted_message_def upserted_payload_def
      keep_first_def metadata_row_of_def fun_upd_idem split: option.splits)

lemma apply_upsert:
  "apply_stmts (upsert_stmts msg) t =
     (if storable msg then Inr (upsert_spec msg t) else Inl (Wrapf ''upserting message'' CheckViolation))"
proof (cases "storable msg")
  case False
  then show ?thesis by (simp add: upsert_stmts_def upsert_message_row_def storable_def Let_def)
next
  case True
  then show ?thesis
    by (simp add: upsert_stmts_def upsert_rows upsert_spec_def Let_def split: option.splits)
qed

lemma update_latency_spec:
  "dst_Timestamp d > 0 \<Longrightarrow> update_latency_row mid (dst_Timestamp d) t =
     Inr (t\<lparr>t_metadata := (t_metadata t)(mid :=
        map_option (latency_spec (dst_Timestamp d) (t_sources t mid)) (t_metadata t mid))\<rparr>)"
  by (auto simp: update_latency_row_def latency_spec_def fun_upd_idem split: option.splits)

lemma latency_spec_skip: "\<not> dst_Timestamp d > 0 \<Longrightarrow> latency_spec (dst_Timestamp d) src md = md"
  by (auto simp: latency_spec_def split: option.splits)

lemma map_latency_skip:
  "\<not> dst_Timestamp d > 0 \<Longrightarrow> map_option (latency_spec (dst_Timestamp d) src) x = x"
  by (cases x) (simp_all add: latency_spec_skip)

lemma apply_destination:
  assumes "status \<in> message_statuses"
  shows "apply_stmts (destination_stmts mid d status now) t =
     (if t_messages t mid = None then Inl (Wrapf ''upserting destination'' FKViolation)
      else Inr (destination_spec mid d status now t))"
proof (cases "t_messages t mid")
  case None
  then show ?thesis by (simp add: destination_stmts_def upsert_destination_row_def)
next
  case (Some row)
  show ?thesis
  proof (cases "dst_Timestamp d > 0")
    case True
    with Some assms show ?thesis
      by (simp add: destination_stmts_def upsert_destination_row_def update_status_row_def
          update_latency_spec destination_spec_def)
  next
    case False
    with Some assms show ?thesis
      by (simp add: destination_stmts_def upsert_destination_row_def update_status_row_def
          destination_spec_def map_latency_skip fun_upd_idem)
  qed
qed

text \<open>
  C4: the message store implements its contract, atomically. Whatever statements fail on the way,
  \<open>UpsertMessage\<close> and \<open>UpdateDestination\<close> either report an error and leave every table as it was,
  or report none and have exactly the effect of their specification; and without failures they
  succeed whenever the message is storable, respectively exists.
\<close>

theorem store_refines:
  assumes "status \<in> message_statuses"
  shows "(case UpsertMessage msg s of
      (s', Some _) \<Rightarrow> pg_tables s' = pg_tables s
    | (s', None) \<Rightarrow> storable msg \<and> pg_tables s' = upsert_spec msg (pg_tables s)) \<and>
   (case UpdateDestination mid d status s of
      (s', Some _) \<Rightarrow> pg_tables s' = pg_tables s
    | (s', None) \<Rightarrow> t_messages (pg_tables s) mid \<noteq> None \<and>
        pg_tables s' = destination_spec mid d status (pg_now s) (pg_tables s)) \<and>
   (pg_faults s = [] \<longrightarrow>
      (snd (UpsertMessage msg s) = None \<longleftrightarrow> storable msg) \<and>
      (snd (UpdateDestination mid d status s) = None \<longleftrightarrow> t_messages (pg_tables s) mid \<noteq> None))"
proof (intro conjI impI)
  show "case UpsertMessage msg s of
      (s', Some _) \<Rightarrow> pg_tables s' = pg_tables s
    | (s', None) \<Rightarrow> storable msg \<and> pg_tables s' = upsert_spec msg (pg_tables s)"
    using in_tx_atomic [of "upsert_stmts msg" s]
    by (auto simp: UpsertMessage_def apply_upsert split: prod.splits option.splits if_splits)
  show "case UpdateDestination mid d status s of
      (s', Some _) \<Rightarrow> pg_tables s' = pg_tables s
    | (s', None) \<Rightarrow> t_messages (pg_tables s) mid \<noteq> None \<and>
        pg_tables s' = destination_spec mid d status (pg_now s) (pg_tables s)"
    using in_tx_atomic [of "destination_stmts mid d status (pg_now s)" s]
    by (auto simp: UpdateDestination_def apply_destination [OF assms]
        split: prod.splits option.splits if_splits)
next
  assume "pg_faults s = []"
  then show "snd (UpsertMessage msg s) = None \<longleftrightarrow> storable msg"
    by (simp add: UpsertMessage_def in_tx_fault_free apply_upsert)
next
  assume "pg_faults s = []"
  then show "snd (UpdateDestination mid d status s) = None \<longleftrightarrow> t_messages (pg_tables s) mid \<noteq> None"
    by (simp add: UpdateDestination_def in_tx_fault_free apply_destination [OF assms])
qed


text \<open>A small database for the witnesses: one pending message, with all its rows.\<close>

definition demo_source :: source where
  "demo_source = \<lparr>src_ChainID = 1, src_TxHash = ''0xaa'', src_BlockNumber = 10, src_Timestamp = 1000,
     src_Sender = ''0x01'', src_LogIndex = 0\<rparr>"

definition demo_message :: message where
  "demo_message = \<lparr>MessageID = ''m1'', msg_Protocol = ''layerzero_v2'', msg_Type = TypeMessage,
     msg_Status = StatusPending, msg_Source = demo_source, msg_Destination = None,
     msg_Payload = Some (zero_payload\<lparr>pl_Nonce := 7\<rparr>), msg_Metadata = Some zero_metadata,
     CreatedAt = 5, UpdatedAt = 5\<rparr>"

definition demo_destination :: destination where
  "demo_destination = \<lparr>dst_ChainID = 10, dst_TxHash = ''0xbb'', dst_BlockNumber = 20,
     dst_Timestamp = 1060, dst_Receiver = ''0x02'', dst_LogIndex = 3\<rparr>"

definition empty_pg :: pg where
  "empty_pg = \<lparr>pg_tables = empty_tables, pg_faults = [], pg_now = 9, pg_plan = (\<lambda>xs. xs)\<rparr>"

definition demo_pg :: pg where
  "demo_pg = empty_pg\<lparr>pg_tables := upsert_spec demo_message empty_tables\<rparr>"

lemma demo_storable [simp]: "storable demo_message"
  by (simp add: storable_def demo_message_def message_types_def message_statuses_def)

lemma plan_ok_empty [simp]: "plan_ok empty_pg" "plan_ok demo_pg"
  by (simp_all add: plan_ok_def empty_pg_def demo_pg_def)

lemma demo_pg_simps [simp]:
  "pg_faults empty_pg = []" "pg_faults demo_pg = []" "pg_tables empty_pg = empty_tables"
  "pg_tables demo_pg = upsert_spec demo_message empty_tables" "pg_now demo_pg = 9"
  by (simp_all add: empty_pg_def demo_pg_def)

lemma demo_upsert: "UpsertMessage demo_message empty_pg = (demo_pg, None)"
  by (simp add: UpsertMessage_def in_tx_fault_free apply_upsert demo_pg_def)

lemma schema_demo [simp]: "schema_ok (upsert_spec demo_message empty_tables)"
  using UpsertMessage_schema [OF _ demo_upsert] by simp

theorem store_refines_witness:
  "(case UpdateDestination ''m1'' demo_destination ''executed'' demo_pg of
      (s', Some _) \<Rightarrow> False
    | (s', None) \<Rightarrow> pg_tables s' =
        destination_spec ''m1'' demo_destination ''executed'' 9 (pg_tables demo_pg))"
proof -
  have e: "''executed'' \<in> message_statuses" by (simp add: message_statuses_def StatusExecuted_def)
  have m: "t_messages (pg_tables demo_pg) ''m1'' \<noteq> None"
    by (simp add: upsert_spec_def demo_message_def Let_def)
  show ?thesis
    using store_refines [OF e, of demo_message demo_pg "''m1''" demo_destination] m
    by (auto split: prod.splits option.splits)
qed

section \<open>Replays\<close>

text \<open>
  What a replay must not lose: a stored message keeps its protocol, status and creation time, its
  source, its destination, its metadata and its nonce, and no stored text becomes empty.
\<close>

definition keeps_text :: "string option \<Rightarrow> string option \<Rightarrow> bool" where
  "keeps_text old new \<longleftrightarrow> (old \<noteq> None \<and> old \<noteq> Some [] \<longrightarrow> new \<noteq> None \<and> new \<noteq> Some [])"

definition keeps_payload :: "payload_row option \<Rightarrow> payload_row option \<Rightarrow> bool" where
  "keeps_payload old new \<longleftrightarrow>
     (case old of None \<Rightarrow> True
      | Some p \<Rightarrow> (case new of None \<Rightarrow> False
         | Some q \<Rightarrow> pr_nonce q = pr_nonce p \<and> keeps_text (pr_token p) (pr_token q) \<and>
             keeps_text (pr_amount p) (pr_amount q) \<and> keeps_text (pr_data p) (pr_data q)))"

definition keeps_message :: "message_row option \<Rightarrow> message_row option \<Rightarrow> bool" where
  "keeps_message old new \<longleftrightarrow>
     (case old of None \<Rightarrow> True
      | Some m \<Rightarrow> (case new of None \<Rightarrow> False
         | Some n \<Rightarrow> mr_protocol n = mr_protocol m \<and> mr_status n = mr_status m \<and>
             mr_created n = mr_created m))"

definition keeps_rows :: "tables \<Rightarrow> tables \<Rightarrow> bool" where
  "keeps_rows t u \<longleftrightarrow> (\<forall>mid.
     keeps_message (t_messages t mid) (t_messages u mid) \<and>
     keeps_payload (t_payloads t mid) (t_payloads u mid) \<and>
     (t_sources t mid \<noteq> None \<longrightarrow> t_sources u mid = t_sources t mid) \<and>
     (t_metadata t mid \<noteq> None \<longrightarrow> t_metadata u mid = t_metadata t mid) \<and>
     t_destinations u mid = t_destinations t mid) \<and>
   t_cursors u = t_cursors t \<and> t_block_hashes u = t_block_hashes t"

lemma keeps_refl [simp]: "keeps_message x x" "keeps_payload z z" "keeps_text y y" "keeps_rows t t"
  by (auto simp: keeps_message_def keeps_payload_def keeps_text_def keeps_rows_def split: option.splits)

lemma keeps_upserted [simp]:
  "keeps_message old (Some (upserted_message msg old))"
  "keeps_payload oldp (Some (upserted_payload p oldp))"
  by (auto simp: keeps_message_def upserted_message_def keeps_payload_def upserted_payload_def
      keeps_text_def fill_text_def split: option.splits)

lemma keeps_upsert_spec: "keeps_rows t (upsert_spec msg t)"
  by (auto simp: keeps_rows_def upsert_spec_def Let_def keep_first_def split: option.splits)

text \<open>
  C9: an upsert, of any message into any database and whatever fails during it, never touches what
  is already recorded of a message: protocol, status, creation time, source, destination,
  metadata and nonce are kept, a text of the payload is only ever replaced by a non-empty one,
  and the cursors and block hashes are left alone.
\<close>

theorem upsert_keeps_rows: "keeps_rows (pg_tables s) (pg_tables (fst (UpsertMessage msg s)))"
proof (cases "UpsertMessage msg s")
  case (Pair s' r)
  then show ?thesis
    using in_tx_atomic [of "upsert_stmts msg" s s' r]
      keeps_upsert_spec [of "pg_tables s" msg]
    by (auto simp: UpsertMessage_def apply_upsert split: option.splits if_splits)
qed

lemma upserted_idem [simp]:
  "upserted_message msg (Some (upserted_message msg old)) = upserted_message msg old"
  "upserted_payload p (Some (upserted_payload p oldp)) = upserted_payload p oldp"
  "keep_first x (Some (keep_first x oldx)) = keep_first x oldx"
  by (auto simp: upserted_message_def upserted_payload_def keep_first_def fill_text_def
      split: option.splits)

lemma upsert_spec_idem: "upsert_spec msg (upsert_spec msg t) = upsert_spec msg t"
  by (simp add: upsert_spec_def Let_def split: option.splits)

text \<open>
  C10: reprocessing the same source event is harmless: when no statement fails, a second upsert of
  the same message changes nothing and has the same outcome as the first.
\<close>

theorem upsert_idempotent:
  assumes "pg_faults s = []"
  shows "UpsertMessage msg (fst (UpsertMessage msg s)) = UpsertMessage msg s"
  using assms by (simp add: UpsertMessage_def in_tx_fault_free apply_upsert upsert_spec_idem)

theorem upsert_idempotent_witness:
  "UpsertMessage demo_message (fst (UpsertMessage demo_message demo_pg)) =
   UpsertMessage demo_message demo_pg"
  by (rule upsert_idempotent) simp

section \<open>Lookup\<close>

lemma find_row_Some: "find_row plan key t = Some mid \<Longrightarrow> key_matches t key mid"
  by (auto simp: find_row_def find_Some_iff)

lemma find_row_None:
  assumes "schema_ok t" "\<And>xs. set (plan xs) = set xs" "find_row plan key t = None"
  shows "\<not> key_matches t key mid"
proof
  assume k: "key_matches t key mid"
  then have "t_messages t mid \<noteq> None" by (auto simp: key_matches_def split: option.splits)
  with assms(1) have "mid \<in> set (t_ids t)" by (simp add: schema_ok_def row_schema_def)
  with assms(2,3) k show False by (auto simp: find_row_def find_None_iff)
qed

lemma key_matches_rows:
  "key_matches t key mid \<Longrightarrow> \<exists>m s p. t_messages t mid = Some m \<and> t_sources t mid = Some s \<and>
     t_payloads t mid = Some p \<and> mr_protocol m = ck_Protocol key \<and> mr_status m = StatusPending"
  by (auto simp: key_matches_def split: option.splits)

lemma scan_message_Some:
  "scan_message t mid = Inr (Some m) \<Longrightarrow> key_matches t key mid \<Longrightarrow>
     MessageID m = mid \<and> msg_Status m = StatusPending \<and> msg_Protocol m = ck_Protocol key \<and>
     t_sources t mid = Some (msg_Source m)"
  by (auto simp: scan_message_def dest!: key_matches_rows split: option.splits)

lemma FindByCorrelationKey_frame: "FindByCorrelationKey key s = (s', r) \<Longrightarrow> s' = tick s"
  by (auto simp: FindByCorrelationKey_def query_one_def split: sum.splits option.splits)

lemma FindByCorrelationKey_Some:
  assumes "FindByCorrelationKey key s = (s', Inr (Some m))"
  shows "key_matches (pg_tables s) key (MessageID m) \<and> msg_Status m = StatusPending \<and>
     msg_Protocol m = ck_Protocol key \<and> t_sources (pg_tables s) (MessageID m) = Some (msg_Source m)"
proof -
  from assms obtain mid where f: "find_row (pg_plan s) key (pg_tables s) = Some mid"
    and sc: "scan_message (pg_tables s) mid = Inr (Some m)"
    by (auto simp: FindByCorrelationKey_def query_one_def split: sum.splits option.splits if_splits)
  from find_row_Some [OF f] have k: "key_matches (pg_tables s) key mid" .
  with k scan_message_Some [OF sc k] show ?thesis by auto
qed

lemma FindByCorrelationKey_None:
  assumes "schema_ok (pg_tables s)" "plan_ok s" "FindByCorrelationKey key s = (s', Inr None)"
  shows "\<not> key_matches (pg_tables s) key mid"
proof -
  have "scan_message (pg_tables s) m \<noteq> Inr None" if "key_matches (pg_tables s) key m" for m
    using that by (auto simp: scan_message_def dest!: key_matches_rows split: option.splits)
  then have "find_row (pg_plan s) key (pg_tables s) = None"
    using assms(3) find_row_Some [of "pg_plan s" key "pg_tables s"]
    by (auto simp: FindByCorrelationKey_def query_one_def split: sum.splits option.splits if_splits)
  moreover have "\<And>xs. set (pg_plan s xs) = set xs" using assms(2) by (simp add: plan_ok_def)
  ultimately show ?thesis using find_row_None [OF assms(1)] by blast
qed

text \<open>What a key asks for, column by column: the specification of the lookup.\<close>

definition correlates :: "CorrelationKey \<Rightarrow> tables \<Rightarrow> string \<Rightarrow> bool" where
  "correlates key t mid \<longleftrightarrow>
     map_option mr_protocol (t_messages t mid) = Some (ck_Protocol key) \<and>
     map_option mr_status (t_messages t mid) = Some StatusPending \<and>
     t_sources t mid \<noteq> None \<and> t_payloads t mid \<noteq> None \<and>
     (ck_MessageID key \<noteq> [] \<and> mid = ck_MessageID key \<or>
      ck_MessageID key = [] \<and> Option.bind (t_payloads t mid) pr_nonce = Some (ck_Nonce key) \<and>
      map_option src_Sender (t_sources t mid) = Some (ck_Sender key) \<and>
      map_option src_ChainID (t_sources t mid) = Some (ck_SrcChainID key))"

lemma key_matches_correlates: "key_matches t key mid \<longleftrightarrow> correlates key t mid"
  by (auto simp: key_matches_def correlates_def split: option.splits)

lemma FindByCorrelationKey_error:
  assumes "FindByCorrelationKey key s = (s', Inl err)"
  shows "fault s \<or> (\<exists>mid. correlates key (pg_tables s) mid \<and>
     Option.bind (t_payloads (pg_tables s) mid) pr_nonce = None)"
proof (rule disjCI)
  assume nf: "\<not> (\<exists>mid. correlates key (pg_tables s) mid \<and>
     Option.bind (t_payloads (pg_tables s) mid) pr_nonce = None)"
  have "scan_message (pg_tables s) mid \<noteq> Inl e" if "key_matches (pg_tables s) key mid" for mid e
    using that nf key_matches_rows [OF that] by (auto simp: scan_message_def key_matches_correlates
        split: option.splits)
  then show "fault s"
    using assms find_row_Some [of "pg_plan s" key "pg_tables s"]
    by (auto simp: FindByCorrelationKey_def query_one_def split: sum.splits option.splits if_splits)
qed

text \<open>
  C8: the lookup is sound and complete. Whatever order the planner visits the rows in, a message it
  returns is stored, pending, of the key's protocol, and has what the key asks for: the id when the
  key has one, and nonce, sender and source chain otherwise. It returns none only when no stored
  message has that, fails only when the statement fails or such a message has no nonce, and changes
  no table.
\<close>

theorem find_sound_complete:
  assumes "schema_ok (pg_tables s)" and "plan_ok s"
  shows "(case FindByCorrelationKey key s of
      (s', Inl _) \<Rightarrow> pg_tables s' = pg_tables s \<and> (fault s \<or> (\<exists>mid. correlates key (pg_tables s) mid \<and>
        Option.bind (t_payloads (pg_tables s) mid) pr_nonce = None))
    | (s', Inr None) \<Rightarrow> pg_tables s' = pg_tables s \<and> (\<forall>mid. \<not> correlates key (pg_tables s) mid)
    | (s', Inr (Some m)) \<Rightarrow> pg_tables s' = pg_tables s \<and> msg_Status m = StatusPending \<and>
        msg_Protocol m = ck_Protocol key \<and> correlates key (pg_tables s) (MessageID m) \<and>
        t_sources (pg_tables s) (MessageID m) = Some (msg_Source m))"
proof (cases "FindByCorrelationKey key s")
  case (Pair s' r)
  then have t: "pg_tables s' = pg_tables s" by (auto dest: FindByCorrelationKey_frame)
  show ?thesis
  proof (cases r)
    case (Inl e)
    with Pair t FindByCorrelationKey_error [of key s s' e] show ?thesis by simp
  next
    case (Inr x)
    with Pair t FindByCorrelationKey_Some [of key s s'] FindByCorrelationKey_None [OF assms, of key s']
    show ?thesis by (cases x) (simp_all add: key_matches_correlates)
  qed
qed

definition demo_key :: CorrelationKey where
  "demo_key = \<lparr>ck_Protocol = ''layerzero_v2'', ck_MessageID = [], ck_Nonce = 7, ck_Sender = ''0x01'',
     ck_SrcChainID = 1\<rparr>"

lemma demo_key_matches: "key_matches (pg_tables demo_pg) demo_key ''m1''"
  by (simp add: key_matches_def demo_key_def upsert_spec_def Let_def demo_message_def empty_tables_def
      upserted_message_def upserted_payload_def keep_first_def demo_source_def)

theorem find_sound_complete_witness: "snd (FindByCorrelationKey demo_key demo_pg) \<noteq> Inr None"
  using find_sound_complete [of demo_pg demo_key] demo_key_matches
  by (auto simp: key_matches_correlates split: prod.splits sum.splits option.splits)

end
