(* ===== verification/Base64.thy ===== *)
theory Base64
  imports Prelude
begin

text \<open>
  \<open>base64.URLEncoding\<close> of the Go standard library, with which the API renders pagination cursors:
  encoding, decoding with its treatment of line breaks, padding and foreign characters, and the
  round trip.
\<close>

section \<open>The alphabet\<close>

definition b64_alphabet :: string where
  "b64_alphabet = ''ABCDEFGHIJKLMNOPQRSTUVWXYZabcdefghijklmnopqrstuvwxyz0123456789-_''"

definition b64_char :: "nat \<Rightarrow> char" where
  "b64_char n = b64_alphabet ! (n mod 64)"

definition b64_val :: "char \<Rightarrow> nat option" where
  "b64_val c = map_of (zip b64_alphabet [0..<64]) c"

lemma b64_alphabet_facts: "length b64_alphabet = 64" "distinct b64_alphabet"
  "CHR ''='' \<notin> set b64_alphabet" "CHR 0x0A \<notin> set b64_alphabet" "CHR 0x0D \<notin> set b64_alphabet"
  by (simp_all add: b64_alphabet_def)

lemma b64_char_in: "b64_char n \<in> set b64_alphabet"
  unfolding b64_char_def by (rule nth_mem) (simp add: b64_alphabet_facts)

lemma b64_char_ne [simp]:
  "b64_char n \<noteq> CHR ''=''" "b64_char n \<noteq> CHR 0x0A" "b64_char n \<noteq> CHR 0x0D"
  using b64_char_in [of n] b64_alphabet_facts(3-5) by auto

lemma b64_val_char [simp]: "b64_val (b64_char n) = Some (n mod 64)"
proof -
  have "n mod 64 < length b64_alphabet" "length b64_alphabet = length [0..<64]"
    by (simp_all add: b64_alphabet_facts)
  from map_of_zip_nth [OF this(2) b64_alphabet_facts(2), of "n mod 64"] this(1)
  show ?thesis by (simp add: b64_val_def b64_char_def b64_alphabet_facts)
qed

section \<open>Encoding and decoding\<close>

definition b64_group :: "nat \<Rightarrow> string" where
  "b64_group v = [b64_char (v div 262144), b64_char (v div 4096), b64_char (v div 64), b64_char v]"

fun b64_encode :: "bytes \<Rightarrow> string" where
  "b64_encode [] = []"
| "b64_encode [a] = take 2 (b64_group (unat a * 65536)) @ ''==''"
| "b64_encode [a, b] = take 3 (b64_group (unat a * 65536 + unat b * 256)) @ ''=''"
| "b64_encode (a # b # c # rest) =
     b64_group (unat a * 65536 + unat b * 256 + unat c) @ b64_encode rest"

definition CorruptInput :: error where "CorruptInput = Errorf ''illegal base64 data''"

definition b64_vals :: "string \<Rightarrow> nat option" where
  "b64_vals cs = fold (\<lambda>c acc. case (acc, b64_val c) of (Some n, Some v) \<Rightarrow> Some (64 * n + v) | _ \<Rightarrow> None) cs (Some 0)"

fun b64_quads :: "string \<Rightarrow> error + bytes" where
  "b64_quads [] = Inr []"
| "b64_quads (a # b # c # d # rest) =
     (if d = CHR ''='' then
        (if rest \<noteq> [] then Inl CorruptInput
         else if c = CHR ''='' then
           (case b64_vals [a, b] of None \<Rightarrow> Inl CorruptInput | Some v \<Rightarrow> Inr [of_nat (v div 16)])
         else
           (case b64_vals [a, b, c] of None \<Rightarrow> Inl CorruptInput
            | Some v \<Rightarrow> Inr [of_nat (v div 1024), of_nat (v div 4)]))
      else
        (case b64_vals [a, b, c, d] of None \<Rightarrow> Inl CorruptInput
         | Some v \<Rightarrow> map_sum id (\<lambda>bs. of_nat (v div 65536) # of_nat (v div 256) # of_nat v # bs) (b64_quads rest)))"
| "b64_quads _ = Inl CorruptInput"

definition b64_decode :: "string \<Rightarrow> error + bytes" where
  "b64_decode s = b64_quads (filter (\<lambda>c. c \<noteq> CHR 0x0A \<and> c \<noteq> CHR 0x0D) s)"

section \<open>Round trip\<close>

lemma b64_vals_simps:
  "b64_vals [b64_char x, b64_char y] = Some (64 * (x mod 64) + y mod 64)"
  "b64_vals [b64_char x, b64_char y, b64_char z] = Some (64 * (64 * (x mod 64) + y mod 64) + z mod 64)"
  "b64_vals [b64_char x, b64_char y, b64_char z, b64_char u] =
     Some (64 * (64 * (64 * (x mod 64) + y mod 64) + z mod 64) + u mod 64)"
  by (simp_all add: b64_vals_def)

lemma b64_sextets:
  fixes v :: nat
  assumes "v < 16777216"
  shows "64 * (64 * (64 * (v div 262144 mod 64) + v div 4096 mod 64) + v div 64 mod 64) + v mod 64 = v"
    and "64 * (64 * (v div 262144 mod 64) + v div 4096 mod 64) + v div 64 mod 64 = v div 64"
    and "64 * (v div 262144 mod 64) + v div 4096 mod 64 = v div 4096"
proof -
  have "v div 262144 < 64" using assms by (simp add: less_mult_imp_div_less)
  moreover have "v div 262144 = v div 4096 div 64" "v div 4096 = v div 64 div 64"
    by (simp_all flip: div_mult2_eq)
  ultimately show a: "64 * (v div 262144 mod 64) + v div 4096 mod 64 = v div 4096"
    by (metis mod_less mult_div_mod_eq)
  show b: "64 * (64 * (v div 262144 mod 64) + v div 4096 mod 64) + v div 64 mod 64 = v div 64"
    unfolding a using \<open>v div 4096 = v div 64 div 64\<close> by (metis mult_div_mod_eq)
  show "64 * (64 * (64 * (v div 262144 mod 64) + v div 4096 mod 64) + v div 64 mod 64) + v mod 64 = v"
    unfolding b by simp
qed

lemma byte_bound: "unat (a :: byte) < 256"
  using unat_less_p2 [of a] by simp

lemma byte_groups:
  fixes x y z :: nat
  assumes "x < 256" and "y < 256" and "z < 256"
  shows "x * 65536 + y * 256 + z < 16777216" "(x * 65536 + y * 256 + z) div 65536 = x"
    "(x * 65536 + y * 256 + z) div 256 = 256 * x + y"
proof -
  show "x * 65536 + y * 256 + z < 16777216" using assms by linarith
  have "y * 256 + z < 65536" using assms by linarith
  then show "(x * 65536 + y * 256 + z) div 65536 = x"
    using div_mult_self3 [of 65536 x "y * 256 + z"] by (simp add: add.assoc)
  have "x * 65536 + y * 256 + z = (256 * x + y) * 256 + z" by (simp add: algebra_simps)
  then show "(x * 65536 + y * 256 + z) div 256 = 256 * x + y"
    using div_mult_self3 [of 256 "256 * x + y" z] assms(3) by simp
qed

lemma of_nat_byte: "(of_nat (256 * x + y) :: byte) = of_nat y"
proof -
  have "unat (of_nat (256 * x + y) :: byte) = unat (of_nat y :: byte)" unfolding unat_of_nat by simp
  then show ?thesis by (rule word_unat_eq_iff [THEN iffD2])
qed

lemma group_bytes:
  fixes a b c :: byte
  assumes v: "v = unat a * 65536 + unat b * 256 + unat c"
  shows "v < 16777216" "of_nat (v div 65536) = a" "of_nat (v div 256) = b" "(of_nat v :: byte) = c"
proof -
  note g = byte_groups [OF byte_bound [of a] byte_bound [of b] byte_bound [of c], folded v]
  show "v < 16777216" by (rule g(1))
  show "of_nat (v div 65536) = a" unfolding g(2) by simp
  show "of_nat (v div 256) = b" unfolding g(3) of_nat_byte by simp
  have "v = 256 * (256 * unat a + unat b) + unat c" unfolding v by (simp add: algebra_simps)
  then show "(of_nat v :: byte) = c" using of_nat_byte [of "256 * unat a + unat b" "unat c"] by simp
qed

lemma quads_group:
  assumes "v < 16777216"
  shows "b64_quads (take 2 (b64_group v) @ ''=='') = Inr [of_nat (v div 65536)]"
    and "b64_quads (take 3 (b64_group v) @ ''='') = Inr [of_nat (v div 65536), of_nat (v div 256)]"
    and "b64_quads (b64_group v @ rest) =
      map_sum id (\<lambda>bs. of_nat (v div 65536) # of_nat (v div 256) # of_nat v # bs) (b64_quads rest)"
proof -
  have "v div 4096 div 16 = v div 65536" "v div 64 div 1024 = v div 65536" "v div 64 div 4 = v div 256"
    by (simp_all flip: div_mult2_eq)
  with b64_sextets [OF assms] show
    "b64_quads (take 2 (b64_group v) @ ''=='') = Inr [of_nat (v div 65536)]"
    "b64_quads (take 3 (b64_group v) @ ''='') = Inr [of_nat (v div 65536), of_nat (v div 256)]"
    "b64_quads (b64_group v @ rest) =
      map_sum id (\<lambda>bs. of_nat (v div 65536) # of_nat (v div 256) # of_nat v # bs) (b64_quads rest)"
    by (simp_all add: b64_group_def b64_vals_simps)
qed

lemma b64_quads_encode: "b64_quads (b64_encode bs) = Inr bs"
proof (induction bs rule: b64_encode.induct)
  case (2 a)
  have "unat a * 65536 = unat a * 65536 + unat (0 :: byte) * 256 + unat (0 :: byte)" by simp
  note g = group_bytes [OF this]
  show ?case unfolding b64_encode.simps quads_group(1) [OF g(1)] g(2) ..
next
  case (3 a b)
  have "unat a * 65536 + unat b * 256 = unat a * 65536 + unat b * 256 + unat (0 :: byte)" by simp
  note g = group_bytes [OF this]
  show ?case unfolding b64_encode.simps quads_group(2) [OF g(1)] g(2,3) ..
next
  case (4 a b c rest)
  note g = group_bytes [OF refl, of a b c]
  show ?case unfolding b64_encode.simps quads_group(3) [OF g(1)] g(2-4) 4 by simp
qed simp

lemma b64_encode_chars: "c \<in> set (b64_encode bs) \<Longrightarrow> c \<noteq> CHR 0x0A \<and> c \<noteq> CHR 0x0D"
  by (induction bs rule: b64_encode.induct) (auto simp: b64_group_def)

lemma b64_roundtrip [simp]: "b64_decode (b64_encode bs) = Inr bs"
proof -
  have "filter (\<lambda>c. c \<noteq> CHR 0x0A \<and> c \<noteq> CHR 0x0D) (b64_encode bs) = b64_encode bs"
    using b64_encode_chars by (simp add: filter_id_conv)
  then show ?thesis by (simp add: b64_decode_def b64_quads_encode)
qed

lemma b64_encode_empty [simp]: "b64_encode bs = [] \<longleftrightarrow> bs = []"
  by (cases bs rule: b64_encode.cases) (simp_all add: b64_group_def)

end
