(* ===== verification/Query.thy ===== *)
theory Query
  imports MessageStore Base64
begin

text \<open>
  The read side, \<open>internal/api/message_querier.go\<close> and \<open>address_trace_querier.go\<close>: the joined
  message as a query scans it, the lookups, the filtered listings with their cursors, and the
  trace of a message. The order in which the database compares texts and the JSON codec of a
  cursor are parameters.
\<close>

section \<open>A joined row\<close>

definition derefStr :: "string option \<Rightarrow> string" where
  "derefStr s = (case s of None \<Rightarrow> [] | Some x \<Rightarrow> x)"

definition derefInt64 :: "int option \<Rightarrow> int" where
  "derefInt64 i = (case i of None \<Rightarrow> 0 | Some x \<Rightarrow> x)"

definition derefUint64 :: "u64 option \<Rightarrow> u64" where
  "derefUint64 u = (case u of None \<Rightarrow> 0 | Some x \<Rightarrow> x)"

definition scan_payload :: "payload_row \<Rightarrow> payload option" where
  "scan_payload row =
     (if pr_token row \<noteq> None \<or> pr_amount row \<noteq> None \<or> pr_data row \<noteq> None \<or> pr_nonce row \<noteq> None
      then Some \<lparr>pl_Token = derefStr (pr_token row), pl_Amount = derefStr (pr_amount row),
                 pl_Data = derefStr (pr_data row), pl_Nonce = derefUint64 (pr_nonce row)\<rparr>
      else None)"

definition scan_metadata :: "metadata_row \<Rightarrow> metadata option" where
  "scan_metadata row =
     (if mt_fee row \<noteq> None \<or> mt_relayer row \<noteq> None \<or> mt_gas_used row \<noteq> None \<or> mt_latency row \<noteq> None
      then Some \<lparr>md_Fee = derefStr (mt_fee row), md_Relayer = derefStr (mt_relayer row),
                 md_GasUsed = derefUint64 (mt_gas_used row), md_LatencySeconds = derefInt64 (mt_latency row)\<rparr>
      else None)"

text \<open>
  \<open>baseSelect\<close> joined for one message id and scanned by \<open>scanFullMessage\<close>: no row without a
  source, the other tables by left joins. Their columns other than those of payload and metadata
  are not null.
\<close>

definition scanFullMessage :: "tables \<Rightarrow> string \<Rightarrow> message option" where
  "scanFullMessage t mid =
     (case (t_messages t mid, t_sources t mid) of
        (Some row, Some src) \<Rightarrow>
          Some \<lparr>MessageID = mid, msg_Protocol = mr_protocol row, msg_Type = mr_type row,
            msg_Status = mr_status row, msg_Source = src, msg_Destination = t_destinations t mid,
            msg_Payload = Option.bind (t_payloads t mid) scan_payload,
            msg_Metadata = Option.bind (t_metadata t mid) scan_metadata,
            CreatedAt = mr_created row, UpdatedAt = mr_updated row\<rparr>
      | _ \<Rightarrow> None)"

text \<open>The code has the scan twice, for one row and for each of many.\<close>

definition scanFullMessageFromRows :: "tables \<Rightarrow> string \<Rightarrow> message option" where
  [simp]: "scanFullMessageFromRows = scanFullMessage"

text \<open>A query for many rows fails at once or while its rows are read.\<close>

definition query_rows ::
    "string \<Rightarrow> string \<Rightarrow> (tables \<Rightarrow> 'a list) \<Rightarrow> pg \<Rightarrow> pg \<times> (error + 'a list)" where
  "query_rows c1 c2 q s =
     (if fault s then (tick s, Inl (Wrapf c1 DbError))
      else let rows = q (pg_tables s); s = tick s in
           if fault s then (tick s, Inl (Wrapf c2 DbError)) else (tick s, Inr rows))"

text \<open>The joined rows in the order the planner visits them.\<close>

definition joined :: "pg \<Rightarrow> tables \<Rightarrow> message list" where
  "joined s t = List.map_filter (scanFullMessageFromRows t) (pg_plan s (t_ids t))"

section \<open>Lookups\<close>

definition GetByID :: "string \<Rightarrow> pg \<Rightarrow> pg \<times> (error + message option)" where
  "GetByID messageID s =
     (case query_one (\<lambda>t. case scanFullMessage t messageID of None \<Rightarrow> Inl NoRows | Some m \<Rightarrow> Inr m) s of
        (s, Inl err) \<Rightarrow>
          if err = NoRows then (s, Inr None) else (s, Inl (Wrapf ''querying message by id'' err))
      | (s, Inr m) \<Rightarrow> (s, Inr (Some m)))"

text \<open>\<open>ORDER BY\<close>, as an insertion sort.\<close>

fun insert_by :: "('a \<Rightarrow> 'a \<Rightarrow> bool) \<Rightarrow> 'a \<Rightarrow> 'a list \<Rightarrow> 'a list" where
  "insert_by le x [] = [x]"
| "insert_by le x (y # ys) = (if le x y then x # y # ys else y # insert_by le x ys)"

definition order_by :: "('a \<Rightarrow> 'a \<Rightarrow> bool) \<Rightarrow> 'a list \<Rightarrow> 'a list" where
  "order_by le xs = foldr (insert_by le) xs []"

definition touches_tx :: "string \<Rightarrow> message \<Rightarrow> bool" where
  "touches_tx txHash m \<longleftrightarrow> src_TxHash (msg_Source m) = txHash \<or>
     (case msg_Destination m of None \<Rightarrow> False | Some d \<Rightarrow> dst_TxHash d = txHash)"

definition GetByTxHash :: "string \<Rightarrow> pg \<Rightarrow> pg \<times> (error + message list)" where
  "GetByTxHash txHash s =
     query_rows ''querying messages by tx hash'' ''iterating message rows''
       (\<lambda>t. order_by (\<lambda>a b. CreatedAt b \<le> CreatedAt a) (filter (touches_tx txHash) (joined s t))) s"

section \<open>Cursors\<close>

record cursor =
  cu_CreatedAt :: int
  cu_MessageID :: string

text \<open>\<open>json.Marshal\<close> and \<open>json.Unmarshal\<close> of a cursor; a time out of range does not marshal.\<close>

record cursor_json =
  cj_Marshal :: "cursor \<Rightarrow> error + bytes"
  cj_Unmarshal :: "bytes \<Rightarrow> error + cursor"

definition encodeCursor :: "cursor_json \<Rightarrow> cursor \<Rightarrow> string" where
  "encodeCursor j c = b64_encode (case cj_Marshal j c of Inl _ \<Rightarrow> [] | Inr b \<Rightarrow> b)"

definition decodeCursor :: "cursor_json \<Rightarrow> string \<Rightarrow> error + cursor" where
  "decodeCursor j s =
     (case b64_decode s of
        Inl err \<Rightarrow> Inl (Wrapf ''invalid cursor'' err)
      | Inr b \<Rightarrow>
          (case cj_Unmarshal j b of
             Inl err \<Rightarrow> Inl (Wrapf ''invalid cursor'' err)
           | Inr c \<Rightarrow> Inr c))"

definition cursor_of :: "message \<Rightarrow> cursor" where
  "cursor_of m = \<lparr>cu_CreatedAt = CreatedAt m, cu_MessageID = MessageID m\<rparr>"

section \<open>Filtered pages\<close>

record MessageFilter =
  mf_SrcChain :: "u64 option"
  mf_DstChain :: "u64 option"
  mf_Protocol :: string
  mf_Status :: string
  mf_Sender :: string
  mf_Receiver :: string
  mf_FromTS :: "int option"
  mf_ToTS :: "int option"
  mf_Cursor :: string
  mf_Limit :: int
  mf_SortOrder :: string

record MessageListResult =
  lr_Messages :: "message list"
  lr_NextCursor :: string

text \<open>The comparison of rows \<open>(created_at, message_id)\<close>; \<open>le\<close> compares texts.\<close>

definition key_le :: "(string \<Rightarrow> string \<Rightarrow> bool) \<Rightarrow> cursor \<Rightarrow> cursor \<Rightarrow> bool" where
  "key_le le a b \<longleftrightarrow> cu_CreatedAt a < cu_CreatedAt b \<or>
     cu_CreatedAt a = cu_CreatedAt b \<and> le (cu_MessageID a) (cu_MessageID b)"

definition key_less :: "(string \<Rightarrow> string \<Rightarrow> bool) \<Rightarrow> cursor \<Rightarrow> cursor \<Rightarrow> bool" where
  "key_less le a b \<longleftrightarrow> key_le le a b \<and> a \<noteq> b"

text \<open>The conditions on optional parameters, in the order they are appended.\<close>

definition text_cond :: "string \<Rightarrow> (message \<Rightarrow> string option) \<Rightarrow> (message \<Rightarrow> bool) list" where
  "text_cond x col = (if x \<noteq> [] then [\<lambda>m. col m = Some x] else [])"

definition opt_cond :: "'a option \<Rightarrow> ('a \<Rightarrow> message \<Rightarrow> bool) \<Rightarrow> (message \<Rightarrow> bool) list" where
  "opt_cond x p = (case x of None \<Rightarrow> [] | Some v \<Rightarrow> [p v])"

definition dst_chain_is :: "u64 \<Rightarrow> message \<Rightarrow> bool" where
  "dst_chain_is c m \<longleftrightarrow> map_option dst_ChainID (msg_Destination m) = Some c"

definition filter_conditions :: "MessageFilter \<Rightarrow> (message \<Rightarrow> bool) list" where
  "filter_conditions f =
     text_cond (mf_Protocol f) (\<lambda>m. Some (msg_Protocol m)) @
     text_cond (mf_Status f) (\<lambda>m. Some (msg_Status m)) @
     opt_cond (mf_SrcChain f) (\<lambda>c m. src_ChainID (msg_Source m) = c) @
     opt_cond (mf_DstChain f) dst_chain_is @
     text_cond (mf_Sender f) (\<lambda>m. Some (src_Sender (msg_Source m))) @
     text_cond (mf_Receiver f) (\<lambda>m. map_option dst_Receiver (msg_Destination m)) @
     opt_cond (mf_FromTS f) (\<lambda>ts m. src_Timestamp (msg_Source m) \<ge> ts) @
     opt_cond (mf_ToTS f) (\<lambda>ts m. src_Timestamp (msg_Source m) \<le> ts)"

definition cursor_condition :: "(string \<Rightarrow> string \<Rightarrow> bool) \<Rightarrow> bool \<Rightarrow> cursor \<Rightarrow> message \<Rightarrow> bool" where
  "cursor_condition le desc cur m =
     (if desc then key_less le (cursor_of m) cur else key_less le cur (cursor_of m))"

definition row_order :: "(string \<Rightarrow> string \<Rightarrow> bool) \<Rightarrow> bool \<Rightarrow> message \<Rightarrow> message \<Rightarrow> bool" where
  "row_order le desc a b =
     (if desc then key_le le (cursor_of b) (cursor_of a) else key_le le (cursor_of a) (cursor_of b))"

definition clamp_limit :: "int \<Rightarrow> nat" where
  "clamp_limit l = (if l \<le> 0 \<or> l > 100 then 20 else nat l)"

text \<open>From the fetched rows, at most one more than the limit, to the page and its next cursor.\<close>

definition page_result :: "cursor_json \<Rightarrow> nat \<Rightarrow> message list \<Rightarrow> MessageListResult" where
  "page_result j limit messages =
     (if length messages > limit
      then \<lparr>lr_Messages = take limit messages,
             lr_NextCursor = encodeCursor j (cursor_of (messages ! (limit - 1)))\<rparr>
      else \<lparr>lr_Messages = messages, lr_NextCursor = []\<rparr>)"

text \<open>
  What \<open>List\<close> and \<open>GetAddressHistory\<close> share: the cursor's condition, the query with its order and
  limit, and the page.
\<close>

definition select_page ::
    "cursor_json \<Rightarrow> (string \<Rightarrow> string \<Rightarrow> bool) \<Rightarrow> string \<Rightarrow> string \<Rightarrow> bool \<Rightarrow> nat \<Rightarrow> string
      \<Rightarrow> (message \<Rightarrow> bool) list \<Rightarrow> pg \<Rightarrow> pg \<times> (error + MessageListResult)" where
  "select_page j le c1 c2 desc limit cur conditions s =
     (case (if cur \<noteq> [] then map_sum id (\<lambda>c. conditions @ [cursor_condition le desc c]) (decodeCursor j cur)
            else Inr conditions) of
        Inl err \<Rightarrow> (s, Inl err)
      | Inr conditions \<Rightarrow>
          (case query_rows c1 c2 (\<lambda>t. take (limit + 1) (order_by (row_order le desc)
                   (filter (\<lambda>m. list_all (\<lambda>p. p m) conditions) (joined s t)))) s of
             (s, Inl err) \<Rightarrow> (s, Inl err)
           | (s, Inr messages) \<Rightarrow> (s, Inr (page_result j limit messages))))"

definition List_messages ::
    "cursor_json \<Rightarrow> (string \<Rightarrow> string \<Rightarrow> bool) \<Rightarrow> MessageFilter \<Rightarrow> pg \<Rightarrow> pg \<times> (error + MessageListResult)" where
  "List_messages j le f s =
     select_page j le ''listing messages'' ''iterating message rows'' (mf_SortOrder f \<noteq> ''asc'')
       (clamp_limit (mf_Limit f)) (mf_Cursor f) (filter_conditions f) s"

section \<open>Address history\<close>

record AddressHistoryFilter =
  hf_Protocol :: string
  hf_SrcChain :: "u64 option"
  hf_DstChain :: "u64 option"
  hf_Status :: string
  hf_Cursor :: string
  hf_Limit :: int
  hf_SortOrder :: string

text \<open>The common table expression: senders and receivers, each id once.\<close>

definition matching_id :: "string \<Rightarrow> message \<Rightarrow> bool" where
  "matching_id address m \<longleftrightarrow> src_Sender (msg_Source m) = address \<or>
     map_option dst_Receiver (msg_Destination m) = Some address"

definition history_conditions :: "AddressHistoryFilter \<Rightarrow> (message \<Rightarrow> bool) list" where
  "history_conditions f =
     text_cond (hf_Protocol f) (\<lambda>m. Some (msg_Protocol m)) @
     text_cond (hf_Status f) (\<lambda>m. Some (msg_Status m)) @
     opt_cond (hf_SrcChain f) (\<lambda>c m. src_ChainID (msg_Source m) = c) @
     opt_cond (hf_DstChain f) dst_chain_is"

definition GetAddressHistory ::
    "cursor_json \<Rightarrow> (string \<Rightarrow> string \<Rightarrow> bool) \<Rightarrow> string \<Rightarrow> AddressHistoryFilter \<Rightarrow> pg
      \<Rightarrow> pg \<times> (error + MessageListResult)" where
  "GetAddressHistory j le address f s =
     (if address = [] then (s, Inl (Errorf ''address is required''))
      else select_page j le ''querying address history'' ''iterating address history rows''
        (map ascii_lower (hf_SortOrder f) \<noteq> ''asc'') (clamp_limit (hf_Limit f)) (hf_Cursor f)
        (matching_id address # history_conditions f) s)"

section \<open>Traces\<close>

record TraceEvent =
  te_Type :: string
  te_ChainID :: u64
  te_TxHash :: string
  te_BlockNumber :: u64
  te_Timestamp :: int
  te_LogIndex :: u64
  te_Address :: string

record TraceResponse =
  tr_MessageID :: string
  tr_Protocol :: string
  tr_Type :: string
  tr_Status :: string
  tr_Events :: "TraceEvent list"
  tr_LatencySeconds :: "int option"
  tr_Payload :: "payload option"
  tr_Metadata :: "metadata option"
  tr_CreatedAt :: int
  tr_UpdatedAt :: int

definition sent_event :: "source \<Rightarrow> TraceEvent" where
  "sent_event src = \<lparr>te_Type = ''sent'', te_ChainID = src_ChainID src, te_TxHash = src_TxHash src,
     te_BlockNumber = src_BlockNumber src, te_Timestamp = src_Timestamp src,
     te_LogIndex = src_LogIndex src, te_Address = src_Sender src\<rparr>"

definition received_event :: "destination \<Rightarrow> TraceEvent" where
  "received_event d = \<lparr>te_Type = ''received'', te_ChainID = dst_ChainID d, te_TxHash = dst_TxHash d,
     te_BlockNumber = dst_BlockNumber d, te_Timestamp = dst_Timestamp d,
     te_LogIndex = dst_LogIndex d, te_Address = dst_Receiver d\<rparr>"

definition trace_of :: "message \<Rightarrow> TraceResponse" where
  "trace_of msg =
     \<lparr>tr_MessageID = MessageID msg, tr_Protocol = msg_Protocol msg, tr_Type = msg_Type msg,
      tr_Status = msg_Status msg,
      tr_Events = [sent_event (msg_Source msg)] @
        (case msg_Destination msg of
           None \<Rightarrow> []
         | Some d \<Rightarrow> if dst_TxHash d \<noteq> [] then [received_event d] else []),
      tr_LatencySeconds =
        (case msg_Metadata msg of
           None \<Rightarrow> None
         | Some md \<Rightarrow> if md_LatencySeconds md > 0 then Some (md_LatencySeconds md) else None),
      tr_Payload = msg_Payload msg, tr_Metadata = msg_Metadata msg,
      tr_CreatedAt = CreatedAt msg, tr_UpdatedAt = UpdatedAt msg\<rparr>"

text \<open>The message id is rendered by \<open>%q\<close> in the context of an error; here it is only quoted.\<close>

definition GetTrace :: "string \<Rightarrow> pg \<Rightarrow> pg \<times> (error + TraceResponse option)" where
  "GetTrace messageID s =
     (if messageID = [] then (s, Inl (Errorf ''message_id is required''))
      else
        (case query_one (\<lambda>t. case scanFullMessage t messageID of None \<Rightarrow> Inl NoRows | Some m \<Rightarrow> Inr m) s of
           (s, Inl err) \<Rightarrow>
             if err = NoRows then (s, Inr None)
             else (s, Inl (Wrapf (''querying trace for message \"'' @ messageID @ ''\"'') err))
         | (s, Inr m) \<Rightarrow> (s, Inr (Some (trace_of m)))))"

end
