(* ===== verification/Pagination.thy ===== *)
theory Pagination
  imports Query "HOL-Library.Multiset"
begin

text \<open>
  Walking through the pages of a listing by its cursors: every selected message once, in the
  requested order. The lemmas are about any total order on the rows with distinct keys; the two
  paged endpoints are instances.
\<close>

section \<open>Sorting\<close>

definition total_preorder :: "('a \<Rightarrow> 'a \<Rightarrow> bool) \<Rightarrow> bool" where
  "total_preorder r \<longleftrightarrow> (\<forall>x y. r x y \<or> r y x) \<and> (\<forall>x y z. r x y \<longrightarrow> r y z \<longrightarrow> r x z)"

lemma total_preorderD:
  "total_preorder r \<Longrightarrow> r x y \<or> r y x"
  "total_preorder r \<Longrightarrow> r x y \<Longrightarrow> r y z \<Longrightarrow> r x z"
  unfolding total_preorder_def by blast+

lemma mset_insert_by [simp]: "mset (insert_by r x ys) = add_mset x (mset ys)"
  by (induction ys) auto

lemma set_insert_by [simp]: "set (insert_by r x ys) = insert x (set ys)"
  by (induction ys) (auto simp: insert_commute)

lemma order_by_simps [simp]: "order_by r [] = []" "order_by r (x # xs) = insert_by r x (order_by r xs)"
  by (simp_all add: order_by_def)

lemma mset_order_by [simp]: "mset (order_by r xs) = mset xs"
  by (induction xs) simp_all

lemma set_order_by [simp]: "set (order_by r xs) = set xs"
  by (metis mset_order_by set_mset_mset)

lemma length_order_by [simp]: "length (order_by r xs) = length xs"
  by (metis mset_order_by size_mset)

lemma sorted_insert_by:
  assumes "total_preorder r" and "sorted_wrt r ys"
  shows "sorted_wrt r (insert_by r x ys)"
  using assms(2)
proof (induction ys)
  case (Cons y ys)
  show ?case
  proof (cases "r x y")
    case True
    with Cons.prems show ?thesis by (auto intro: total_preorderD(2) [OF assms(1)])
  next
    case False
    with total_preorderD(1) [OF assms(1), of x y] have "r y x" by blast
    with False Cons show ?thesis by auto
  qed
qed simp

lemma sorted_order_by: "total_preorder r \<Longrightarrow> sorted_wrt r (order_by r xs)"
  by (induction xs) (simp_all add: sorted_insert_by)

lemma filter_insert_by:
  assumes "total_preorder r" and "sorted_wrt r ys"
  shows "filter P (insert_by r x ys) = (if P x then insert_by r x (filter P ys) else filter P ys)"
  using assms(2)
proof (induction ys)
  case (Cons y ys)
  have "insert_by r x (filter P ys) = x # filter P ys" if "r x y"
  proof (cases "filter P ys")
    case (Cons z zs)
    then have "z \<in> set ys" by (metis filter_is_subset list.set_intros(1) subsetD)
    with \<open>sorted_wrt r (y # ys)\<close> have "r y z" by simp
    with that have "r x z" by (rule total_preorderD(2) [OF assms(1)])
    with Cons show ?thesis by simp
  qed simp
  with Cons show ?case by auto
qed simp

lemma filter_order_by:
  "total_preorder r \<Longrightarrow> filter P (order_by r xs) = order_by r (filter P xs)"
proof (induction xs)
  case (Cons x xs)
  from filter_insert_by [OF Cons.prems sorted_order_by [OF Cons.prems], of P x xs] Cons
  show ?case by simp
qed simp

text \<open>What follows the \<open>i\<close>-th element of a strictly ordered list is what comes after its key.\<close>

lemma filter_after:
  assumes sorted: "sorted_wrt r xs" and keys: "distinct (map k xs)" and i: "i < length xs"
    and anti: "\<And>x y. r x y \<Longrightarrow> r y x \<Longrightarrow> k x = k y"
  shows "filter (\<lambda>x. r (xs ! i) x \<and> k x \<noteq> k (xs ! i)) xs = drop (Suc i) xs"
proof -
  let ?P = "\<lambda>x. r (xs ! i) x \<and> k x \<noteq> k (xs ! i)"
  have "\<not> ?P x" if "x \<in> set (take (Suc i) xs)" for x
  proof -
    from that obtain j where "j < Suc i" "x = take (Suc i) xs ! j"
      by (metis in_set_conv_nth length_take min_less_iff_conj)
    then have j: "j \<le> i" "x = xs ! j" by simp_all
    show ?thesis
    proof (cases "j = i")
      case False
      with j i sorted have "r x (xs ! i)" by (simp add: sorted_wrt_iff_nth_less)
      with anti show ?thesis by blast
    qed (simp add: j)
  qed
  then have "filter ?P (take (Suc i) xs) = []" by (simp add: filter_empty_conv)
  moreover have "?P x" if "x \<in> set (drop (Suc i) xs)" for x
  proof -
    from that obtain n where n: "n < length (drop (Suc i) xs)" "x = drop (Suc i) xs ! n"
      by (metis in_set_conv_nth)
    define j where "j = Suc i + n"
    with n have j: "i < j" "j < length xs" "x = xs ! j" by simp_all
    then have "r (xs ! i) x" using sorted by (simp add: sorted_wrt_iff_nth_less)
    moreover have "k x \<noteq> k (xs ! i)" using keys j i by (metis distinct_conv_nth length_map less_not_refl nth_map)
    ultimately show ?thesis ..
  qed
  then have "filter ?P (drop (Suc i) xs) = drop (Suc i) xs" by (simp add: filter_id_conv)
  ultimately show ?thesis using filter_append [of ?P "take (Suc i) xs" "drop (Suc i) xs"] by simp
qed

section \<open>The order of rows\<close>

text \<open>The comparison of texts is a total order.\<close>

definition total_order :: "(string \<Rightarrow> string \<Rightarrow> bool) \<Rightarrow> bool" where
  "total_order le \<longleftrightarrow> total_preorder le \<and> (\<forall>a b. le a b \<longrightarrow> le b a \<longrightarrow> a = b)"

lemma row_order_total:
  assumes "total_order le"
  shows "total_preorder (row_order le desc)"
proof -
  have le: "le a b \<or> le b a" "le a b \<Longrightarrow> le b c \<Longrightarrow> le a c" for a b c
    using assms by (auto simp: total_order_def total_preorder_def)
  have "key_le le a b \<or> key_le le b a" for a b using le(1) by (auto simp: key_le_def)
  moreover have "key_le le a b \<Longrightarrow> key_le le b c \<Longrightarrow> key_le le a c" for a b c
    using le(2) by (auto simp: key_le_def)
  ultimately show ?thesis
    unfolding total_preorder_def row_order_def by (cases desc) (simp_all only: if_True if_False, blast+)
qed

lemma row_order_antisym:
  assumes "total_order le" and "row_order le desc a b" and "row_order le desc b a"
  shows "cursor_of a = cursor_of b"
proof -
  have "cu_CreatedAt (cursor_of a) = cu_CreatedAt (cursor_of b) \<and>
      cu_MessageID (cursor_of a) = cu_MessageID (cursor_of b)"
    using assms by (auto simp: total_order_def row_order_def key_le_def split: if_splits)
  then show ?thesis by simp
qed

lemma cursor_condition_after:
  "cursor_condition le desc (cursor_of a) m \<longleftrightarrow>
     row_order le desc a m \<and> cursor_of m \<noteq> cursor_of a"
  by (auto simp: cursor_condition_def row_order_def key_less_def)

section \<open>The joined rows\<close>

text \<open>The planner visits every row once.\<close>

definition plan_perm :: "pg \<Rightarrow> bool" where
  "plan_perm s \<longleftrightarrow> (\<forall>xs. mset (pg_plan s xs) = mset xs)"

lemma scan_id: "scanFullMessage t mid = Some m \<Longrightarrow> MessageID m = mid"
  by (auto simp: scanFullMessage_def split: option.splits)

lemma joined_ids: "map MessageID (joined s t) = filter (\<lambda>mid. scanFullMessage t mid \<noteq> None) (pg_plan s (t_ids t))"
proof -
  have "map MessageID (List.map_filter (scanFullMessage t) ids) = filter (\<lambda>mid. scanFullMessage t mid \<noteq> None) ids"
    for ids by (induction ids) (auto simp: List.map_filter_def scan_id)
  then show ?thesis by (simp add: joined_def)
qed

lemma joined_distinct:
  assumes "schema_ok t" and "plan_perm s"
  shows "distinct (map MessageID (joined s t))"
proof -
  have "mset (pg_plan s (t_ids t)) = mset (t_ids t)" using assms(2) by (simp add: plan_perm_def)
  then have "distinct (pg_plan s (t_ids t))"
    using assms(1) by (metis mset_eq_imp_distinct_iff schema_ok_def)
  then show ?thesis unfolding joined_ids by (rule distinct_filter)
qed

lemma joined_set:
  assumes "schema_ok t" and "plan_perm s"
  shows "m \<in> set (joined s t) \<longleftrightarrow> scanFullMessage t (MessageID m) = Some m"
proof -
  have "set (pg_plan s (t_ids t)) = set (t_ids t)"
    using assms(2) unfolding plan_perm_def by (metis set_mset_mset)
  moreover have "scanFullMessage t mid = Some m \<Longrightarrow> mid \<in> set (t_ids t)" for mid
    using assms(1) by (auto simp: schema_ok_def row_schema_def scanFullMessage_def split: option.splits)
  moreover have "m \<in> set (List.map_filter f xs) \<longleftrightarrow> (\<exists>x \<in> set xs. f x = Some m)"
    for f :: "string \<Rightarrow> message option" and xs
    by (induction xs) (auto simp: List.map_filter_simps split: option.splits)
  ultimately show ?thesis
    unfolding joined_def scanFullMessageFromRows_def using scan_id [of t _ m] by metis
qed

section \<open>Pages\<close>

text \<open>The cursor of a row survives the codec.\<close>

definition codec_ok :: "cursor_json \<Rightarrow> cursor \<Rightarrow> bool" where
  "codec_ok j c \<longleftrightarrow> (\<exists>b. cj_Marshal j c = Inr b \<and> b \<noteq> [] \<and> cj_Unmarshal j b = Inr c)"

lemma cursor_roundtrip:
  assumes "codec_ok j c"
  shows "decodeCursor j (encodeCursor j c) = Inr c" "encodeCursor j c \<noteq> []"
  using assms by (auto simp: codec_ok_def decodeCursor_def encodeCursor_def)

text \<open>The whole listing: the rows the conditions select, in order.\<close>

definition listing :: "(string \<Rightarrow> string \<Rightarrow> bool) \<Rightarrow> bool \<Rightarrow> (message \<Rightarrow> bool) list \<Rightarrow> pg \<Rightarrow> message list" where
  "listing le desc conditions s =
     order_by (row_order le desc) (filter (\<lambda>m. list_all (\<lambda>p. p m) conditions) (joined s (pg_tables s)))"

lemma listing_sorted: "total_order le \<Longrightarrow> sorted_wrt (row_order le desc) (listing le desc cs s)"
  by (simp add: listing_def sorted_order_by row_order_total)

lemma listing_distinct:
  assumes "schema_ok (pg_tables s)" and "plan_perm s"
  shows "distinct (map cursor_of (listing le desc cs s))" "distinct (map MessageID (listing le desc cs s))"
proof -
  have "mset (map MessageID (listing le desc cs s)) =
      mset (map MessageID (filter (\<lambda>m. list_all (\<lambda>p. p m) cs) (joined s (pg_tables s))))"
    by (simp add: listing_def)
  then have "distinct (map MessageID (listing le desc cs s)) =
      distinct (map MessageID (filter (\<lambda>m. list_all (\<lambda>p. p m) cs) (joined s (pg_tables s))))"
    by (rule mset_eq_imp_distinct_iff)
  then show d: "distinct (map MessageID (listing le desc cs s))"
    using joined_distinct [OF assms] by (simp add: distinct_map_filter)
  have "map MessageID xs = map cu_MessageID (map cursor_of xs)" for xs by (simp add: cursor_of_def)
  with d show "distinct (map cursor_of (listing le desc cs s))" by (metis distinct_map)
qed

lemma select_page_from:
  assumes le: "total_order le" and s: "pg_faults s = []" "schema_ok (pg_tables s)" "plan_perm s"
    and limit: "0 < limit"
    and cur: "cur = [] \<and> k = 0 \<or>
      cur \<noteq> [] \<and> 0 < k \<and> k \<le> length (listing le desc cs s) \<and>
      decodeCursor j cur = Inr (cursor_of (listing le desc cs s ! (k - 1)))"
  shows "select_page j le c1 c2 desc limit cur cs s =
     (s, Inr (page_result j limit (take (limit + 1) (drop k (listing le desc cs s)))))"
proof -
  let ?L = "listing le desc cs s" and ?t = "pg_tables s"
  have t: "tick s = s" using s(1) by (simp add: tick_def)
  have q: "query_rows c1 c2 f s = (s, Inr (f ?t))" for f :: "tables \<Rightarrow> message list"
    using s(1) by (simp add: query_rows_def t Let_def)
  show ?thesis
  proof (cases "cur = []")
    case True
    with cur q show ?thesis by (simp add: select_page_def listing_def)
  next
    case False
    let ?a = "?L ! (k - 1)"
    have k: "k - 1 < length ?L" "decodeCursor j cur = Inr (cursor_of ?a)" "Suc (k - 1) = k"
      using cur False by auto
    have "filter (\<lambda>m. list_all (\<lambda>p. p m) (cs @ [cursor_condition le desc (cursor_of ?a)])) (joined s ?t) =
        filter (\<lambda>m. row_order le desc ?a m \<and> cursor_of m \<noteq> cursor_of ?a)
          (filter (\<lambda>m. list_all (\<lambda>p. p m) cs) (joined s ?t))"
      by (auto simp: cursor_condition_after intro: filter_cong)
    then have "order_by (row_order le desc)
        (filter (\<lambda>m. list_all (\<lambda>p. p m) (cs @ [cursor_condition le desc (cursor_of ?a)])) (joined s ?t)) =
        filter (\<lambda>m. row_order le desc ?a m \<and> cursor_of m \<noteq> cursor_of ?a) ?L"
      unfolding listing_def by (simp only: filter_order_by [OF row_order_total [OF le]])
    also have "\<dots> = drop k ?L"
      using filter_after [OF listing_sorted [OF le] listing_distinct(1) [OF s(2,3)] k(1)
          row_order_antisym [OF le]] k(3) by simp
    finally have d: "order_by (row_order le desc)
        (filter (\<lambda>m. list_all (\<lambda>p. p m) (cs @ [cursor_condition le desc (cursor_of ?a)])) (joined s ?t)) =
        drop k ?L" .
    show ?thesis
      using False k(2) unfolding d [symmetric] by (simp add: select_page_def q del: list_all_append)
  qed
qed

text \<open>A client that follows the cursors, for at most \<open>n\<close> pages.\<close>

fun all_pages :: "nat \<Rightarrow> (string \<Rightarrow> error + MessageListResult) \<Rightarrow> string \<Rightarrow> (error + message list) option" where
  "all_pages 0 q cur = None"
| "all_pages (Suc n) q cur =
     (case q cur of
        Inl e \<Rightarrow> Some (Inl e)
      | Inr r \<Rightarrow>
          if lr_NextCursor r = [] then Some (Inr (lr_Messages r))
          else map_option (map_sum id (\<lambda>ms. lr_Messages r @ ms)) (all_pages n q (lr_NextCursor r)))"

lemma all_pages_from:
  assumes le: "total_order le" and s: "pg_faults s = []" "schema_ok (pg_tables s)" "plan_perm s"
    and limit: "0 < limit" and codec: "\<forall>m \<in> set (listing le desc cs s). codec_ok j (cursor_of m)"
    and q: "\<And>cur. q cur = snd (select_page j le c1 c2 desc limit cur cs s)"
    and cur: "cur = [] \<and> k = 0 \<or>
      cur \<noteq> [] \<and> 0 < k \<and> k \<le> length (listing le desc cs s) \<and>
      decodeCursor j cur = Inr (cursor_of (listing le desc cs s ! (k - 1)))"
    and n: "length (listing le desc cs s) - k < n"
  shows "all_pages n q cur = Some (Inr (drop k (listing le desc cs s)))"
  using cur n
proof (induction n arbitrary: cur k)
  case (Suc n)
  let ?L = "listing le desc cs s"
  let ?xs = "take (limit + 1) (drop k ?L)"
  have page: "q cur = Inr (page_result j limit ?xs)"
    using select_page_from [OF le s limit Suc.prems(1)] by (simp add: q)
  show ?case
  proof (cases "length (drop k ?L) > limit")
    case False
    with page show ?thesis by (simp add: page_result_def)
  next
    case True
    let ?k = "k + limit" and ?c = "encodeCursor j (cursor_of (?L ! (k + (limit - 1))))"
    have k: "k + (limit - 1) < length ?L" "?k < length ?L" "?k - 1 = k + (limit - 1)"
      using True limit by auto
    have r: "page_result j limit ?xs =
        \<lparr>lr_Messages = take limit (drop k ?L), lr_NextCursor = ?c\<rparr>"
      using True limit k(1) by (simp add: page_result_def min_def)
    have ok: "codec_ok j (cursor_of (?L ! (k + (limit - 1))))" using codec k(1) by simp
    have "all_pages n q ?c = Some (Inr (drop ?k ?L))"
      by (rule Suc.IH) (use cursor_roundtrip [OF ok] k limit Suc.prems(2) in auto)
    then have "all_pages (Suc n) q cur = Some (Inr (take limit (drop k ?L) @ drop ?k ?L))"
      using cursor_roundtrip(2) [OF ok] unfolding all_pages.simps page r by simp
    then show ?thesis by (metis add.commute append_take_drop_id drop_drop)
  qed
qed simp

section \<open>The two paged endpoints\<close>

lemma cond_iff:
  "list_all (\<lambda>p. p m) (text_cond x col) \<longleftrightarrow> x = [] \<or> col m = Some x"
  "list_all (\<lambda>p. p m) (opt_cond v p) \<longleftrightarrow> (case v of None \<Rightarrow> True | Some u \<Rightarrow> p u m)"
  by (simp_all add: text_cond_def opt_cond_def split: option.split)

definition selected :: "MessageFilter \<Rightarrow> message \<Rightarrow> bool" where
  "selected f m \<longleftrightarrow>
     (mf_Protocol f = [] \<or> msg_Protocol m = mf_Protocol f) \<and>
     (mf_Status f = [] \<or> msg_Status m = mf_Status f) \<and>
     (case mf_SrcChain f of None \<Rightarrow> True | Some c \<Rightarrow> src_ChainID (msg_Source m) = c) \<and>
     (case mf_DstChain f of None \<Rightarrow> True | Some c \<Rightarrow> map_option dst_ChainID (msg_Destination m) = Some c) \<and>
     (mf_Sender f = [] \<or> src_Sender (msg_Source m) = mf_Sender f) \<and>
     (mf_Receiver f = [] \<or> map_option dst_Receiver (msg_Destination m) = Some (mf_Receiver f)) \<and>
     (case mf_FromTS f of None \<Rightarrow> True | Some ts \<Rightarrow> ts \<le> src_Timestamp (msg_Source m)) \<and>
     (case mf_ToTS f of None \<Rightarrow> True | Some ts \<Rightarrow> src_Timestamp (msg_Source m) \<le> ts)"

lemma filter_conditions_selected: "list_all (\<lambda>p. p m) (filter_conditions f) \<longleftrightarrow> selected f m"
  unfolding filter_conditions_def selected_def list_all_append cond_iff dst_chain_is_def option.inject ..

text \<open>What a walk through all pages has to return.\<close>

definition complete_listing ::
    "(string \<Rightarrow> string \<Rightarrow> bool) \<Rightarrow> bool \<Rightarrow> (message \<Rightarrow> bool) \<Rightarrow> pg \<Rightarrow> message list \<Rightarrow> bool" where
  "complete_listing le desc P s ms \<longleftrightarrow> distinct (map MessageID ms) \<and> sorted_wrt (row_order le desc) ms \<and>
     set ms = {m. scanFullMessage (pg_tables s) (MessageID m) = Some m \<and> P m}"

lemma listing_complete:
  assumes "total_order le" and "schema_ok (pg_tables s)" and "plan_perm s"
    and "\<And>m. list_all (\<lambda>p. p m) cs \<longleftrightarrow> P m"
  shows "complete_listing le desc P s (listing le desc cs s)"
proof -
  have "set (listing le desc cs s) = {m. scanFullMessage (pg_tables s) (MessageID m) = Some m \<and> P m}"
    unfolding listing_def set_order_by set_filter joined_set [OF assms(2,3)] assms(4) ..
  with listing_sorted [OF assms(1)] listing_distinct(2) [OF assms(2,3)] show ?thesis
    unfolding complete_listing_def by blast
qed

lemma length_listing: "length (listing le desc cs s) \<le> length (joined s (pg_tables s))"
  by (simp add: listing_def)

lemma clamp_limit_bounds: "0 < clamp_limit l" "clamp_limit l \<le> 100"
  by (auto simp: clamp_limit_def)

text \<open>
  C31: listing messages page by page. Following the next cursors from the first page on, whatever the
  filters, the order and the page size, ends and returns every stored message the filter selects,
  each once, in the requested order of creation time and id.
\<close>

theorem list_pages_complete:
  assumes "total_order le" and "pg_faults s = []" and "schema_ok (pg_tables s)" and "plan_perm s"
    and "\<forall>m \<in> set (joined s (pg_tables s)). codec_ok j (cursor_of m)"
  shows "\<exists>ms. all_pages (Suc (length (joined s (pg_tables s))))
       (\<lambda>cur. snd (List_messages j le (f\<lparr>mf_Cursor := cur\<rparr>) s)) [] = Some (Inr ms) \<and>
     complete_listing le (mf_SortOrder f \<noteq> ''asc'') (selected f) s ms"
proof -
  let ?desc = "mf_SortOrder f \<noteq> ''asc''"
  have conds: "filter_conditions (f\<lparr>mf_Cursor := cur\<rparr>) = filter_conditions f" for cur
    by (simp add: filter_conditions_def)
  have q: "snd (List_messages j le (f\<lparr>mf_Cursor := cur\<rparr>) s) =
      snd (select_page j le ''listing messages'' ''iterating message rows'' ?desc
        (clamp_limit (mf_Limit f)) cur (filter_conditions f) s)" for cur
    by (simp add: List_messages_def conds)
  have codec: "\<forall>m \<in> set (listing le ?desc (filter_conditions f) s). codec_ok j (cursor_of m)"
    using assms(5) by (simp add: listing_def)
  have "all_pages (Suc (length (joined s (pg_tables s))))
       (\<lambda>cur. snd (List_messages j le (f\<lparr>mf_Cursor := cur\<rparr>) s)) [] =
     Some (Inr (drop 0 (listing le ?desc (filter_conditions f) s)))"
    using length_listing [of le ?desc "filter_conditions f" s]
    by (intro all_pages_from [OF assms(1-4) clamp_limit_bounds(1) codec q]) simp_all
  with listing_complete [OF assms(1,3,4) filter_conditions_selected] show ?thesis by auto
qed

definition in_history :: "string \<Rightarrow> AddressHistoryFilter \<Rightarrow> message \<Rightarrow> bool" where
  "in_history address f m \<longleftrightarrow>
     (src_Sender (msg_Source m) = address \<or> map_option dst_Receiver (msg_Destination m) = Some address) \<and>
     (hf_Protocol f = [] \<or> msg_Protocol m = hf_Protocol f) \<and>
     (hf_Status f = [] \<or> msg_Status m = hf_Status f) \<and>
     (case hf_SrcChain f of None \<Rightarrow> True | Some c \<Rightarrow> src_ChainID (msg_Source m) = c) \<and>
     (case hf_DstChain f of None \<Rightarrow> True | Some c \<Rightarrow> map_option dst_ChainID (msg_Destination m) = Some c)"

lemma history_conditions_in:
  "list_all (\<lambda>p. p m) (matching_id address # history_conditions f) \<longleftrightarrow> in_history address f m"
  unfolding history_conditions_def in_history_def list_all_append list.pred_inject cond_iff
    dst_chain_is_def matching_id_def option.inject ..

text \<open>
  C32: the history of an address. Following its cursors returns every stored message the address sent
  or received that passes the filters, each once, also when the address is both sender and receiver.
\<close>

theorem history_pages_complete:
  assumes "total_order le" and "pg_faults s = []" and "schema_ok (pg_tables s)" and "plan_perm s"
    and "\<forall>m \<in> set (joined s (pg_tables s)). codec_ok j (cursor_of m)" and "address \<noteq> []"
  shows "\<exists>ms. all_pages (Suc (length (joined s (pg_tables s))))
       (\<lambda>cur. snd (GetAddressHistory j le address (f\<lparr>hf_Cursor := cur\<rparr>) s)) [] = Some (Inr ms) \<and>
     complete_listing le (map ascii_lower (hf_SortOrder f) \<noteq> ''asc'') (in_history address f) s ms"
proof -
  let ?desc = "map ascii_lower (hf_SortOrder f) \<noteq> ''asc''"
  let ?cs = "matching_id address # history_conditions f"
  have conds: "history_conditions (f\<lparr>hf_Cursor := cur\<rparr>) = history_conditions f" for cur
    by (simp add: history_conditions_def)
  have q: "snd (GetAddressHistory j le address (f\<lparr>hf_Cursor := cur\<rparr>) s) =
      snd (select_page j le ''querying address history'' ''iterating address history rows'' ?desc
        (clamp_limit (hf_Limit f)) cur ?cs s)" for cur
    using assms(6) by (simp add: GetAddressHistory_def conds)
  have codec: "\<forall>m \<in> set (listing le ?desc ?cs s). codec_ok j (cursor_of m)"
    using assms(5) by (simp add: listing_def)
  have "all_pages (Suc (length (joined s (pg_tables s))))
       (\<lambda>cur. snd (GetAddressHistory j le address (f\<lparr>hf_Cursor := cur\<rparr>) s)) [] =
     Some (Inr (drop 0 (listing le ?desc ?cs s)))"
    using length_listing [of le ?desc ?cs s]
    by (intro all_pages_from [OF assms(1-4) clamp_limit_bounds(1) codec q]) simp_all
  with listing_complete [OF assms(1,3,4) history_conditions_in] show ?thesis by auto
qed

end
