(* ===== verification/Reading.thy ===== *)
theory Reading
  imports Pagination "HOL-Library.List_Lexorder" "HOL-Library.Char_ord"
begin

text \<open>
  Reading back what was stored: the message a lookup returns after it was inserted and after it
  was completed, and its trace; and examples of paged listings.
\<close>

section \<open>Lookups without faults\<close>

lemma GetByID_fault_free:
  assumes "pg_faults s = []"
  shows "GetByID mid s = (s, Inr (scanFullMessage (pg_tables s) mid))"
  using assms by (simp add: GetByID_def query_one_def tick_def split: option.splits)

lemma GetTrace_fault_free:
  assumes "pg_faults s = []" and "mid \<noteq> []"
  shows "GetTrace mid s = (s, Inr (map_option trace_of (scanFullMessage (pg_tables s) mid)))"
  using assms by (simp add: GetTrace_def query_one_def tick_def split: option.splits)

lemma fresh_rows:
  assumes "schema_ok t" and "t_messages t mid = None"
  shows "t_sources t mid = None" "t_payloads t mid = None" "t_metadata t mid = None"
    "t_destinations t mid = None"
  using assms by (auto simp: schema_ok_def row_schema_def dest: spec [of _ mid])

lemma scan_inserted:
  assumes "schema_ok t" and "t_messages t (MessageID m) = None"
  shows "scanFullMessage (upsert_spec m t) (MessageID m) = Some (m\<lparr>msg_Destination := None\<rparr>)"
  using fresh_rows [OF assms] assms(2)
  by (cases m; cases "msg_Payload m"; cases "msg_Metadata m")
     (auto simp: scanFullMessage_def upsert_spec_def Let_def upserted_message_def upserted_payload_def
       metadata_row_of_def keep_first_def scan_payload_def scan_metadata_def derefStr_def derefInt64_def
       derefUint64_def)

text \<open>The message with its destination, and the latency where both timestamps are known.\<close>

definition completed :: "message \<Rightarrow> destination \<Rightarrow> string \<Rightarrow> int \<Rightarrow> message" where
  "completed m d st now = m\<lparr>msg_Destination := Some d, msg_Status := st, UpdatedAt := now,
     msg_Metadata := map_option (\<lambda>md.
       if dst_Timestamp d > 0 \<and> src_Timestamp (msg_Source m) > 0
       then md\<lparr>md_LatencySeconds := dst_Timestamp d - src_Timestamp (msg_Source m)\<rparr> else md)
       (msg_Metadata m)\<rparr>"

lemma scan_completed:
  assumes "schema_ok t" and "t_messages t (MessageID m) = None"
  shows "scanFullMessage (destination_spec (MessageID m) d st now (upsert_spec m t)) (MessageID m) =
     Some (completed m d st now)"
  using fresh_rows [OF assms] assms(2)
  by (cases m; cases "msg_Payload m"; cases "msg_Metadata m")
     (auto simp: scanFullMessage_def upsert_spec_def destination_spec_def Let_def upserted_message_def
       upserted_payload_def metadata_row_of_def keep_first_def scan_payload_def scan_metadata_def
       derefStr_def derefInt64_def derefUint64_def completed_def latency_spec_def)

lemma stored_scan:
  assumes "pg_faults s = []" and "schema_ok (pg_tables s)" and "storable m"
    and "t_messages (pg_tables s) (MessageID m) = None"
  shows "pg_faults (fst (UpsertMessage m s)) = []"
    and "scanFullMessage (pg_tables (fst (UpsertMessage m s))) (MessageID m) = Some (m\<lparr>msg_Destination := None\<rparr>)"
    and "st \<in> message_statuses \<Longrightarrow>
      pg_faults (fst (UpdateDestination (MessageID m) d st (fst (UpsertMessage m s)))) = [] \<and>
      scanFullMessage (pg_tables (fst (UpdateDestination (MessageID m) d st (fst (UpsertMessage m s))))) (MessageID m) =
        Some (completed m d st (pg_now s))"
proof -
  have u: "UpsertMessage m s = (s\<lparr>pg_tables := upsert_spec m (pg_tables s)\<rparr>, None)"
    using assms(1,3) by (simp add: UpsertMessage_def in_tx_fault_free apply_upsert)
  show "pg_faults (fst (UpsertMessage m s)) = []"
    and "scanFullMessage (pg_tables (fst (UpsertMessage m s))) (MessageID m) = Some (m\<lparr>msg_Destination := None\<rparr>)"
    using u assms(1) scan_inserted [OF assms(2,4)] by simp_all
  have some: "t_messages (upsert_spec m (pg_tables s)) (MessageID m) \<noteq> None"
    by (simp add: upsert_spec_def Let_def)
  assume "st \<in> message_statuses"
  then have "UpdateDestination (MessageID m) d st (fst (UpsertMessage m s)) =
      (s\<lparr>pg_tables := destination_spec (MessageID m) d st (pg_now s) (upsert_spec m (pg_tables s))\<rparr>, None)"
    using u assms(1) some by (simp add: UpdateDestination_def in_tx_fault_free apply_destination)
  with scan_completed [OF assms(2,4)] assms(1) show
    "pg_faults (fst (UpdateDestination (MessageID m) d st (fst (UpsertMessage m s)))) = [] \<and>
      scanFullMessage (pg_tables (fst (UpdateDestination (MessageID m) d st (fst (UpsertMessage m s))))) (MessageID m) =
        Some (completed m d st (pg_now s))" by simp
qed

section \<open>What is read back\<close>

text \<open>
  C29: storing and reading back. A new message that was stored is read back by its id unchanged except
  that it has no destination yet; after its destination is stored, with the destination, the new
  status and time of update, and with the latency when both block times are known.
\<close>

theorem message_readback:
  assumes "pg_faults s = []" and "schema_ok (pg_tables s)" and "storable m"
    and "t_messages (pg_tables s) (MessageID m) = None" and "st \<in> message_statuses"
  shows "let s1 = fst (UpsertMessage m s); s2 = fst (UpdateDestination (MessageID m) d st s1) in
     snd (GetByID (MessageID m) s1) = Inr (Some (m\<lparr>msg_Destination := None\<rparr>)) \<and>
     snd (GetByID (MessageID m) s2) = Inr (Some (completed m d st (pg_now s)))"
  using stored_scan [OF assms(1-4)] assms(5) by (simp add: Let_def GetByID_fault_free)

text \<open>
  C30: the trace of a message. Before a destination is stored the trace of a new message, with its
  own id, protocol, type, status and payload, shows the source event alone and no latency.
  Afterwards it has the new status; it shows the destination event after the source event exactly
  when the destination has a transaction hash; and it shows a latency, the difference of the block
  times, exactly when the source time is known and the destination is later, so never one that is
  zero or negative.
\<close>

theorem trace_lifecycle:
  assumes "pg_faults s = []" and "schema_ok (pg_tables s)" and "storable m"
    and "t_messages (pg_tables s) (MessageID m) = None" and "st \<in> message_statuses"
    and "MessageID m \<noteq> []" and "msg_Metadata m = Some md" and "md_LatencySeconds md = 0"
  shows "let s1 = fst (UpsertMessage m s); s2 = fst (UpdateDestination (MessageID m) d st s1);
       sent = src_Timestamp (msg_Source m); received = dst_Timestamp d in
     (\<exists>t. snd (GetTrace (MessageID m) s1) = Inr (Some t) \<and> tr_MessageID t = MessageID m \<and>
        tr_Protocol t = msg_Protocol m \<and> tr_Type t = msg_Type m \<and> tr_Payload t = msg_Payload m \<and>
        tr_Status t = msg_Status m \<and>
        tr_Events t = [sent_event (msg_Source m)] \<and> tr_LatencySeconds t = None) \<and>
     (\<exists>t. snd (GetTrace (MessageID m) s2) = Inr (Some t) \<and> tr_MessageID t = MessageID m \<and>
        tr_Protocol t = msg_Protocol m \<and> tr_Type t = msg_Type m \<and> tr_Payload t = msg_Payload m \<and>
        tr_Status t = st \<and>
        tr_Events t = sent_event (msg_Source m) # (if dst_TxHash d \<noteq> [] then [received_event d] else []) \<and>
        tr_LatencySeconds t = (if 0 < sent \<and> sent < received then Some (received - sent) else None))"
  using stored_scan [OF assms(1-4)] assms(5-8)
  by (simp add: Let_def GetTrace_fault_free trace_of_def completed_def)

section \<open>Examples\<close>

lemma demo_fresh: "pg_faults empty_pg = []" "schema_ok (pg_tables empty_pg)"
  "t_messages (pg_tables empty_pg) (MessageID demo_message) = None"
  by (simp_all add: empty_pg_def empty_tables_def schema_ok_def row_schema_def)

theorem message_readback_witness:
  "let s2 = fst (UpdateDestination ''m1'' demo_destination StatusExecuted (fst (UpsertMessage demo_message empty_pg))) in
     snd (GetByID ''m1'' s2) = Inr (Some (completed demo_message demo_destination StatusExecuted 9))"
proof -
  have "StatusExecuted \<in> message_statuses" by (simp add: message_statuses_def)
  from message_readback [OF demo_fresh(1,2) demo_storable demo_fresh(3) this, of demo_destination]
  show ?thesis by (simp add: Let_def demo_message_def empty_pg_def)
qed

text \<open>
  A destination with transaction and a later time, and one without transaction in an earlier block.
\<close>

definition early_destination :: destination where
  "early_destination = demo_destination\<lparr>dst_TxHash := [], dst_Timestamp := 900\<rparr>"

abbreviation demo_traced :: "destination \<Rightarrow> error + TraceResponse option" where
  "demo_traced d \<equiv> snd (GetTrace (MessageID demo_message) (fst (UpdateDestination (MessageID demo_message)
     d StatusExecuted (fst (UpsertMessage demo_message empty_pg)))))"

theorem trace_lifecycle_witness:
  "(\<exists>t. demo_traced demo_destination = Inr (Some t) \<and>
     tr_LatencySeconds t = Some 60 \<and> map te_Type (tr_Events t) = [''sent'', ''received'']) \<and>
   (\<exists>t. demo_traced early_destination = Inr (Some t) \<and>
     tr_LatencySeconds t = None \<and> map te_Type (tr_Events t) = [''sent''])"
proof -
  have "StatusExecuted \<in> message_statuses" "MessageID demo_message \<noteq> []"
    "msg_Metadata demo_message = Some zero_metadata" "md_LatencySeconds zero_metadata = 0"
    by (simp_all add: message_statuses_def demo_message_def zero_metadata_def)
  note t = trace_lifecycle [OF demo_fresh(1,2) demo_storable demo_fresh(3) this, unfolded Let_def,
      THEN conjunct2]
  have "src_Timestamp (msg_Source demo_message) = 1000"
    by (simp add: demo_message_def demo_source_def)
  with t [of demo_destination] t [of early_destination] show ?thesis
    by (auto simp: demo_destination_def early_destination_def sent_event_def received_event_def)
qed

text \<open>Three messages, texts in lexicographic order, cursors marshalled as their time and text.\<close>

definition demo_ids :: "string list" where
  "demo_ids = [''m1'', ''m22'', ''m3'']"

definition demo_three :: pg where
  "demo_three = empty_pg\<lparr>pg_tables :=
     upsert_spec (demo_message\<lparr>MessageID := ''m3'', CreatedAt := 7\<rparr>)
       (upsert_spec (demo_message\<lparr>MessageID := ''m22'', CreatedAt := 5\<rparr>)
         (upsert_spec demo_message empty_tables))\<rparr>"

definition demo_json :: cursor_json where
  "demo_json = \<lparr>cj_Marshal = (\<lambda>c. Inr (of_int (cu_CreatedAt c) # map of_char (cu_MessageID c))),
     cj_Unmarshal = (\<lambda>bs. case bs of
        [] \<Rightarrow> Inl (Errorf ''unexpected end of JSON input'')
      | b # bs \<Rightarrow> Inr \<lparr>cu_CreatedAt = uint b, cu_MessageID = map (\<lambda>b. char_of (unat b)) bs\<rparr>)\<rparr>"

definition demo_filter :: MessageFilter where
  "demo_filter = \<lparr>mf_SrcChain = Some 1, mf_DstChain = None, mf_Protocol = [], mf_Status = ''pending'',
     mf_Sender = [], mf_Receiver = [], mf_FromTS = None, mf_ToTS = None, mf_Cursor = [], mf_Limit = 1,
     mf_SortOrder = ''asc''\<rparr>"

definition demo_history :: AddressHistoryFilter where
  "demo_history = \<lparr>hf_Protocol = [], hf_SrcChain = None, hf_DstChain = None, hf_Status = [],
     hf_Cursor = [], hf_Limit = 2, hf_SortOrder = ''ASC''\<rparr>"

lemma lex_total: "total_order (\<le>)"
  by (auto simp: total_order_def total_preorder_def)

lemma demo_three_facts: "pg_faults demo_three = []" "schema_ok (pg_tables demo_three)" "plan_perm demo_three"
  "t_ids (pg_tables demo_three) = demo_ids"
  by (auto simp: demo_three_def empty_pg_def plan_perm_def upsert_spec_def Let_def demo_message_def
      empty_tables_def schema_ok_def row_schema_def upserted_message_def message_types_def
      message_statuses_def demo_ids_def)

lemma demo_three_scan:
  "mid \<in> set demo_ids \<Longrightarrow> \<exists>m. scanFullMessage (pg_tables demo_three) mid = Some m \<and>
     cursor_of m = \<lparr>cu_CreatedAt = (if mid = ''m3'' then 7 else 5), cu_MessageID = mid\<rparr> \<and>
     msg_Source m = demo_source \<and> msg_Status m = ''pending''"
  by (auto simp: demo_ids_def demo_three_def scanFullMessage_def upsert_spec_def Let_def demo_message_def
      empty_tables_def upserted_message_def keep_first_def cursor_of_def StatusPending_def)

lemma demo_chars: "char_of (109 :: nat) = CHR ''m''" "char_of (49 :: nat) = CHR ''1''"
  "char_of (50 :: nat) = CHR ''2''" "char_of (51 :: nat) = CHR ''3''"
  by code_simp+

lemma demo_three_codec: "\<forall>m \<in> set (joined demo_three (pg_tables demo_three)). codec_ok demo_json (cursor_of m)"
proof
  fix m assume "m \<in> set (joined demo_three (pg_tables demo_three))"
  then have m: "scanFullMessage (pg_tables demo_three) (MessageID m) = Some m"
    using joined_set [OF demo_three_facts(2,3)] by simp
  then have mid: "MessageID m \<in> set demo_ids"
    using demo_three_facts(2,4)
    by (auto simp: schema_ok_def row_schema_def scanFullMessage_def split: option.splits)
  from demo_three_scan [OF mid] m show "codec_ok demo_json (cursor_of m)"
    using mid by (auto simp: codec_ok_def demo_json_def demo_ids_def demo_chars)
qed

lemma demo_three_all:
  assumes "\<And>m. P m \<longleftrightarrow> msg_Source m = demo_source \<and> msg_Status m = ''pending'' \<or> Q m"
    and "complete_listing le desc P demo_three ms"
  shows "set (map MessageID ms) = set demo_ids"
proof -
  have "mid \<in> MessageID ` set ms \<longleftrightarrow> mid \<in> set demo_ids" for mid
  proof
    assume "mid \<in> MessageID ` set ms"
    with assms(2) have "scanFullMessage (pg_tables demo_three) mid \<noteq> None"
      by (auto simp: complete_listing_def)
    with demo_three_facts(2,4) show "mid \<in> set demo_ids"
      by (auto simp: schema_ok_def row_schema_def scanFullMessage_def split: option.splits)
  next
    assume "mid \<in> set demo_ids"
    from demo_three_scan [OF this] obtain m where "scanFullMessage (pg_tables demo_three) mid = Some m" "P m"
      using assms(1) by blast
    with assms(2) scan_id show "mid \<in> MessageID ` set ms"
      by (fastforce simp: complete_listing_def)
  qed
  then show ?thesis by auto
qed

lemma demo_three_length: "length (joined demo_three (pg_tables demo_three)) \<le> 3"
proof -
  have "length (map MessageID (joined demo_three (pg_tables demo_three))) \<le> length (pg_plan demo_three demo_ids)"
    unfolding joined_ids demo_three_facts(4) by (rule length_filter_le)
  then show ?thesis by (simp add: demo_three_def empty_pg_def demo_ids_def)
qed

theorem list_pages_complete_witness:
  "\<exists>n ms. n \<le> 4 \<and> all_pages n (\<lambda>cur. snd (List_messages demo_json (\<le>) (demo_filter\<lparr>mf_Cursor := cur\<rparr>) demo_three)) [] =
     Some (Inr ms) \<and> distinct (map MessageID ms) \<and> set (map MessageID ms) = {''m1'', ''m22'', ''m3''}"
proof -
  from list_pages_complete [OF lex_total demo_three_facts(1-3) demo_three_codec, of demo_filter]
  obtain ms where ms: "all_pages (Suc (length (joined demo_three (pg_tables demo_three))))
      (\<lambda>cur. snd (List_messages demo_json (\<le>) (demo_filter\<lparr>mf_Cursor := cur\<rparr>) demo_three)) [] = Some (Inr ms)"
    and c: "complete_listing (\<le>) (mf_SortOrder demo_filter \<noteq> ''asc'') (selected demo_filter) demo_three ms"
    by blast
  have "selected demo_filter m \<longleftrightarrow> msg_Source m = demo_source \<and> msg_Status m = ''pending'' \<or> selected demo_filter m" for m
    by (auto simp: selected_def demo_filter_def demo_source_def)
  from demo_three_all [OF this c] c ms demo_three_length show ?thesis
    unfolding complete_listing_def demo_ids_def
    by (intro exI [of _ "Suc (length (joined demo_three (pg_tables demo_three)))"] exI [of _ ms]) simp
qed

theorem history_pages_complete_witness:
  "\<exists>n ms. n \<le> 4 \<and> all_pages n (\<lambda>cur. snd (GetAddressHistory demo_json (\<le>) ''0x01'' (demo_history\<lparr>hf_Cursor := cur\<rparr>) demo_three)) [] =
     Some (Inr ms) \<and> distinct (map MessageID ms) \<and> set (map MessageID ms) = {''m1'', ''m22'', ''m3''}"
proof -
  have "''0x01'' \<noteq> []" by simp
  from history_pages_complete [OF lex_total demo_three_facts(1-3) demo_three_codec this, of demo_history]
  obtain ms where ms: "all_pages (Suc (length (joined demo_three (pg_tables demo_three))))
      (\<lambda>cur. snd (GetAddressHistory demo_json (\<le>) ''0x01'' (demo_history\<lparr>hf_Cursor := cur\<rparr>) demo_three)) [] = Some (Inr ms)"
    and c: "complete_listing (\<le>) (map ascii_lower (hf_SortOrder demo_history) \<noteq> ''asc'')
      (in_history ''0x01'' demo_history) demo_three ms"
    by blast
  have "in_history ''0x01'' demo_history m \<longleftrightarrow>
      msg_Source m = demo_source \<and> msg_Status m = ''pending'' \<or> in_history ''0x01'' demo_history m" for m
    by (auto simp: in_history_def demo_history_def demo_source_def)
  from demo_three_all [OF this c] c ms demo_three_length show ?thesis
    unfolding complete_listing_def demo_ids_def
    by (intro exI [of _ "Suc (length (joined demo_three (pg_tables demo_three)))"] exI [of _ ms]) simp
qed

end
