(* ===== verification/Handlers.thy ===== *)
theory Handlers
  imports Reading
begin

text \<open>
  The HTTP handlers of messages, transactions, address histories and traces
  (\<open>internal/api/message_handler.go\<close>, \<open>address_trace_handler.go\<close>): a handler is a function of the
  querier, the request and the querier's state to the response. Routing, headers and the JSON
  rendering of a response are outside.
\<close>

section \<open>Requests and responses\<close>

text \<open>\<open>chi.URLParam\<close> and \<open>r.URL.Query().Get\<close>; both are empty for a missing name.\<close>

record request =
  rq_Param :: "string \<Rightarrow> string"
  rq_Query :: "string \<Rightarrow> string"

datatype body =
    ErrorBody string
  | MessageBody message
  | MessagesBody (mb_Messages: "message list") (mb_NextCursor: string) (mb_Count: int)
  | TxBody string "message list" int
  | HistoryBody string "message list" int string
  | TraceBody TraceResponse

record response =
  rs_Status :: nat
  rs_Body :: body

definition StatusOK :: nat where "StatusOK = 200"
definition StatusBadRequest :: nat where "StatusBadRequest = 400"
definition StatusNotFound :: nat where "StatusNotFound = 404"
definition StatusInternalServerError :: nat where "StatusInternalServerError = 500"

lemmas http_status_defs = StatusOK_def StatusBadRequest_def StatusNotFound_def StatusInternalServerError_def

definition writeJSON :: "nat \<Rightarrow> body \<Rightarrow> response" where
  "writeJSON status v = \<lparr>rs_Status = status, rs_Body = v\<rparr>"

definition writeError :: "nat \<Rightarrow> string \<Rightarrow> response" where
  "writeError status msg = writeJSON status (ErrorBody msg)"

record 's MessageQuerier =
  mq_GetByID :: "string \<Rightarrow> 's \<Rightarrow> 's \<times> (error + message option)"
  mq_List :: "MessageFilter \<Rightarrow> 's \<Rightarrow> 's \<times> (error + MessageListResult)"
  mq_GetByTxHash :: "string \<Rightarrow> 's \<Rightarrow> 's \<times> (error + message list)"
  mq_GetAddressHistory :: "string \<Rightarrow> AddressHistoryFilter \<Rightarrow> 's \<Rightarrow> 's \<times> (error + MessageListResult)"
  mq_GetTrace :: "string \<Rightarrow> 's \<Rightarrow> 's \<times> (error + TraceResponse option)"

definition PgMessageQuerier :: "cursor_json \<Rightarrow> (string \<Rightarrow> string \<Rightarrow> bool) \<Rightarrow> pg MessageQuerier" where
  "PgMessageQuerier j le = \<lparr>mq_GetByID = GetByID, mq_List = List_messages j le,
     mq_GetByTxHash = GetByTxHash, mq_GetAddressHistory = GetAddressHistory j le, mq_GetTrace = GetTrace\<rparr>"

section \<open>Parameters\<close>

text \<open>\<open>strconv.ParseInt(s, 10, 64)\<close>, and \<open>strconv.Atoi\<close>, which differs in the error's function name only.\<close>

definition split_sign :: "string \<Rightarrow> bool \<times> string" where
  "split_sign s = (case s of
      [] \<Rightarrow> (False, [])
    | c # r \<Rightarrow> if c = CHR ''+'' then (False, r) else if c = CHR ''-'' then (True, r) else (False, s))"

definition ParseInt10 :: "string \<Rightarrow> error + int" where
  "ParseInt10 s =
     (if s = [] then Inl ErrSyntax
      else case split_sign s of
        (neg, digits) \<Rightarrow>
          (case ParseUint10 digits of
             Inl e \<Rightarrow> Inl e
           | Inr un \<Rightarrow>
               if \<not> neg \<and> un \<ge> 2 ^ 63 then Inl ErrRange
               else if neg \<and> un > 2 ^ 63 then Inl ErrRange
               else Inr (if neg then - uint un else uint un)))"

definition quoted :: "string \<Rightarrow> string" where
  "quoted s = ''\"'' @ s @ ''\"''"

definition ParseUint64Param :: "string \<Rightarrow> error + u64 option" where
  "ParseUint64Param s =
     (if s = [] then Inr None
      else case ParseUint10 s of
        Inl err \<Rightarrow> Inl (Wrapf (''invalid numeric parameter '' @ quoted s) err)
      | Inr v \<Rightarrow> Inr (Some v))"

definition ParseInt64Param :: "string \<Rightarrow> error + int option" where
  "ParseInt64Param s =
     (if s = [] then Inr None
      else case ParseInt10 s of
        Inl err \<Rightarrow> Inl (Wrapf (''invalid numeric parameter '' @ quoted s) err)
      | Inr v \<Rightarrow> Inr (Some v))"

text \<open>\<open>parseInt\<close> goes through an unsigned number; its conversion to \<open>int\<close> wraps.\<close>

definition parseInt :: "string \<Rightarrow> error + int" where
  "parseInt s =
     (case ParseUint64Param s of
        Inl err \<Rightarrow> Inl err
      | Inr None \<Rightarrow> Inr 0
      | Inr (Some v) \<Rightarrow> Inr (sint v))"

text \<open>The page size of a request: 20, or the parameter capped at 100; \<open>None\<close> when it is invalid.\<close>

definition limit_param :: "(string \<Rightarrow> error + int) \<Rightarrow> string \<Rightarrow> int option" where
  "limit_param parse ls =
     (if ls \<noteq> [] then
        (case parse ls of
           Inl _ \<Rightarrow> None
         | Inr l \<Rightarrow> if l < 1 then None else Some (if l > 100 then 100 else l))
      else Some 20)"

definition sort_param :: "string \<Rightarrow> string" where
  "sort_param so = (if so = ''asc'' \<or> so = ''desc'' then so else ''desc'')"

section \<open>Handlers\<close>

definition GetMessageHandler :: "'s MessageQuerier \<Rightarrow> request \<Rightarrow> 's \<Rightarrow> 's \<times> response" where
  "GetMessageHandler mq r s =
     (let messageID = rq_Param r ''message_id'' in
      if messageID = [] then (s, writeError StatusBadRequest ''message_id is required'')
      else
        (case mq_GetByID mq messageID s of
           (s, Inl err) \<Rightarrow> (s, writeError StatusInternalServerError ''failed to retrieve message'')
         | (s, Inr None) \<Rightarrow> (s, writeError StatusNotFound ''message not found'')
         | (s, Inr (Some msg)) \<Rightarrow> (s, writeJSON StatusOK (MessageBody msg))))"

definition list_filter :: "request \<Rightarrow> u64 option \<Rightarrow> u64 option \<Rightarrow> int option \<Rightarrow> int option \<Rightarrow> int \<Rightarrow> MessageFilter" where
  "list_filter r srcChain dstChain fromTS toTS limit =
     \<lparr>mf_SrcChain = srcChain, mf_DstChain = dstChain, mf_Protocol = rq_Query r ''protocol'',
      mf_Status = rq_Query r ''status'', mf_Sender = rq_Query r ''sender'',
      mf_Receiver = rq_Query r ''receiver'', mf_FromTS = fromTS, mf_ToTS = toTS,
      mf_Cursor = rq_Query r ''cursor'', mf_Limit = limit, mf_SortOrder = sort_param (rq_Query r ''sort'')\<rparr>"

definition ListMessagesHandler :: "'s MessageQuerier \<Rightarrow> request \<Rightarrow> 's \<Rightarrow> 's \<times> response" where
  "ListMessagesHandler mq r s =
     (case ParseUint64Param (rq_Query r ''src_chain'') of
        Inl err \<Rightarrow> (s, writeError StatusBadRequest ''invalid src_chain parameter'')
      | Inr srcChain \<Rightarrow>
     (case ParseUint64Param (rq_Query r ''dst_chain'') of
        Inl err \<Rightarrow> (s, writeError StatusBadRequest ''invalid dst_chain parameter'')
      | Inr dstChain \<Rightarrow>
     (case ParseInt64Param (rq_Query r ''from_ts'') of
        Inl err \<Rightarrow> (s, writeError StatusBadRequest ''invalid from_ts parameter'')
      | Inr fromTS \<Rightarrow>
     (case ParseInt64Param (rq_Query r ''to_ts'') of
        Inl err \<Rightarrow> (s, writeError StatusBadRequest ''invalid to_ts parameter'')
      | Inr toTS \<Rightarrow>
     (case limit_param ParseInt10 (rq_Query r ''limit'') of
        None \<Rightarrow> (s, writeError StatusBadRequest ''invalid limit parameter'')
      | Some limit \<Rightarrow>
     (case mq_List mq (list_filter r srcChain dstChain fromTS toTS limit) s of
        (s, Inl err) \<Rightarrow> (s, writeError StatusInternalServerError ''failed to list messages'')
      | (s, Inr result) \<Rightarrow>
          (s, writeJSON StatusOK (MessagesBody (lr_Messages result) (lr_NextCursor result)
                (int (length (lr_Messages result)))))))))))"

definition GetTxMessagesHandler :: "'s MessageQuerier \<Rightarrow> request \<Rightarrow> 's \<Rightarrow> 's \<times> response" where
  "GetTxMessagesHandler mq r s =
     (let txHash = rq_Param r ''tx_hash'' in
      if txHash = [] then (s, writeError StatusBadRequest ''tx_hash is required'')
      else
        (case mq_GetByTxHash mq txHash s of
           (s, Inl err) \<Rightarrow> (s, writeError StatusInternalServerError ''failed to retrieve messages'')
         | (s, Inr messages) \<Rightarrow>
             (s, writeJSON StatusOK (TxBody txHash messages (int (length messages))))))"

definition history_filter :: "request \<Rightarrow> u64 option \<Rightarrow> u64 option \<Rightarrow> int \<Rightarrow> AddressHistoryFilter" where
  "history_filter r srcChain dstChain limit =
     \<lparr>hf_Protocol = rq_Query r ''protocol'', hf_SrcChain = srcChain, hf_DstChain = dstChain,
      hf_Status = rq_Query r ''status'', hf_Cursor = rq_Query r ''cursor'', hf_Limit = limit,
      hf_SortOrder = sort_param (rq_Query r ''sort'')\<rparr>"

definition GetAddressHistoryHandler :: "'s MessageQuerier \<Rightarrow> request \<Rightarrow> 's \<Rightarrow> 's \<times> response" where
  "GetAddressHistoryHandler mq r s =
     (let address = rq_Param r ''address'' in
      if address = [] then (s, writeError StatusBadRequest ''address is required'')
      else
     (case ParseUint64Param (rq_Query r ''src_chain'') of
        Inl err \<Rightarrow> (s, writeError StatusBadRequest ''invalid src_chain parameter'')
      | Inr srcChain \<Rightarrow>
     (case ParseUint64Param (rq_Query r ''dst_chain'') of
        Inl err \<Rightarrow> (s, writeError StatusBadRequest ''invalid dst_chain parameter'')
      | Inr dstChain \<Rightarrow>
     (case limit_param parseInt (rq_Query r ''limit'') of
        None \<Rightarrow> (s, writeError StatusBadRequest ''invalid limit parameter'')
      | Some limit \<Rightarrow>
     (case mq_GetAddressHistory mq address (history_filter r srcChain dstChain limit) s of
        (s, Inl err) \<Rightarrow> (s, writeError StatusInternalServerError ''failed to retrieve address history'')
      | (s, Inr result) \<Rightarrow>
          (s, writeJSON StatusOK (HistoryBody address (lr_Messages result)
                (int (length (lr_Messages result))) (lr_NextCursor result))))))))"

definition GetTraceHandler :: "'s MessageQuerier \<Rightarrow> request \<Rightarrow> 's \<Rightarrow> 's \<times> response" where
  "GetTraceHandler mq r s =
     (let messageID = rq_Param r ''message_id'' in
      if messageID = [] then (s, writeError StatusBadRequest ''message_id is required'')
      else
        (case mq_GetTrace mq messageID s of
           (s, Inl err) \<Rightarrow> (s, writeError StatusInternalServerError ''failed to retrieve trace'')
         | (s, Inr None) \<Rightarrow> (s, writeError StatusNotFound ''message not found'')
         | (s, Inr (Some trace)) \<Rightarrow> (s, writeJSON StatusOK (TraceBody trace))))"

section \<open>What a listing request does\<close>

definition bad_limit :: "request \<Rightarrow> bool" where
  "bad_limit r \<longleftrightarrow> rq_Query r ''limit'' \<noteq> [] \<and>
     (case ParseInt10 (rq_Query r ''limit'') of Inl _ \<Rightarrow> True | Inr n \<Rightarrow> n < 1)"

definition malformed :: "request \<Rightarrow> bool" where
  "malformed r \<longleftrightarrow>
     \<not> is_ok (ParseUint64Param (rq_Query r ''src_chain'')) \<or>
     \<not> is_ok (ParseUint64Param (rq_Query r ''dst_chain'')) \<or>
     \<not> is_ok (ParseInt64Param (rq_Query r ''from_ts'')) \<or>
     \<not> is_ok (ParseInt64Param (rq_Query r ''to_ts'')) \<or> bad_limit r"

lemma limit_param_None: "limit_param ParseInt10 (rq_Query r ''limit'') = None \<longleftrightarrow> bad_limit r"
  by (simp add: limit_param_def bad_limit_def split: sum.split)

lemma limit_param_Some:
  "limit_param parse ls = Some l \<Longrightarrow>
     ls = [] \<and> l = 20 \<or> (\<exists>n. ls \<noteq> [] \<and> parse ls = Inr n \<and> 1 \<le> n \<and> l = min n 100)"
  by (auto simp: limit_param_def split: if_splits sum.splits)

lemma sort_param_eq:
  "sort_param so = (if so \<in> {''asc'', ''desc''} then so else ''desc'')"
  by (simp add: sort_param_def)

text \<open>
  C33: a listing request over any querier. A malformed number or limit is answered by 400 without a
  query. Any other request makes one query and is answered by 500 without details or by 200 with
  the page and its true count. The query asks for 20 messages when the request has no \<open>limit\<close> and
  for its \<open>limit\<close>, capped at 100, when it has one; it sorts as \<open>sort\<close> says, newest first when that
  is neither \<open>asc\<close> nor \<open>desc\<close>; and the other filters are the parameters. The API reference documents
  other limits (50 by default, 1000 at most) and other names (\<open>from_time\<close>, \<open>to_time\<close>, \<open>offset\<close>),
  which the handler does not read.
\<close>

theorem list_request:
  "if malformed r
   then \<exists>msg. ListMessagesHandler mq r s = (s, writeError StatusBadRequest msg)
   else \<exists>f.
     (rq_Query r ''limit'' = [] \<and> mf_Limit f = 20 \<or>
      (\<exists>n. rq_Query r ''limit'' \<noteq> [] \<and> ParseInt10 (rq_Query r ''limit'') = Inr n \<and> 1 \<le> n \<and>
           mf_Limit f = min n 100)) \<and>
     mf_SortOrder f = (if rq_Query r ''sort'' \<in> {''asc'', ''desc''} then rq_Query r ''sort'' else ''desc'') \<and>
     ParseUint64Param (rq_Query r ''src_chain'') = Inr (mf_SrcChain f) \<and>
     ParseUint64Param (rq_Query r ''dst_chain'') = Inr (mf_DstChain f) \<and>
     ParseInt64Param (rq_Query r ''from_ts'') = Inr (mf_FromTS f) \<and>
     ParseInt64Param (rq_Query r ''to_ts'') = Inr (mf_ToTS f) \<and>
     mf_Protocol f = rq_Query r ''protocol'' \<and> mf_Status f = rq_Query r ''status'' \<and>
     mf_Sender f = rq_Query r ''sender'' \<and> mf_Receiver f = rq_Query r ''receiver'' \<and>
     mf_Cursor f = rq_Query r ''cursor'' \<and>
     ListMessagesHandler mq r s =
       (case mq_List mq f s of
          (s', Inl err) \<Rightarrow> (s', writeError StatusInternalServerError ''failed to list messages'')
        | (s', Inr res) \<Rightarrow> (s', writeJSON StatusOK
             (MessagesBody (lr_Messages res) (lr_NextCursor res) (int (length (lr_Messages res))))))"
proof (cases "malformed r")
  case True
  then show ?thesis
    by (auto simp: malformed_def limit_param_None [symmetric] ListMessagesHandler_def
        split: sum.split option.split)
next
  case False
  then obtain a b c d l where p: "ParseUint64Param (rq_Query r ''src_chain'') = Inr a"
    "ParseUint64Param (rq_Query r ''dst_chain'') = Inr b"
    "ParseInt64Param (rq_Query r ''from_ts'') = Inr c" "ParseInt64Param (rq_Query r ''to_ts'') = Inr d"
    "limit_param ParseInt10 (rq_Query r ''limit'') = Some l"
    by (auto simp: malformed_def limit_param_None [symmetric] is_ok_iff)
  show ?thesis
    unfolding if_not_P [OF False]
    by (rule exI [of _ "list_filter r a b c d l"], use limit_param_Some [OF p(5)] in
        \<open>simp add: ListMessagesHandler_def p list_filter_def sort_param_eq\<close>)
qed

text \<open>A querier that records the filters it is asked for and finds nothing.\<close>

definition recorder :: "MessageFilter list MessageQuerier" where
  "recorder = \<lparr>mq_GetByID = (\<lambda>_ s. (s, Inr None)),
     mq_List = (\<lambda>f s. (s @ [f], Inr \<lparr>lr_Messages = [], lr_NextCursor = []\<rparr>)),
     mq_GetByTxHash = (\<lambda>_ s. (s, Inr [])),
     mq_GetAddressHistory = (\<lambda>_ _ s. (s, Inr \<lparr>lr_Messages = [], lr_NextCursor = []\<rparr>)),
     mq_GetTrace = (\<lambda>_ s. (s, Inr None))\<rparr>"

definition limit_request :: "string \<Rightarrow> request" where
  "limit_request ls = \<lparr>rq_Param = (\<lambda>_. []), rq_Query = (\<lambda>k. if k = ''limit'' then ls else [])\<rparr>"

lemma limit_request_values:
  "ParseInt10 ''1000'' = Inr 1000" "ParseInt10 ''50'' = Inr 50" "ParseInt10 ''0'' = Inr 0"
  "\<exists>e. ParseInt10 ''ten'' = Inl e"
  by (simp_all add: ParseInt10_def split_sign_def ParseUint10_def digit_val_def)

lemma limit_request_ok:
  "malformed (limit_request ls) \<longleftrightarrow>
     ls \<noteq> [] \<and> (case ParseInt10 ls of Inl _ \<Rightarrow> True | Inr n \<Rightarrow> n < 1)"
  by (simp add: malformed_def bad_limit_def limit_request_def ParseUint64Param_def ParseInt64Param_def
      is_ok_iff)

theorem list_request_witness:
  "map mf_Limit (fst (ListMessagesHandler recorder (limit_request []) [])) = [20] \<and>
   map mf_Limit (fst (ListMessagesHandler recorder (limit_request ''50'') [])) = [50] \<and>
   map mf_Limit (fst (ListMessagesHandler recorder (limit_request ''1000'') [])) = [100] \<and>
   (\<exists>msg. ListMessagesHandler recorder (limit_request ''0'') [] = ([], writeError StatusBadRequest msg)) \<and>
   (\<exists>msg. ListMessagesHandler recorder (limit_request ''ten'') [] = ([], writeError StatusBadRequest msg))"
proof -
  have good: "map mf_Limit (fst (ListMessagesHandler recorder (limit_request ls) [])) =
      [if ls = [] then 20 else min n 100]"
    if "ls \<noteq> [] \<Longrightarrow> ParseInt10 ls = Inr n" and "1 \<le> n" for ls n
  proof -
    have ok: "\<not> malformed (limit_request ls)" using that by (auto simp: limit_request_ok)
    have "rq_Query (limit_request ls) ''limit'' = ls" by (simp add: limit_request_def)
    with list_request [of "limit_request ls" recorder "[]", unfolded if_not_P [OF ok]] that
    show ?thesis by (auto simp: recorder_def)
  qed
  have bad: "\<exists>msg. ListMessagesHandler recorder (limit_request ls) [] = ([], writeError StatusBadRequest msg)"
    if "malformed (limit_request ls)" for ls
    using list_request [of "limit_request ls" recorder "[]"] by (simp only: that if_True)
  show ?thesis
    using good [of "[]" 1] good [OF limit_request_values(2)] good [OF limit_request_values(1)]
      bad [of "''0''"] bad [of "''ten''"] limit_request_values(4)
    by (auto simp: limit_request_ok limit_request_values(3))
qed

end
