(* ===== verification/Config.thy ===== *)
theory Config
  imports Prelude
begin

text \<open>
  The configuration, \<open>internal/config/config.go\<close>. Reading the file and the environment is the
  library viper's: \<open>Load\<close> takes its outcome. A map of chains is an association list, in the order
  in which Go happens to range over it. Durations are in nanoseconds; \<open>int\<close> fields are integers.
\<close>

section \<open>The structs\<close>

record Database =
  db_Host :: string
  db_Port :: int
  db_User :: string
  db_Password :: string
  db_DBName :: string
  db_SSLMode :: string
  db_MaxOpenConns :: int
  db_MaxIdleConns :: int

record Chain =
  ch_Name :: string
  ch_RPCURLs :: "string list"
  ch_RPCURL :: string
  ch_ConfirmationDepth :: u64
  ch_MaxBlockRange :: u64
  ch_RateLimit :: int

record Akave =
  ak_Endpoint :: string
  ak_AccessKey :: string
  ak_SecretKey :: string
  ak_BucketName :: string
  ak_UseSSL :: bool
  ak_Region :: string

record IndexerConfig =
  ic_BatchSize :: int
  ic_PollInterval :: int
  ic_ArchiveInterval :: int

record API =
  api_Port :: int
  api_ReadTimeout :: int
  api_WriteTimeout :: int
  api_CORSAllowedOrigins :: "string list"

record Logging =
  lg_Level :: string
  lg_Pretty :: bool

record Config =
  cf_Database :: Database
  cf_Chains :: "(u64 \<times> Chain) list"
  cf_Akave :: Akave
  cf_Indexer :: IndexerConfig
  cf_API :: API
  cf_Logging :: Logging

section \<open>Operations\<close>

definition DSN :: "Database \<Rightarrow> string" where
  "DSN d = ''postgres://'' @ db_User d @ '':'' @ db_Password d @ ''@'' @ db_Host d @ '':''
     @ dec_int (db_Port d) @ ''/'' @ db_DBName d @ ''?sslmode='' @ db_SSLMode d"

definition normalizeChainURLs :: "Config \<Rightarrow> Config" where
  "normalizeChainURLs c =
     c\<lparr>cf_Chains := map (\<lambda>(cid, ch).
        (cid,
         if ch_RPCURL ch \<noteq> [] then
           let found = list_ex (\<lambda>u. u = ch_RPCURL ch) (ch_RPCURLs ch);
               ch = (if \<not> found then ch\<lparr>ch_RPCURLs := ch_RPCURL ch # ch_RPCURLs ch\<rparr> else ch)
           in ch\<lparr>ch_RPCURL := []\<rparr>
         else ch)) (cf_Chains c)\<rparr>"

fun validate_chains :: "(u64 \<times> Chain) list \<Rightarrow> error option" where
  "validate_chains [] = None"
| "validate_chains ((cid, ch) # rest) =
     (if length (ch_RPCURLs ch) = 0
      then Some (Errorf (''chains.'' @ dec_word cid @ '': at least one rpc_url or rpc_urls entry is required''))
      else validate_chains rest)"

definition validate :: "Config \<Rightarrow> error option" where
  "validate c =
     (if db_Host (cf_Database c) = [] then Some (Errorf ''database.host is required'')
      else if db_DBName (cf_Database c) = [] then Some (Errorf ''database.dbname is required'')
      else if length (cf_Chains c) = 0 then Some (Errorf ''at least one chain must be configured'')
      else validate_chains (cf_Chains c))"

text \<open>\<open>read\<close> is the outcome of \<open>ReadInConfig\<close>, \<open>unmarshal\<close> that of \<open>Unmarshal\<close>.\<close>

definition Load :: "error option \<Rightarrow> error + Config \<Rightarrow> error + Config" where
  "Load read unmarshal =
     (case read of
        Some err \<Rightarrow> Inl (Wrapf ''reading config file'' err)
      | None \<Rightarrow>
          (case unmarshal of
             Inl err \<Rightarrow> Inl (Wrapf ''unmarshaling config'' err)
           | Inr cfg \<Rightarrow>
               let cfg = normalizeChainURLs cfg in
               (case validate cfg of
                  Some err \<Rightarrow> Inl (Wrapf ''validating config'' err)
                | None \<Rightarrow> Inr cfg)))"

section \<open>Properties\<close>

text \<open>The endpoints a chain is configured with, the legacy one first unless it is listed.\<close>

definition configured_urls :: "Chain \<Rightarrow> string list" where
  "configured_urls ch =
     (if ch_RPCURL ch = [] \<or> ch_RPCURL ch \<in> set (ch_RPCURLs ch) then ch_RPCURLs ch
      else ch_RPCURL ch # ch_RPCURLs ch)"

lemma normalizeChainURLs_chains:
  "cf_Chains (normalizeChainURLs c) =
     map (\<lambda>(cid, ch). (cid, ch\<lparr>ch_RPCURLs := configured_urls ch, ch_RPCURL := []\<rparr>)) (cf_Chains c)"
  by (auto simp: normalizeChainURLs_def configured_urls_def list_ex_iff Let_def)

lemma normalizeChainURLs_frame:
  "cf_Database (normalizeChainURLs c) = cf_Database c"
  by (simp add: normalizeChainURLs_def)

lemma validate_chains_iff: "validate_chains cs = None \<longleftrightarrow> (\<forall>(cid, ch) \<in> set cs. ch_RPCURLs ch \<noteq> [])"
  by (induction cs rule: validate_chains.induct) auto

lemma configured_urls_empty: "configured_urls ch = [] \<longleftrightarrow> ch_RPCURL ch = [] \<and> ch_RPCURLs ch = []"
  by (auto simp: configured_urls_def)

text \<open>
  C28: loading. A configuration that can be read is accepted exactly when it names a database host
  and name, at least one chain, and for every chain at least one endpoint in either form; the
  loaded chains then have, in place of the two forms, the list of all configured endpoints in
  order, the legacy one first unless it is listed anyway, and normalizing again changes nothing.
\<close>

theorem config_load:
  "case Load None (Inr c) of
     Inl _ \<Rightarrow> db_Host (cf_Database c) = [] \<or> db_DBName (cf_Database c) = [] \<or> cf_Chains c = [] \<or>
       (\<exists>(cid, ch) \<in> set (cf_Chains c). ch_RPCURL ch = [] \<and> ch_RPCURLs ch = [])
   | Inr cfg \<Rightarrow>
       db_Host (cf_Database c) \<noteq> [] \<and> db_DBName (cf_Database c) \<noteq> [] \<and> cf_Chains c \<noteq> [] \<and>
       cf_Chains cfg = map (\<lambda>(cid, ch).
         (cid, ch\<lparr>ch_RPCURLs := configured_urls ch, ch_RPCURL := []\<rparr>)) (cf_Chains c) \<and>
       list_all (\<lambda>(cid, ch). ch_RPCURLs ch \<noteq> []) (cf_Chains cfg) \<and>
       normalizeChainURLs cfg = cfg"
proof (cases "validate (normalizeChainURLs c)")
  case (Some e)
  then have "db_Host (cf_Database c) = [] \<or> db_DBName (cf_Database c) = [] \<or> cf_Chains c = [] \<or>
      validate_chains (cf_Chains (normalizeChainURLs c)) \<noteq> None"
    by (auto simp: validate_def normalizeChainURLs_frame normalizeChainURLs_chains split: if_splits)
  then show ?thesis
    using Some
    by (auto simp: Load_def Let_def validate_chains_iff normalizeChainURLs_chains configured_urls_empty
        simp del: not_None_eq)
next
  case None
  then have v: "db_Host (cf_Database c) \<noteq> []" "db_DBName (cf_Database c) \<noteq> []" "cf_Chains c \<noteq> []"
    "\<forall>(cid, ch) \<in> set (cf_Chains (normalizeChainURLs c)). ch_RPCURLs ch \<noteq> []"
    by (auto simp: validate_def normalizeChainURLs_frame normalizeChainURLs_chains
        validate_chains_iff split: if_splits)
  have "cf_Chains (normalizeChainURLs (normalizeChainURLs c)) = cf_Chains (normalizeChainURLs c)"
    by (auto simp: normalizeChainURLs_chains configured_urls_def)
  then have "normalizeChainURLs (normalizeChainURLs c) = normalizeChainURLs c"
    by (simp add: normalizeChainURLs_def)
  with None v show ?thesis by (simp add: Load_def Let_def normalizeChainURLs_chains list_all_iff)
qed

end
