(* ===== verification/ChainClient.thy ===== *)
theory ChainClient
  imports Types Config
begin

text \<open>
  The RPC client of one chain and the manager of all, \<open>internal/chain\<close>. The RPC endpoints, the
  rate limiter, the timer and the context are outside the program: they act on a world of any
  type, and the client's operations pass that world along. What is the program's is the retry and
  failover loop, the confirmation depth and the chunking of block ranges.
\<close>

section \<open>The outside world\<close>

text \<open>The fields of \<open>types.Header\<close> the program reads; hashes are rendered by \<open>Hex\<close>.\<close>

record header =
  hd_Hash :: string
  hd_ParentHash :: string
  hd_Time :: u64

record filter_query =
  fq_FromBlock :: u64
  fq_ToBlock :: u64
  fq_Addresses :: "bytes list"
  fq_Topics :: "bytes list list"

record 'w EthClient =
  ec_BlockNumber :: "'w \<Rightarrow> 'w \<times> (error + u64)"
  ec_FilterLogs :: "filter_query \<Rightarrow> 'w \<Rightarrow> 'w \<times> (error + eth_log list)"
  ec_HeaderByNumber :: "u64 \<Rightarrow> 'w \<Rightarrow> 'w \<times> (error + header)"
  ec_Close :: "'w \<Rightarrow> 'w"

text \<open>
  \<open>rt_Wait\<close> is \<open>limiter.Wait\<close>; \<open>rt_Err\<close> is \<open>ctx.Err()\<close>; \<open>rt_After n\<close> is the \<open>select\<close> on a timer
  of \<open>n\<close> seconds and \<open>ctx.Done()\<close>, returning \<open>ctx.Err()\<close> when the context was done first;
  \<open>rt_Sleep\<close> is \<open>time.Sleep\<close> and \<open>rt_Now\<close> is \<open>time.Now\<close>.
\<close>

record 'w runtime =
  rt_Wait :: "'w \<Rightarrow> 'w \<times> error option"
  rt_Err :: "'w \<Rightarrow> error option"
  rt_After :: "nat \<Rightarrow> 'w \<Rightarrow> 'w \<times> error option"
  rt_Sleep :: "int \<Rightarrow> 'w \<Rightarrow> 'w"
  rt_Now :: "'w \<Rightarrow> int"

section \<open>The client\<close>

definition maxRetries :: nat where "maxRetries = 3"
definition baseBackoff :: nat where "baseBackoff = 1"
definition backoffFactor :: nat where "backoffFactor = 2"

record 'w Client =
  cl_endpoints :: "'w EthClient list"
  cl_chainID :: u64
  cl_name :: string
  cl_confirmationDepth :: u64
  cl_maxBlockRange :: u64
  cl_rateLimit :: int

definition primary :: "'w Client \<Rightarrow> 'w EthClient" where
  "primary c = cl_endpoints c ! 0"

definition failover :: "'w Client \<Rightarrow> 'w Client" where
  "failover c =
     (if length (cl_endpoints c) > 1
      then c\<lparr>cl_endpoints := drop 1 (cl_endpoints c) @ [cl_endpoints c ! 0]\<rparr> else c)"

text \<open>
  The loop of \<open>withRetry\<close>: \<open>call\<close> is the closure, with the value it captures as its result. Its
  state is the client, whose endpoints rotate, and the world.
\<close>

function retry_loop ::
    "'w runtime \<Rightarrow> ('w Client \<Rightarrow> 'w \<Rightarrow> 'w \<times> (error + 'a)) \<Rightarrow> nat \<Rightarrow> error \<Rightarrow> 'w Client \<Rightarrow> 'w
      \<Rightarrow> ('w Client \<times> 'w) \<times> (error + 'a)" where
  "retry_loop rt call attempt lastErr c w =
     (if attempt < maxRetries then
        (case call c w of
           (w, Inr x) \<Rightarrow> ((c, w), Inr x)
         | (w, Inl lastErr) \<Rightarrow>
             (case rt_Err rt w of
                Some e \<Rightarrow> ((c, w), Inl e)
              | None \<Rightarrow>
                  let backoff = baseBackoff * backoffFactor ^ attempt;
                      c = failover c in
                  if attempt < maxRetries - 1 then
                    (case rt_After rt backoff w of
                       (w, Some e) \<Rightarrow> ((c, w), Inl e)
                     | (w, None) \<Rightarrow> retry_loop rt call (attempt + 1) lastErr c w)
                  else retry_loop rt call (attempt + 1) lastErr c w))
      else ((c, w), Inl (Wrapf (''after '' @ dec maxRetries @ '' attempts'') lastErr)))"
  by pat_completeness auto
termination
  by (relation "measure (\<lambda>(rt, call, attempt, lastErr, c, w). maxRetries - attempt)") auto

declare retry_loop.simps [simp del]

definition withRetry ::
    "'w runtime \<Rightarrow> ('w Client \<Rightarrow> 'w \<Rightarrow> 'w \<times> (error + 'a)) \<Rightarrow> 'w Client \<Rightarrow> 'w
      \<Rightarrow> ('w Client \<times> 'w) \<times> (error + 'a)" where
  "withRetry rt call c w = retry_loop rt call 0 (Errorf ''%!w(<nil>)'') c w"

text \<open>A closure: wait for the limiter, then ask the primary endpoint.\<close>

definition limited ::
    "'w runtime \<Rightarrow> ('w EthClient \<Rightarrow> 'w \<Rightarrow> 'w \<times> (error + 'a)) \<Rightarrow> 'w Client \<Rightarrow> 'w \<Rightarrow> 'w \<times> (error + 'a)" where
  "limited rt ask c w =
     (case rt_Wait rt w of
        (w, Some err) \<Rightarrow> (w, Inl (Wrapf ''rate limiter'' err))
      | (w, None) \<Rightarrow> ask (primary c) w)"

definition LatestConfirmedBlock ::
    "'w runtime \<Rightarrow> 'w Client \<Rightarrow> 'w \<Rightarrow> ('w Client \<times> 'w) \<times> (error + u64)" where
  "LatestConfirmedBlock rt c w =
     (case withRetry rt (limited rt (\<lambda>ec. ec_BlockNumber ec)) c w of
        (s, Inl err) \<Rightarrow> (s, Inl (Wrapf ''fetching block number'' err))
      | (s, Inr blockNum) \<Rightarrow>
          if blockNum \<le> cl_confirmationDepth c then (s, Inr 0)
          else (s, Inr (blockNum - cl_confirmationDepth c)))"

text \<open>
  The chunk loop of \<open>FetchLogs\<close>. Its arithmetic is that of \<open>uint64\<close>, so it is not obvious that it
  ends: \<open>None\<close> is a loop that does not.
\<close>

partial_function (option) fetch_loop ::
    "'w runtime \<Rightarrow> u64 \<Rightarrow> bytes list \<Rightarrow> bytes list list \<Rightarrow> u64 \<Rightarrow> eth_log list \<Rightarrow> 'w Client \<Rightarrow> 'w
      \<Rightarrow> (('w Client \<times> 'w) \<times> (error + eth_log list)) option" where
  "fetch_loop rt toBlock addresses topics chunkStart allLogs c w =
     (if chunkStart \<le> toBlock then
        (let chunkEnd = chunkStart + cl_maxBlockRange c - 1;
             chunkEnd = (if chunkEnd > toBlock then toBlock else chunkEnd);
             query = \<lparr>fq_FromBlock = chunkStart, fq_ToBlock = chunkEnd, fq_Addresses = addresses,
                      fq_Topics = topics\<rparr> in
         case withRetry rt (limited rt (\<lambda>ec. ec_FilterLogs ec query)) c w of
           (s, Inl err) \<Rightarrow>
             Some (s, Inl (Wrapf (''fetching logs for blocks '' @ dec_word chunkStart @ ''-''
                                  @ dec_word chunkEnd) err))
         | ((c', w'), Inr logs) \<Rightarrow>
             fetch_loop rt toBlock addresses topics (chunkStart + cl_maxBlockRange c)
               (allLogs @ logs) c' w')
      else Some ((c, w), Inr allLogs))"

definition FetchLogs ::
    "'w runtime \<Rightarrow> u64 \<Rightarrow> u64 \<Rightarrow> bytes list \<Rightarrow> bytes list list \<Rightarrow> 'w Client \<Rightarrow> 'w
      \<Rightarrow> (('w Client \<times> 'w) \<times> (error + eth_log list)) option" where
  "FetchLogs rt fromBlock toBlock addresses topics c w =
     (if fromBlock > toBlock
      then Some ((c, w), Inl (Errorf (''fromBlock ('' @ dec_word fromBlock @ '') > toBlock (''
                                      @ dec_word toBlock @ '')'')))
      else fetch_loop rt toBlock addresses topics fromBlock [] c w)"

definition BlockHeader ::
    "'w runtime \<Rightarrow> u64 \<Rightarrow> 'w Client \<Rightarrow> 'w \<Rightarrow> ('w Client \<times> 'w) \<times> (error + header)" where
  "BlockHeader rt blockNumber c w =
     (case withRetry rt (limited rt (\<lambda>ec. ec_HeaderByNumber ec blockNumber)) c w of
        (s, Inl err) \<Rightarrow> (s, Inl (Wrapf (''fetching header for block '' @ dec_word blockNumber) err))
      | (s, Inr header) \<Rightarrow> (s, Inr header))"

text \<open>The conversion \<open>int64(header.Time)\<close> wraps.\<close>

definition BlockTimestamp ::
    "'w runtime \<Rightarrow> u64 \<Rightarrow> 'w Client \<Rightarrow> 'w \<Rightarrow> ('w Client \<times> 'w) \<times> (error + int)" where
  "BlockTimestamp rt blockNumber c w =
     (case BlockHeader rt blockNumber c w of
        (s, Inl err) \<Rightarrow> (s, Inl err)
      | (s, Inr header) \<Rightarrow> (s, Inr (sint (hd_Time header))))"

definition closeAll :: "'w Client \<Rightarrow> 'w \<Rightarrow> 'w" where
  "closeAll c w = fold ec_Close (cl_endpoints c) w"

section \<open>Connecting\<close>

text \<open>\<open>dial\<close> is \<open>ethclient.DialContext\<close>; an endpoint that cannot be dialled is skipped.\<close>

fun dial_all ::
    "(string \<Rightarrow> 'w \<Rightarrow> 'w \<times> (error + 'w EthClient)) \<Rightarrow> string list \<Rightarrow> 'w \<Rightarrow> 'w \<times> 'w EthClient list" where
  "dial_all dial [] w = (w, [])"
| "dial_all dial (url # urls) w =
     (case dial url w of
        (w, Inl err) \<Rightarrow> dial_all dial urls w
      | (w, Inr eth) \<Rightarrow> (case dial_all dial urls w of (w, es) \<Rightarrow> (w, eth # es)))"

definition new_client :: "'w EthClient list \<Rightarrow> u64 \<Rightarrow> Chain \<Rightarrow> 'w Client" where
  "new_client endpoints chainID cfg =
     \<lparr>cl_endpoints = endpoints, cl_chainID = chainID, cl_name = ch_Name cfg,
      cl_confirmationDepth = ch_ConfirmationDepth cfg,
      cl_maxBlockRange = (if ch_MaxBlockRange cfg = 0 then 1000 else ch_MaxBlockRange cfg),
      cl_rateLimit = (if ch_RateLimit cfg \<le> 0 then 10 else ch_RateLimit cfg)\<rparr>"

definition NewClient ::
    "'w runtime \<Rightarrow> (string \<Rightarrow> 'w \<Rightarrow> 'w \<times> (error + 'w EthClient)) \<Rightarrow> u64 \<Rightarrow> Chain \<Rightarrow> 'w
      \<Rightarrow> 'w \<times> (error + 'w Client)" where
  "NewClient rt dial chainID cfg w =
     (if length (ch_RPCURLs cfg) = 0
      then (w, Inl (Errorf (''no RPC URLs configured for chain '' @ dec_word chainID @ '' (''
                            @ ch_Name cfg @ '')'')))
      else
        (case dial_all dial (ch_RPCURLs cfg) w of
           (w, endpoints) \<Rightarrow>
             if length endpoints = 0
             then (w, Inl (Errorf (''all RPC endpoints unreachable for chain '' @ dec_word chainID
                                   @ '' ('' @ ch_Name cfg @ '')'')))
             else
               (case LatestConfirmedBlock rt (new_client endpoints chainID cfg) w of
                  ((c, w), Inl err) \<Rightarrow>
                    (closeAll c w, Inl (Wrapf (''verifying RPC connection for chain '' @ dec_word chainID
                       @ '' ('' @ ch_Name cfg @ '')'') err))
                | ((c, w), Inr blockNum) \<Rightarrow> (w, Inr c))))"

section \<open>The manager (manager.go)\<close>

text \<open>The clients by chain id, in the order in which Go ranges over the configured chains.\<close>

type_synonym 'w Manager = "(u64 \<times> 'w Client) list"

definition close_clients :: "'w Manager \<Rightarrow> 'w \<Rightarrow> 'w" where
  "close_clients cs w = fold (\<lambda>(_, c). closeAll c) cs w"

fun connect_all ::
    "'w runtime \<Rightarrow> (string \<Rightarrow> 'w \<Rightarrow> 'w \<times> (error + 'w EthClient)) \<Rightarrow> (u64 \<times> Chain) list \<Rightarrow> 'w Manager \<Rightarrow> 'w
      \<Rightarrow> 'w \<times> (error + 'w Manager)" where
  "connect_all rt dial [] clients w = (w, Inr clients)"
| "connect_all rt dial ((chainID, cfg) # rest) clients w =
     (case NewClient rt dial chainID cfg w of
        (w, Inl err) \<Rightarrow>
          (close_clients clients w,
           Inl (Wrapf (''connecting to chain '' @ dec_word chainID @ '' ('' @ ch_Name cfg @ '')'') err))
      | (w, Inr client) \<Rightarrow> connect_all rt dial rest (clients @ [(chainID, client)]) w)"

definition NewManager ::
    "'w runtime \<Rightarrow> (string \<Rightarrow> 'w \<Rightarrow> 'w \<times> (error + 'w EthClient)) \<Rightarrow> (u64 \<times> Chain) list \<Rightarrow> 'w
      \<Rightarrow> 'w \<times> (error + 'w Manager)" where
  "NewManager rt dial cfgs w = connect_all rt dial cfgs [] w"

definition GetClient :: "'w Manager \<Rightarrow> u64 \<Rightarrow> error + 'w Client" where
  "GetClient m chainID =
     (case map_of m chainID of
        None \<Rightarrow> Inl (Errorf (''no client for chain '' @ dec_word chainID))
      | Some c \<Rightarrow> Inr c)"

definition AllClients :: "'w Manager \<Rightarrow> (u64 \<times> 'w Client) list" where
  "AllClients m = m"

section \<open>Retry and failover\<close>

lemma failover_rotate: "failover c = c\<lparr>cl_endpoints := rotate1 (cl_endpoints c)\<rparr>"
proof (cases "cl_endpoints c")
  case Nil
  then show ?thesis by (simp add: failover_def)
next
  case (Cons e es)
  then show ?thesis by (cases es) (simp_all add: failover_def)
qed

text \<open>The client after some failovers.\<close>

definition rotated :: "nat \<Rightarrow> 'w Client \<Rightarrow> 'w Client" where
  "rotated k c = c\<lparr>cl_endpoints := rotate k (cl_endpoints c)\<rparr>"

lemma rotated_simps [simp]:
  "rotated 0 c = c" "cl_maxBlockRange (rotated k c) = cl_maxBlockRange c"
  "cl_confirmationDepth (rotated k c) = cl_confirmationDepth c"
  "cl_endpoints (rotated k c) = rotate k (cl_endpoints c)"
  "rotated k (rotated j c) = rotated (k + j) c"
  by (simp_all add: rotated_def rotate_rotate)

lemma failover_rotated: "failover (rotated k c) = rotated (Suc k) c"
  by (simp add: failover_rotate rotated_def)

lemma retry_loop_result:
  "retry_loop rt call attempt le (rotated k c) w = ((c', w'), r) \<Longrightarrow>
     \<exists>j. c' = rotated j c \<and> (case r of Inl _ \<Rightarrow> True | Inr x \<Rightarrow> \<exists>w0. call c' w0 = (w', Inr x))"
proof (induction rt call attempt le "rotated k c" w arbitrary: k rule: retry_loop.induct)
  case (1 rt call attempt le w)
  show ?case
  proof (cases "attempt < maxRetries")
    case False
    with "1.prems" show ?thesis by (subst (asm) retry_loop.simps) auto
  next
    case True
    obtain w1 q where call: "call (rotated k c) w = (w1, q)" by (cases "call (rotated k c) w")
    show ?thesis
    proof (cases q)
      case (Inr x)
      with "1.prems" True call show ?thesis by (subst (asm) retry_loop.simps) auto
    next
      case (Inl e)
      show ?thesis
      proof (cases "rt_Err rt w1")
        case (Some e')
        with "1.prems" True call Inl show ?thesis by (subst (asm) retry_loop.simps) auto
      next
        case None
        obtain w2 d where after: "rt_After rt (baseBackoff * backoffFactor ^ attempt) w1 = (w2, d)"
          by (cases "rt_After rt (baseBackoff * backoffFactor ^ attempt) w1")
        note IH = "1.hyps" [OF True call [symmetric] Inl None refl failover_rotated [symmetric]]
        show ?thesis
        proof (cases "attempt < maxRetries - 1")
          case False
          with "1.prems" True call Inl None have
            "retry_loop rt call (attempt + 1) e (rotated (Suc k) c) w1 = ((c', w'), r)"
            by (subst (asm) retry_loop.simps) (simp add: failover_rotated Let_def)
          with IH(2) [OF False] show ?thesis by blast
        next
          case inner: True
          show ?thesis
          proof (cases d)
            case (Some e')
            with "1.prems" True call Inl None inner after show ?thesis
              by (subst (asm) retry_loop.simps) (auto simp: failover_rotated Let_def)
          next
            case no: None
            with "1.prems" True call Inl None inner after have
              "retry_loop rt call (attempt + 1) e (rotated (Suc k) c) w2 = ((c', w'), r)"
              by (subst (asm) retry_loop.simps) (simp add: failover_rotated Let_def)
            with IH(1) [OF inner after [symmetric] no] show ?thesis by blast
          qed
        qed
      qed
    qed
  qed
qed

lemma withRetry_result:
  assumes "withRetry rt call c w = ((c', w'), r)"
  obtains j where "c' = rotated j c"
    and "\<And>x. r = Inr x \<Longrightarrow> \<exists>w0. call c' w0 = (w', Inr x)"
  using assms retry_loop_result [of rt call 0 _ 0 c w c' w' r]
  unfolding withRetry_def rotated_simps by (cases r) fastforce+

text \<open>Neither the limiter nor the timer nor the context gets in the way.\<close>

definition calm :: "'w runtime \<Rightarrow> bool" where
  "calm rt \<longleftrightarrow> (\<forall>w. rt_Err rt w = None) \<and> (\<forall>n w. snd (rt_After rt n w) = None) \<and>
     (\<forall>w. snd (rt_Wait rt w) = None)"

lemma retry_loop_reaches:
  assumes "calm rt" and "\<And>c w. P (primary c) \<Longrightarrow> \<exists>w' x. call c w = (w', Inr x)"
    and "j < length (cl_endpoints c)" and "P (cl_endpoints c ! j)" and "attempt + j < maxRetries"
  shows "\<exists>s x. retry_loop rt call attempt le c w = (s, Inr x)"
  using assms(3-5)
proof (induction j arbitrary: attempt le c w)
  case 0
  then obtain w' x where "call c w = (w', Inr x)" using assms(2) [of c w] by (auto simp: primary_def)
  with 0 show ?case by (subst retry_loop.simps) auto
next
  case (Suc j)
  obtain w1 q where call: "call c w = (w1, q)" by (cases "call c w")
  have err: "rt_Err rt w1 = None" using assms(1) by (simp add: calm_def)
  obtain w2 where after: "rt_After rt (baseBackoff * backoffFactor ^ attempt) w1 = (w2, None)"
    using assms(1) by (metis calm_def prod.collapse)
  have nxt: "cl_endpoints (failover c) ! j = cl_endpoints c ! Suc j"
    "j < length (cl_endpoints (failover c))"
    using Suc.prems(1) by (auto simp: failover_rotate nth_rotate1)
  have IH: "\<exists>s x. retry_loop rt call (attempt + 1) e (failover c) w2 = (s, Inr x)" for e
    using Suc.prems nxt by (intro Suc.IH) simp_all
  show ?case
  proof (cases q)
    case (Inl e)
    moreover have "attempt < maxRetries - 1" using Suc.prems(3) by simp
    ultimately show ?thesis
      using Suc.prems(3) call err after IH [of e]
      by (subst retry_loop.simps) (simp add: Let_def)
  next
    case (Inr x)
    with Suc.prems(3) call show ?thesis by (subst retry_loop.simps) simp
  qed
qed

text \<open>An endpoint that answers every request for which \<open>ask\<close> stands.\<close>

definition answers :: "('w EthClient \<Rightarrow> 'w \<Rightarrow> 'w \<times> (error + 'a)) \<Rightarrow> 'w EthClient \<Rightarrow> bool" where
  "answers ask ec \<longleftrightarrow> (\<forall>w. \<exists>w' x. ask ec w = (w', Inr x))"

lemma withRetry_answered:
  assumes "calm rt" and "length (cl_endpoints c) \<le> maxRetries"
    and "\<exists>ec \<in> set (cl_endpoints c). answers ask ec"
  shows "\<exists>k w' x. withRetry rt (limited rt ask) c w = ((rotated k c, w'), Inr x)"
proof -
  have lim: "\<exists>w' x. limited rt ask c w = (w', Inr x)" if a: "answers ask (primary c)" for c w
  proof -
    obtain w1 where "rt_Wait rt w = (w1, None)"
      using assms(1) by (metis calm_def prod.collapse)
    with a show ?thesis by (simp add: limited_def answers_def)
  qed
  from assms(3) obtain j where "j < length (cl_endpoints c)" "answers ask (cl_endpoints c ! j)"
    by (auto simp: in_set_conv_nth)
  then have "\<exists>s x. withRetry rt (limited rt ask) c w = (s, Inr x)"
    unfolding withRetry_def
    using assms(1,2) lim by (intro retry_loop_reaches [where P = "answers ask" and j = j]) auto
  then obtain c' w' x where "withRetry rt (limited rt ask) c w = ((c', w'), Inr x)" by auto
  with withRetry_result [OF this] show ?thesis by metis
qed

lemma limited_Inr:
  "limited rt ask c w = (w', Inr x) \<Longrightarrow> \<exists>w0. ask (primary c) w0 = (w', Inr x)"
  by (auto simp: limited_def split: prod.splits option.splits)

lemma withRetry_limited_Inr:
  assumes "withRetry rt (limited rt ask) c w = ((c', w'), Inr x)" and "cl_endpoints c \<noteq> []"
  shows "\<exists>ec \<in> set (cl_endpoints c). \<exists>w0. ask ec w0 = (w', Inr x)"
proof -
  obtain j where c': "c' = rotated j c" and call: "\<exists>w0. limited rt ask c' w0 = (w', Inr x)"
    using assms(1) by (rule withRetry_result) blast
  have "primary c' \<in> set (cl_endpoints c)"
    using assms(2) nth_mem [of 0 "rotate j (cl_endpoints c)"] by (simp add: c' primary_def)
  moreover obtain w0 where "ask (primary c') w0 = (w', Inr x)" using call limited_Inr by fast
  ultimately show ?thesis by blast
qed

section \<open>Properties\<close>

lemma LatestConfirmedBlock_Inr:
  assumes "LatestConfirmedBlock rt c w = ((c', w'), Inr b)" and "cl_endpoints c \<noteq> []"
  shows "\<exists>ec \<in> set (cl_endpoints c). \<exists>w0 head. ec_BlockNumber ec w0 = (w', Inr head) \<and>
    unat b = unat head - unat (cl_confirmationDepth c)"
proof -
  obtain head where r: "withRetry rt (limited rt ec_BlockNumber) c w = ((c', w'), Inr head)"
    and b: "b = (if head \<le> cl_confirmationDepth c then 0 else head - cl_confirmationDepth c)"
    using assms(1) by (auto simp: LatestConfirmedBlock_def split: prod.splits sum.splits if_splits)
  from withRetry_limited_Inr [OF r assms(2)] b show ?thesis
    by (auto simp: word_le_nat_alt unat_sub)
qed

text \<open>
  The confirmed height: a height returned without an error is the height some endpoint reported
  less the confirmation depth, never below 0 and never wrapping around.
\<close>

lemma confirmed_height:
  assumes "cl_endpoints c \<noteq> []"
  shows "case LatestConfirmedBlock rt c w of
      (s, Inl err) \<Rightarrow> True
    | ((c', w'), Inr b) \<Rightarrow> \<exists>ec \<in> set (cl_endpoints c). \<exists>w0 head. ec_BlockNumber ec w0 = (w', Inr head) \<and>
        unat b = unat head - unat (cl_confirmationDepth c)"
  using LatestConfirmedBlock_Inr [OF _ assms] by (auto split: prod.split sum.split)

text \<open>A chain's logs as an honest endpoint serves them.\<close>

definition in_range :: "u64 \<Rightarrow> u64 \<Rightarrow> (eth_log \<Rightarrow> bool) \<Rightarrow> eth_log \<Rightarrow> bool" where
  "in_range a b p l \<longleftrightarrow> a \<le> log_BlockNumber l \<and> log_BlockNumber l \<le> b \<and> p l"

definition honest ::
    "(bytes list \<Rightarrow> bytes list list \<Rightarrow> eth_log \<Rightarrow> bool) \<Rightarrow> eth_log list \<Rightarrow> 'w EthClient \<Rightarrow> bool" where
  "honest match ls ec \<longleftrightarrow> (\<forall>q w w' r. ec_FilterLogs ec q w = (w', Inr r) \<longrightarrow>
     r = filter (in_range (fq_FromBlock q) (fq_ToBlock q) (match (fq_Addresses q) (fq_Topics q))) ls)"

lemma filter_split_sorted:
  assumes "sorted (map (f :: 'a \<Rightarrow> 'b :: linorder) xs)"
  shows "filter (\<lambda>x. f x < b \<and> P x) xs @ filter (\<lambda>x. b \<le> f x \<and> P x) xs = filter P xs"
  using assms
proof (induction xs)
  case (Cons x xs)
  show ?case
  proof (cases "f x < b")
    case True
    with Cons show ?thesis by auto
  next
    case False
    with Cons.prems have "\<forall>y \<in> set xs. \<not> f y < b" by auto
    then have "filter (\<lambda>y. f y < b \<and> P y) xs = []" "filter (\<lambda>y. b \<le> f y \<and> P y) xs = filter P xs"
      by (auto simp: filter_empty_conv intro!: filter_cong)
    with False show ?thesis by auto
  qed
qed simp

lemma chunk_arith:
  fixes m to cs :: u64
  assumes "m \<noteq> 0" and "unat to + unat m < 2 ^ 64" and "cs \<le> to"
  shows "unat (cs + m) = unat cs + unat m" and "unat (cs + m - 1) = unat cs + unat m - 1"
    and "cs < cs + m" and "x < cs + m \<longleftrightarrow> x \<le> cs + m - 1"
proof -
  have cs: "unat cs \<le> unat to" using assms(3) by (simp add: word_le_nat_alt)
  have m: "0 < unat m" using assms(1) by (simp add: unat_gt_0)
  show 1: "unat (cs + m) = unat cs + unat m"
    using assms(2) cs by (simp add: unat_word_ariths)
  have "1 \<le> cs + m" using 1 m by (simp add: word_le_nat_alt)
  then show 2: "unat (cs + m - 1) = unat cs + unat m - 1"
    using 1 by (simp add: unat_sub word_le_nat_alt)
  show "cs < cs + m" using 1 m by (simp add: word_less_nat_alt)
  show "x < cs + m \<longleftrightarrow> x \<le> cs + m - 1"
    using 1 2 m by (auto simp: word_less_nat_alt word_le_nat_alt)
qed

lemma chunk_end:
  fixes b e n to :: "'b :: linorder"
  assumes "b < n \<longleftrightarrow> b \<le> e"
  shows "b \<le> (if to < e then to else e) \<longleftrightarrow> b \<le> to \<and> b < n"
  using assms by auto

lemma in_range_chunk:
  assumes "log_BlockNumber l < n \<longleftrightarrow> log_BlockNumber l \<le> e" and "from \<le> cs"
  shows "in_range cs (if to < e then to else e) p l \<longleftrightarrow>
     cs \<le> log_BlockNumber l \<and> log_BlockNumber l < n \<and> in_range from to p l"
  unfolding in_range_def chunk_end [OF assms(1)] using assms(2) by auto

lemma fetch_loop_complete:
  assumes "sorted (map log_BlockNumber ls)"
    and "\<forall>ec \<in> set (cl_endpoints c). honest match ls ec" and "cl_endpoints c \<noteq> []"
    and "cl_maxBlockRange c \<noteq> 0" and "unat to + unat (cl_maxBlockRange c) < 2 ^ 64"
    and "acc = filter (\<lambda>l. log_BlockNumber l < cs \<and> in_range from to (match as ts) l) ls"
    and "from \<le> cs"
  shows "\<exists>s r. fetch_loop rt to as ts cs acc c w = Some (s, r) \<and>
     (case r of Inl _ \<Rightarrow> True | Inr logs \<Rightarrow> logs = filter (in_range from to (match as ts)) ls)"
  using assms
proof (induction "Suc (unat to) - unat cs" arbitrary: cs acc c w rule: less_induct)
  case less
  show ?case
  proof (cases "cs \<le> to")
    case False
    then have "acc = filter (in_range from to (match as ts)) ls"
      using less.prems(6) by (auto simp: in_range_def intro!: filter_cong)
    with False show ?thesis by (subst fetch_loop.simps) simp
  next
    case True
    let ?m = "cl_maxBlockRange c"
    let ?stop = "if cs + ?m - 1 > to then to else cs + ?m - 1"
    let ?q = "\<lparr>fq_FromBlock = cs, fq_ToBlock = ?stop, fq_Addresses = as, fq_Topics = ts\<rparr>"
    note ar = chunk_arith [OF less.prems(4,5) True]
    obtain c' w' r where wr: "withRetry rt (limited rt (\<lambda>ec. ec_FilterLogs ec ?q)) c w = ((c', w'), r)"
      by (metis prod.exhaust_sel)
    show ?thesis
    proof (cases r)
      case (Inl e)
      with True wr show ?thesis by (subst fetch_loop.simps) (simp add: Let_def)
    next
      case (Inr logs)
      obtain ec w0 where "ec \<in> set (cl_endpoints c)" "ec_FilterLogs ec ?q w0 = (w', Inr logs)"
        using withRetry_limited_Inr [OF wr [unfolded Inr] less.prems(3)] by blast
      then have logs: "logs = filter (in_range cs ?stop (match as ts)) ls"
        using less.prems(2) by (fastforce simp: honest_def)
      obtain j where c': "c' = rotated j c" using wr by (rule withRetry_result) blast
      have acc: "acc @ logs = filter (\<lambda>l. log_BlockNumber l < cs + ?m \<and> in_range from to (match as ts) l) ls"
      proof -
        have "filter (\<lambda>l. cs \<le> log_BlockNumber l \<and>
            (log_BlockNumber l < cs + ?m \<and> in_range from to (match as ts) l)) ls = logs"
          unfolding logs by (intro filter_cong refl in_range_chunk [symmetric] ar(4) less.prems(7))
        moreover have "filter (\<lambda>l. log_BlockNumber l < cs \<and>
            (log_BlockNumber l < cs + ?m \<and> in_range from to (match as ts) l)) ls = acc"
          unfolding less.prems(6) using ar(3) by (intro filter_cong) auto
        ultimately show ?thesis
          using filter_split_sorted [OF less.prems(1), of cs
              "\<lambda>l. log_BlockNumber l < cs + ?m \<and> in_range from to (match as ts) l"] by simp
      qed
      have dec: "Suc (unat to) - unat (cs + ?m) < Suc (unat to) - unat cs"
        using True ar(3) by (simp add: word_le_nat_alt word_less_nat_alt)
      have "from \<le> cs + ?m" using less.prems(7) ar(3) by simp
      moreover have "\<forall>ec \<in> set (cl_endpoints c'). honest match ls ec" "cl_endpoints c' \<noteq> []"
        using less.prems(2,3) by (simp_all add: c')
      moreover have "cl_maxBlockRange c' = ?m" by (simp add: c')
      ultimately have "\<exists>s r. fetch_loop rt to as ts (cs + ?m) (acc @ logs) c' w' = Some (s, r) \<and>
          (case r of Inl _ \<Rightarrow> True | Inr logs \<Rightarrow> logs = filter (in_range from to (match as ts)) ls)"
        using less.hyps [OF dec less.prems(1) _ _ _ _ acc] less.prems(4,5) by metis
      with True wr Inr show ?thesis by (subst fetch_loop.simps) (simp add: Let_def)
    qed
  qed
qed

lemma FetchLogs_complete:
  assumes "sorted (map log_BlockNumber ls)"
    and "\<forall>ec \<in> set (cl_endpoints c). honest match ls ec" and "cl_endpoints c \<noteq> []"
    and "cl_maxBlockRange c \<noteq> 0" and "unat to + unat (cl_maxBlockRange c) < 2 ^ 64"
  shows "\<exists>s r. FetchLogs rt from to as ts c w = Some (s, r) \<and>
     (case r of Inl _ \<Rightarrow> True | Inr logs \<Rightarrow> logs = filter (in_range from to (match as ts)) ls)"
proof (cases "from > to")
  case True
  then show ?thesis by (simp add: FetchLogs_def)
next
  case False
  have "filter (\<lambda>l. log_BlockNumber l < from \<and> in_range from to (match as ts) l) ls = []"
    by (auto simp: in_range_def filter_empty_conv)
  from fetch_loop_complete [OF assms this [symmetric]] False show ?thesis by (simp add: FetchLogs_def)
qed

text \<open>
  C25: chunking loses and repeats nothing. Over endpoints that may fail but answer honestly from one
  ordered chain of logs, and as long as the end of the range and the chunk size together stay below
  \<open>2 ^ 64\<close>, fetching a range ends; and when it ends without an error, its result is exactly what one
  query of the whole range would return: the matching logs of the range, in chain order. The
  configuration does not enforce the bound, and beyond it the chunk counter can wrap around:
  \<open>fetch_logs_wraps\<close> below fetches logs twice and from outside the range.
\<close>

theorem fetch_logs_complete:
  assumes "sorted (map log_BlockNumber ls)"
    and "\<forall>ec \<in> set (cl_endpoints c). honest match ls ec" and "cl_endpoints c \<noteq> []"
    and "cl_maxBlockRange c \<noteq> 0" and "unat to + unat (cl_maxBlockRange c) < 2 ^ 64"
  shows "\<exists>s r. FetchLogs rt from to as ts c w = Some (s, r) \<and>
     (case r of Inl _ \<Rightarrow> True | Inr logs \<Rightarrow> logs = filter (in_range from to (match as ts)) ls)"
  using assms by (rule FetchLogs_complete)

text \<open>An endpoint that answers everything.\<close>

definition reliable :: "'w EthClient \<Rightarrow> bool" where
  "reliable ec \<longleftrightarrow> answers ec_BlockNumber ec \<and> (\<forall>n. answers (\<lambda>ec. ec_HeaderByNumber ec n) ec) \<and>
     (\<forall>q. answers (\<lambda>ec. ec_FilterLogs ec q) ec)"

lemma fetch_loop_answered:
  assumes "calm rt" and "length (cl_endpoints c) \<le> maxRetries"
    and "\<exists>ec \<in> set (cl_endpoints c). reliable ec"
    and "cl_maxBlockRange c \<noteq> 0" and "unat to + unat (cl_maxBlockRange c) < 2 ^ 64"
  shows "\<exists>k w' logs. fetch_loop rt to as ts cs acc c w = Some ((rotated k c, w'), Inr logs)"
  using assms(2-5)
proof (induction "Suc (unat to) - unat cs" arbitrary: cs acc c w rule: less_induct)
  case less
  show ?case
  proof (cases "cs \<le> to")
    case False
    then show ?thesis by (subst fetch_loop.simps) (auto intro: exI [of _ 0])
  next
    case True
    let ?m = "cl_maxBlockRange c"
    let ?q = "\<lparr>fq_FromBlock = cs, fq_ToBlock = (if cs + ?m - 1 > to then to else cs + ?m - 1),
      fq_Addresses = as, fq_Topics = ts\<rparr>"
    have "\<exists>ec \<in> set (cl_endpoints c). answers (\<lambda>ec. ec_FilterLogs ec ?q) ec"
      using less.prems(2) by (auto simp: reliable_def)
    from withRetry_answered [OF assms(1) less.prems(1) this] obtain k w' logs where
      wr: "withRetry rt (limited rt (\<lambda>ec. ec_FilterLogs ec ?q)) c w = ((rotated k c, w'), Inr logs)"
      by blast
    have dec: "Suc (unat to) - unat (cs + ?m) < Suc (unat to) - unat cs"
      using True chunk_arith(3) [OF less.prems(3,4) True] by (simp add: word_le_nat_alt word_less_nat_alt)
    obtain j w2 ls where
      "fetch_loop rt to as ts (cs + ?m) (acc @ logs) (rotated k c) w' = Some ((rotated j (rotated k c), w2), Inr ls)"
      using less.hyps [OF dec, of "rotated k c" "acc @ logs" w'] less.prems by auto
    with True wr show ?thesis by (subst fetch_loop.simps) (auto simp: Let_def)
  qed
qed

text \<open>
  C26: failover. With at most as many endpoints as attempts, one of them answering every request, and
  no cancellation, the client never fails, whatever the other endpoints do: the confirmed height
  and block headers are returned, and a range of logs is fetched completely.
\<close>

theorem failover_tolerates:
  assumes "calm rt" and "length (cl_endpoints c) \<le> maxRetries"
    and "\<exists>ec \<in> set (cl_endpoints c). reliable ec"
    and "cl_maxBlockRange c \<noteq> 0" and "unat to + unat (cl_maxBlockRange c) < 2 ^ 64" and "from \<le> to"
  shows "(\<exists>s b. LatestConfirmedBlock rt c w = (s, Inr b)) \<and>
     (\<exists>s h. BlockHeader rt n c w = (s, Inr h)) \<and>
     (\<exists>s logs. FetchLogs rt from to as ts c w = Some (s, Inr logs))"
proof (intro conjI)
  have "\<exists>ec \<in> set (cl_endpoints c). answers ec_BlockNumber ec"
    "\<exists>ec \<in> set (cl_endpoints c). answers (\<lambda>ec. ec_HeaderByNumber ec n) ec"
    using assms(3) by (auto simp: reliable_def)
  then obtain k w1 h k' w2 hd where
    "withRetry rt (limited rt ec_BlockNumber) c w = ((rotated k c, w1), Inr h)"
    "withRetry rt (limited rt (\<lambda>ec. ec_HeaderByNumber ec n)) c w = ((rotated k' c, w2), Inr hd)"
    using withRetry_answered [OF assms(1,2)] by metis
  then show "\<exists>s b. LatestConfirmedBlock rt c w = (s, Inr b)" "\<exists>s h. BlockHeader rt n c w = (s, Inr h)"
    by (simp_all add: LatestConfirmedBlock_def BlockHeader_def)
  from fetch_loop_answered [OF assms(1-5), of as ts "from" "[]" w] assms(6)
  show "\<exists>s logs. FetchLogs rt from to as ts c w = Some (s, Inr logs)"
    by (auto simp: FetchLogs_def)
qed

text \<open>What every connected client satisfies.\<close>

definition client_ok :: "u64 \<Rightarrow> Chain \<Rightarrow> 'w Client \<Rightarrow> bool" where
  "client_ok cid cfg c \<longleftrightarrow> cl_endpoints c \<noteq> [] \<and> cl_chainID c = cid \<and>
     cl_confirmationDepth c = ch_ConfirmationDepth cfg \<and> cl_maxBlockRange c \<noteq> 0 \<and> cl_rateLimit c > 0"

lemma NewClient_ok: "NewClient rt dial cid cfg w = (w', Inr c) \<Longrightarrow> client_ok cid cfg c"
proof -
  assume n: "NewClient rt dial cid cfg w = (w', Inr c)"
  then obtain w1 es where es: "es \<noteq> []"
    and l: "\<exists>b. LatestConfirmedBlock rt (new_client es cid cfg) w1 = ((c, w'), Inr b)"
    by (auto simp: NewClient_def split: prod.splits sum.splits if_splits)
  then obtain r where "withRetry rt (limited rt ec_BlockNumber) (new_client es cid cfg) w1 = ((c, w'), r)"
    by (auto simp: LatestConfirmedBlock_def split: prod.splits sum.splits if_splits)
  then obtain j where "c = rotated j (new_client es cid cfg)" by (rule withRetry_result)
  with es show ?thesis by (simp add: client_ok_def new_client_def rotated_def)
qed

lemma connect_all_result:
  "case connect_all rt dial cfgs cs w of
     (w', Inr m) \<Rightarrow> \<exists>new. m = cs @ new \<and> list_all2 (\<lambda>(i, cfg) (j, c). i = j \<and> client_ok i cfg c) cfgs new
   | (w', Inl e) \<Rightarrow> \<exists>pre i cfg post new w0 w1 err. cfgs = pre @ (i, cfg) # post \<and>
       connect_all rt dial pre cs w = (w0, Inr (cs @ new)) \<and> NewClient rt dial i cfg w0 = (w1, Inl err) \<and>
       w' = close_clients (cs @ new) w1 \<and> errors_Is e err"
proof (induction cfgs arbitrary: cs w)
  case (Cons x cfgs)
  obtain i cfg where x: "x = (i, cfg)" by (cases x)
  obtain w1 r where n: "NewClient rt dial i cfg w = (w1, r)" by (cases "NewClient rt dial i cfg w")
  show ?case
  proof (cases r)
    case (Inl e)
    then show ?thesis
      using n by (auto simp: x intro!: exI [of _ "[]"])
  next
    case (Inr c)
    note ok = NewClient_ok [OF n [unfolded Inr]]
    obtain w2 q where rest: "connect_all rt dial cfgs (cs @ [(i, c)]) w1 = (w2, q)"
      by (cases "connect_all rt dial cfgs (cs @ [(i, c)]) w1")
    show ?thesis
    proof (cases q)
      case (Inl e)
      then obtain pre k kcfg post new w0 w3 err where "cfgs = pre @ (k, kcfg) # post"
        "connect_all rt dial pre (cs @ [(i, c)]) w1 = (w0, Inr ((cs @ [(i, c)]) @ new))"
        "NewClient rt dial k kcfg w0 = (w3, Inl err)" "w2 = close_clients ((cs @ [(i, c)]) @ new) w3"
        "errors_Is e err"
        using Cons.IH [of "cs @ [(i, c)]" w1] rest by auto
      then have "x # cfgs = (x # pre) @ (k, kcfg) # post \<and>
          connect_all rt dial (x # pre) cs w = (w0, Inr (cs @ ((i, c) # new))) \<and>
          NewClient rt dial k kcfg w0 = (w3, Inl err) \<and> w2 = close_clients (cs @ ((i, c) # new)) w3 \<and>
          errors_Is e err" using n \<open>r = Inr c\<close> by (simp add: x)
      moreover have "connect_all rt dial (x # cfgs) cs w = (w2, Inl e)"
        using n \<open>r = Inr c\<close> rest Inl by (simp add: x)
      ultimately show ?thesis by (simp only: prod.case sum.case) blast
    next
      case (Inr m)
      with \<open>r = Inr c\<close> show ?thesis
        using Cons.IH [of "cs @ [(i, c)]" w1] rest n ok by (auto simp: x)
    qed
  qed
qed simp

lemma list_all2_ids:
  "list_all2 (\<lambda>(i, cfg) (j, c). i = j \<and> P i cfg c) xs ys \<Longrightarrow> map fst ys = map fst xs"
  by (induction rule: list_all2_induct) auto

text \<open>
  C27: connecting to the configured chains is all or nothing. Either every configured chain has a
  client, found under its id and no other, with an endpoint, a positive rate limit, a positive
  chunk size and the configured confirmation depth; or the chains before some chain connect, it does
  not, its error is reported, and every client connected before it is closed.
\<close>

theorem manager_all_or_nothing:
  "case NewManager rt dial cfgs w of
     (w', Inr m) \<Rightarrow>
       list_all2 (\<lambda>(i, cfg) (j, c). i = j \<and> client_ok i cfg c) cfgs (AllClients m) \<and>
       (\<forall>i. is_ok (GetClient m i) \<longleftrightarrow> i \<in> fst ` set cfgs)
   | (w', Inl e) \<Rightarrow> \<exists>pre i cfg post m w0 w1 err. cfgs = pre @ (i, cfg) # post \<and>
       NewManager rt dial pre w = (w0, Inr m) \<and> NewClient rt dial i cfg w0 = (w1, Inl err) \<and>
       w' = close_clients m w1 \<and> errors_Is e err"
proof (cases "NewManager rt dial cfgs w")
  case (Pair w' r)
  note res = connect_all_result [where rt = rt and dial = dial and cfgs = cfgs and cs = "[]" and w = w]
  show ?thesis
  proof (cases r)
    case (Inl e)
    with Pair res show ?thesis by (simp add: NewManager_def)
  next
    case (Inr m)
    with Pair res have l: "list_all2 (\<lambda>(i, cfg) (j, c). i = j \<and> client_ok i cfg c) cfgs m"
      by (simp add: NewManager_def)
    then have "set (map fst m) = set (map fst cfgs)"
      using list_all2_ids [OF l] by simp
    then have "is_ok (GetClient m i) \<longleftrightarrow> i \<in> fst ` set cfgs" for i
      by (auto simp: GetClient_def map_of_eq_None_iff split: option.splits)
         (metis domI dom_map_of_conv_image_fst image_set)+
    with l Pair Inr show ?thesis by (simp add: AllClients_def)
  qed
qed

section \<open>Examples\<close>

text \<open>
  A chain of three logs behind two endpoints, the first of which always fails; the world counts
  the requests.
\<close>

definition demo_chain :: "eth_log list" where
  "demo_chain = map (\<lambda>n. \<lparr>log_Address = [], log_Topics = [], log_Data = [], log_BlockNumber = n,
     log_TxHash = [], log_Index = 0\<rparr>) [3, 7, 8]"

definition broken_endpoint :: "nat EthClient" where
  "broken_endpoint = \<lparr>ec_BlockNumber = (\<lambda>w. (w + 1, Inl (Errorf ''down''))),
     ec_FilterLogs = (\<lambda>q w. (w + 1, Inl (Errorf ''down''))),
     ec_HeaderByNumber = (\<lambda>n w. (w + 1, Inl (Errorf ''down''))), ec_Close = (\<lambda>w. w)\<rparr>"

definition demo_endpoint :: "nat EthClient" where
  "demo_endpoint = \<lparr>ec_BlockNumber = (\<lambda>w. (w + 1, Inr 20)),
     ec_FilterLogs = (\<lambda>q w. (w + 1, Inr (filter (in_range (fq_FromBlock q) (fq_ToBlock q) (\<lambda>_. True)) demo_chain))),
     ec_HeaderByNumber = (\<lambda>n w. (w + 1, Inr \<lparr>hd_Hash = ''h'' @ dec_word n, hd_ParentHash = ''h'' @ dec_word (n - 1),
        hd_Time = 1000 + n\<rparr>)), ec_Close = (\<lambda>w. w)\<rparr>"

definition demo_runtime :: "nat runtime" where
  "demo_runtime = \<lparr>rt_Wait = (\<lambda>w. (w, None)), rt_Err = (\<lambda>w. None), rt_After = (\<lambda>n w. (w, None)),
     rt_Sleep = (\<lambda>d w. w), rt_Now = (\<lambda>w. 0)\<rparr>"

definition demo_client :: "nat Client" where
  "demo_client = \<lparr>cl_endpoints = [broken_endpoint, demo_endpoint], cl_chainID = 1, cl_name = ''demo'',
     cl_confirmationDepth = 12, cl_maxBlockRange = 5, cl_rateLimit = 10\<rparr>"

lemma demo_client_simps [simp]:
  "cl_endpoints demo_client = [broken_endpoint, demo_endpoint]"
  "cl_confirmationDepth demo_client = 12" "cl_maxBlockRange demo_client = 5"
  by (simp_all add: demo_client_def)

lemma demo_reliable: "calm demo_runtime" "reliable demo_endpoint"
  by (simp_all add: calm_def demo_runtime_def reliable_def answers_def demo_endpoint_def)

lemma demo_honest: "\<forall>ec \<in> set (cl_endpoints demo_client). honest (\<lambda>_ _ _. True) demo_chain ec"
  by (auto simp: honest_def demo_endpoint_def broken_endpoint_def)

theorem failover_tolerates_witness:
  "\<exists>s logs. FetchLogs demo_runtime 1 8 [] [] demo_client 0 = Some (s, Inr logs)"
  using failover_tolerates [of demo_runtime demo_client 8 1 0 0 "[]" "[]"] demo_reliable
  by (simp add: maxRetries_def)

theorem fetch_logs_complete_witness:
  "\<exists>s r. FetchLogs demo_runtime 4 8 [] [] demo_client 0 = Some (s, r) \<and>
     (case r of Inl _ \<Rightarrow> True | Inr logs \<Rightarrow> map log_BlockNumber logs = [7, 8])"
proof -
  have "sorted (map log_BlockNumber demo_chain)"
    by (simp add: demo_chain_def)
  from fetch_logs_complete [OF this demo_honest, of 8 demo_runtime 4 "[]" "[]" 0] obtain s r where
    "FetchLogs demo_runtime 4 8 [] [] demo_client 0 = Some (s, r)"
    and r: "case r of Inl _ \<Rightarrow> True | Inr logs \<Rightarrow> logs = filter (in_range 4 8 (\<lambda>_. True)) demo_chain"
    by auto
  moreover have "case r of Inl _ \<Rightarrow> True | Inr logs \<Rightarrow> map log_BlockNumber logs = [7, 8]"
    using r by (cases r) (simp_all add: demo_chain_def in_range_def)
  ultimately show ?thesis by blast
qed

text \<open>
  A configured chunk size of \<open>2 ^ 64 - 4\<close> blocks: after the chunk from block 4 to block 8 the counter
  wraps to 0, and the second chunk asks for the blocks 0 to 8.
\<close>

definition wrapping_client :: "nat Client" where
  "wrapping_client = demo_client\<lparr>cl_endpoints := [demo_endpoint], cl_maxBlockRange := - 4\<rparr>"

lemma wrapping_client_query:
  "withRetry demo_runtime (limited demo_runtime (\<lambda>ec. ec_FilterLogs ec q)) wrapping_client w =
     ((wrapping_client, w + 1),
      Inr (filter (in_range (fq_FromBlock q) (fq_ToBlock q) (\<lambda>_. True)) demo_chain))"
  by (simp add: withRetry_def retry_loop.simps maxRetries_def limited_def primary_def
      wrapping_client_def demo_endpoint_def demo_runtime_def)

lemma fetch_logs_wraps:
  "\<exists>s logs. FetchLogs demo_runtime 4 8 [] [] wrapping_client 0 = Some (s, Inr logs) \<and>
     map log_BlockNumber logs = [7, 8, 3, 7, 8]"
proof -
  have m: "cl_maxBlockRange wrapping_client = - 4" by (simp add: wrapping_client_def)
  have stop: "fetch_loop demo_runtime 8 [] [] (- 4) acc wrapping_client w =
      Some ((wrapping_client, w), Inr acc)" for acc w
    by (subst fetch_loop.simps) simp
  have second: "fetch_loop demo_runtime 8 [] [] 0 acc wrapping_client w =
      Some ((wrapping_client, w + 1),
        Inr (acc @ filter (in_range 0 8 (\<lambda>_. True)) demo_chain))" for acc w
    by (subst fetch_loop.simps) (simp add: Let_def wrapping_client_query m stop)
  have "FetchLogs demo_runtime 4 8 [] [] wrapping_client 0 =
      Some ((wrapping_client, 2), Inr (filter (in_range 4 8 (\<lambda>_. True)) demo_chain @
        filter (in_range 0 8 (\<lambda>_. True)) demo_chain))"
    unfolding FetchLogs_def
    by (subst fetch_loop.simps) (simp add: Let_def wrapping_client_query m second)
  then show ?thesis by (simp add: demo_chain_def in_range_def)
qed

end
