(* ===== verification/Stores.thy ===== *)
theory Stores
  imports Postgres
begin

text \<open>
  The cursor store and the block hash store, \<open>internal/indexer/cursor.go\<close> and
  \<open>block_hash_store.go\<close>: the interfaces, what the processor relies on of them as locales, and
  their PostgreSQL implementations, which interpret the locales.
\<close>

section \<open>Interfaces\<close>

record 's CursorStore =
  cs_LoadCursor :: "u64 \<Rightarrow> string \<Rightarrow> 's \<Rightarrow> 's \<times> (error + u64)"
  cs_UpdateCursor :: "u64 \<Rightarrow> string \<Rightarrow> u64 \<Rightarrow> 's \<Rightarrow> 's \<times> error option"

record BlockHashRecord =
  bhr_ChainID :: u64
  bhr_BlockNumber :: u64
  bhr_BlockHash :: string
  bhr_ParentHash :: string

record 's BlockHashStore =
  bs_SaveBlockHash :: "BlockHashRecord \<Rightarrow> 's \<Rightarrow> 's \<times> error option"
  bs_GetBlockHash :: "u64 \<Rightarrow> u64 \<Rightarrow> 's \<Rightarrow> 's \<times> (error + string \<times> string)"
  bs_PruneBlockHashes :: "u64 \<Rightarrow> u64 \<Rightarrow> 's \<Rightarrow> 's \<times> error option"
  bs_DeleteBlockHashesFrom :: "u64 \<Rightarrow> u64 \<Rightarrow> 's \<Rightarrow> 's \<times> error option"

section \<open>What the processor relies on\<close>

text \<open>
  \<open>cursor s (chain, protocol)\<close> is the recorded cursor. A load returns it, 0 when there is none; an
  update sets it and nothing else, or fails and changes no cursor.
\<close>

locale cursor_store =
  fixes store :: "'s CursorStore" and cursor :: "'s \<Rightarrow> u64 \<times> string \<Rightarrow> u64 option"
  assumes load: "cs_LoadCursor store c p s = (s', r) \<Longrightarrow> cursor s' = cursor s \<and>
      (case r of Inl _ \<Rightarrow> True | Inr b \<Rightarrow> b = (case cursor s (c, p) of None \<Rightarrow> 0 | Some b \<Rightarrow> b))"
    and update: "cs_UpdateCursor store c p b s = (s', e) \<Longrightarrow>
      cursor s' = (if e = None then (cursor s)((c, p) \<mapsto> b) else cursor s)"
begin

definition position :: "u64 \<Rightarrow> string \<Rightarrow> 's \<Rightarrow> u64" where
  "position c p s = (case cursor s (c, p) of None \<Rightarrow> 0 | Some b \<Rightarrow> b)"

lemma load_position: "cs_LoadCursor store c p s = (s', Inr b) \<Longrightarrow> b = position c p s \<and> position c p s' = b"
  using load [of c p s s' "Inr b"] by (simp add: position_def)

lemma update_position: "cs_UpdateCursor store c p b s = (s', None) \<Longrightarrow> position c p s' = b"
  using update [of c p b s s' None] by (simp add: position_def)

lemma load_after_update:
  "cs_UpdateCursor store c p b s = (s1, None) \<Longrightarrow> cs_LoadCursor store c p s1 = (s2, Inr x) \<Longrightarrow> x = b"
  using update_position load_position by blast

end

text \<open>
  \<open>hash s chain block\<close> is the recorded pair of hashes. The two deletions remove the records below,
  respectively from, a block of one chain.
\<close>

locale block_hash_store =
  fixes store :: "'s BlockHashStore" and hash :: "'s \<Rightarrow> u64 \<Rightarrow> u64 \<Rightarrow> (string \<times> string) option"
  assumes save: "bs_SaveBlockHash store r s = (s', e) \<Longrightarrow> hash s' c b =
      (if e = None \<and> c = bhr_ChainID r \<and> b = bhr_BlockNumber r
       then Some (bhr_BlockHash r, bhr_ParentHash r) else hash s c b)"
    and get: "bs_GetBlockHash store c b s = (s', q) \<Longrightarrow> hash s' = hash s \<and>
      (case q of Inl _ \<Rightarrow> True | Inr h \<Rightarrow> h = (case hash s c b of None \<Rightarrow> ([], []) | Some h \<Rightarrow> h))"
    and prune: "bs_PruneBlockHashes store c n s = (s', e) \<Longrightarrow> hash s' d b =
      (if e = None \<and> d = c \<and> b < n then None else hash s d b)"
    and delete: "bs_DeleteBlockHashesFrom store c n s = (s', e) \<Longrightarrow> hash s' d b =
      (if e = None \<and> d = c \<and> n \<le> b then None else hash s d b)"
begin

lemma get_after_save:
  "bs_SaveBlockHash store r s = (s1, None) \<Longrightarrow>
   bs_GetBlockHash store (bhr_ChainID r) (bhr_BlockNumber r) s1 = (s2, Inr h) \<Longrightarrow>
   h = (bhr_BlockHash r, bhr_ParentHash r)"
  using save [of r s s1 None "bhr_ChainID r" "bhr_BlockNumber r"]
    get [of "bhr_ChainID r" "bhr_BlockNumber r" s1 s2 "Inr h"] by simp

lemma get_after_delete:
  "bs_DeleteBlockHashesFrom store c n s = (s1, None) \<Longrightarrow> n \<le> b \<Longrightarrow>
   bs_GetBlockHash store c b s1 = (s2, Inr h) \<Longrightarrow> h = ([], [])"
  using delete [of c n s s1 None c b] get [of c b s1 s2 "Inr h"] by simp

end

section \<open>PostgreSQL (cursor.go, block_hash_store.go)\<close>

text \<open>A query without a row is \<open>pgx.ErrNoRows\<close>.\<close>

definition select_cursor :: "u64 \<Rightarrow> string \<Rightarrow> tables \<Rightarrow> error + u64" where
  "select_cursor chainID protocol t =
     (case t_cursors t (chainID, protocol) of None \<Rightarrow> Inl NoRows | Some b \<Rightarrow> Inr b)"

definition LoadCursor :: "u64 \<Rightarrow> string \<Rightarrow> pg \<Rightarrow> pg \<times> (error + u64)" where
  "LoadCursor chainID protocol s =
     (case query_one (select_cursor chainID protocol) s of
        (s, Inl err) \<Rightarrow>
          if errors_Is err NoRows then (s, Inr 0)
          else (s, Inl (Wrapf (''loading cursor for chain '' @ dec_word chainID @ '' protocol '' @ protocol) err))
      | (s, Inr lastBlock) \<Rightarrow> (s, Inr lastBlock))"

definition UpdateCursor :: "u64 \<Rightarrow> string \<Rightarrow> u64 \<Rightarrow> pg \<Rightarrow> pg \<times> error option" where
  "UpdateCursor chainID protocol blockNumber s =
     (case exec_one (\<lambda>t. Inr (t\<lparr>t_cursors := (t_cursors t)((chainID, protocol) \<mapsto> blockNumber)\<rparr>)) s of
        (s, Some err) \<Rightarrow>
          (s, Some (Wrapf (''updating cursor for chain '' @ dec_word chainID @ '' protocol '' @ protocol
                           @ '' to block '' @ dec_word blockNumber) err))
      | (s, None) \<Rightarrow> (s, None))"

definition PostgresCursorStore :: "pg CursorStore" where
  "PostgresCursorStore = \<lparr>cs_LoadCursor = LoadCursor, cs_UpdateCursor = UpdateCursor\<rparr>"

definition SaveBlockHash :: "BlockHashRecord \<Rightarrow> pg \<Rightarrow> pg \<times> error option" where
  "SaveBlockHash r s =
     (case exec_one (\<lambda>t. Inr (t\<lparr>t_block_hashes := (t_block_hashes t)
             ((bhr_ChainID r, bhr_BlockNumber r) \<mapsto>
                \<lparr>bh_hash = bhr_BlockHash r, bh_parent = bhr_ParentHash r\<rparr>)\<rparr>)) s of
        (s, Some err) \<Rightarrow>
          (s, Some (Wrapf (''saving block hash for chain '' @ dec_word (bhr_ChainID r) @ '' block ''
                           @ dec_word (bhr_BlockNumber r)) err))
      | (s, None) \<Rightarrow> (s, None))"

definition select_hash :: "u64 \<Rightarrow> u64 \<Rightarrow> tables \<Rightarrow> error + string \<times> string" where
  "select_hash chainID blockNumber t =
     (case t_block_hashes t (chainID, blockNumber) of
        None \<Rightarrow> Inl NoRows | Some row \<Rightarrow> Inr (bh_hash row, bh_parent row))"

definition GetBlockHash :: "u64 \<Rightarrow> u64 \<Rightarrow> pg \<Rightarrow> pg \<times> (error + string \<times> string)" where
  "GetBlockHash chainID blockNumber s =
     (case query_one (select_hash chainID blockNumber) s of
        (s, Inl err) \<Rightarrow>
          if errors_Is err NoRows then (s, Inr ([], []))
          else (s, Inl (Wrapf (''getting block hash for chain '' @ dec_word chainID @ '' block ''
                               @ dec_word blockNumber) err))
      | (s, Inr h) \<Rightarrow> (s, Inr h))"

definition PruneBlockHashes :: "u64 \<Rightarrow> u64 \<Rightarrow> pg \<Rightarrow> pg \<times> error option" where
  "PruneBlockHashes chainID keepBelowBlock s =
     (case exec_one (\<lambda>t. Inr (t\<lparr>t_block_hashes := (\<lambda>(c, b).
             if c = chainID \<and> b < keepBelowBlock then None else t_block_hashes t (c, b))\<rparr>)) s of
        (s, Some err) \<Rightarrow>
          (s, Some (Wrapf (''pruning block hashes for chain '' @ dec_word chainID @ '' below ''
                           @ dec_word keepBelowBlock) err))
      | (s, None) \<Rightarrow> (s, None))"

definition DeleteBlockHashesFrom :: "u64 \<Rightarrow> u64 \<Rightarrow> pg \<Rightarrow> pg \<times> error option" where
  "DeleteBlockHashesFrom chainID fromBlock s =
     (case exec_one (\<lambda>t. Inr (t\<lparr>t_block_hashes := (\<lambda>(c, b).
             if c = chainID \<and> b \<ge> fromBlock then None else t_block_hashes t (c, b))\<rparr>)) s of
        (s, Some err) \<Rightarrow>
          (s, Some (Wrapf (''deleting block hashes for chain '' @ dec_word chainID @ '' from block ''
                           @ dec_word fromBlock) err))
      | (s, None) \<Rightarrow> (s, None))"

definition PostgresBlockHashStore :: "pg BlockHashStore" where
  "PostgresBlockHashStore = \<lparr>bs_SaveBlockHash = SaveBlockHash, bs_GetBlockHash = GetBlockHash,
     bs_PruneBlockHashes = PruneBlockHashes, bs_DeleteBlockHashesFrom = DeleteBlockHashesFrom\<rparr>"

definition pg_hash :: "pg \<Rightarrow> u64 \<Rightarrow> u64 \<Rightarrow> (string \<times> string) option" where
  "pg_hash s c b = map_option (\<lambda>r. (bh_hash r, bh_parent r)) (t_block_hashes (pg_tables s) (c, b))"

lemma exec_one_tables:
  "exec_one (\<lambda>t. Inr (f t)) s = (s', r) \<Longrightarrow>
     pg_tables s' = (if r = None then f (pg_tables s) else pg_tables s)"
  by (auto simp: exec_one_def split: if_splits)

lemma query_one_frame: "query_one q s = (s', r) \<Longrightarrow> s' = tick s"
  by (simp add: query_one_def)

lemma DbError_not_NoRows [simp]: "\<not> errors_Is DbError NoRows"
  by (simp add: DbError_def)

interpretation pgcursor: cursor_store PostgresCursorStore "\<lambda>s. t_cursors (pg_tables s)"
proof
  fix c p s s' r assume l: "cs_LoadCursor PostgresCursorStore c p s = (s', r)"
  then show "t_cursors (pg_tables s') = t_cursors (pg_tables s) \<and>
      (case r of Inl _ \<Rightarrow> True
       | Inr b \<Rightarrow> b = (case t_cursors (pg_tables s) (c, p) of None \<Rightarrow> 0 | Some b \<Rightarrow> b))"
    by (auto simp: PostgresCursorStore_def LoadCursor_def query_one_def select_cursor_def
        split: sum.splits option.splits if_splits)
next
  fix c p b s s' r assume "cs_UpdateCursor PostgresCursorStore c p b s = (s', r)"
  then show "t_cursors (pg_tables s') =
      (if r = None then (t_cursors (pg_tables s))((c, p) \<mapsto> b) else t_cursors (pg_tables s))"
    by (auto simp: PostgresCursorStore_def UpdateCursor_def dest!: exec_one_tables
        split: prod.splits option.splits)
qed

interpretation pghash: block_hash_store PostgresBlockHashStore pg_hash
proof
  fix r s s' e c b assume "bs_SaveBlockHash PostgresBlockHashStore r s = (s', e)"
  then show "pg_hash s' c b = (if e = None \<and> c = bhr_ChainID r \<and> b = bhr_BlockNumber r
      then Some (bhr_BlockHash r, bhr_ParentHash r) else pg_hash s c b)"
    by (auto simp: PostgresBlockHashStore_def SaveBlockHash_def pg_hash_def dest!: exec_one_tables
        split: prod.splits option.splits)
next
  fix c b s s' q assume "bs_GetBlockHash PostgresBlockHashStore c b s = (s', q)"
  then show "pg_hash s' = pg_hash s \<and>
      (case q of Inl _ \<Rightarrow> True | Inr h \<Rightarrow> h = (case pg_hash s c b of None \<Rightarrow> ([], []) | Some h \<Rightarrow> h))"
    by (auto simp: PostgresBlockHashStore_def GetBlockHash_def query_one_def select_hash_def pg_hash_def
        fun_eq_iff split: sum.splits option.splits if_splits)
next
  fix c n s s' e d b assume "bs_PruneBlockHashes PostgresBlockHashStore c n s = (s', e)"
  then show "pg_hash s' d b = (if e = None \<and> d = c \<and> b < n then None else pg_hash s d b)"
    by (auto simp: PostgresBlockHashStore_def PruneBlockHashes_def pg_hash_def dest!: exec_one_tables
        split: prod.splits option.splits)
next
  fix c n s s' e d b assume "bs_DeleteBlockHashesFrom PostgresBlockHashStore c n s = (s', e)"
  then show "pg_hash s' d b = (if e = None \<and> d = c \<and> n \<le> b then None else pg_hash s d b)"
    by (auto simp: PostgresBlockHashStore_def DeleteBlockHashesFrom_def pg_hash_def dest!: exec_one_tables
        split: prod.splits option.splits)
qed

end
