(* ===== verification/Correlator.thy ===== *)
theory Correlator
  imports MessageStore
begin

text \<open>
  The correlator, \<open>internal/correlator/correlator.go\<close>, over the interface of the message store: the
  laws it needs of a store as a locale, what a run of it does to the status of a message proved
  once under these laws, and the locale interpreted on the PostgreSQL store.
\<close>

section \<open>The code\<close>

definition correlate :: "'s MessageStore \<Rightarrow> Result \<Rightarrow> 's \<Rightarrow> 's \<times> error option" where
  "correlate store result s =
     (case res_CorrelationKey result of
        None \<Rightarrow> (s, Some (Panic ''nil pointer dereference''))
      | Some key \<Rightarrow>
          (case ms_FindByCorrelationKey store key s of
             (s, Inl err) \<Rightarrow> (s, Some (Wrapf ''finding message for correlation'' err))
           | (s, Inr None) \<Rightarrow> (s, None)
           | (s, Inr (Some existing)) \<Rightarrow>
               let status = (if msg_Status (res_Message result) = [] then StatusExecuted
                             else msg_Status (res_Message result)) in
               (case msg_Destination (res_Message result) of
                  None \<Rightarrow> (s, Some (Panic ''nil pointer dereference''))
                | Some dest \<Rightarrow>
                    (case ms_UpdateDestination store (MessageID existing) dest status s of
                       (s, Some err) \<Rightarrow>
                         (s, Some (Wrapf (''updating destination for message '' @ MessageID existing) err))
                     | (s, None) \<Rightarrow> (s, None)))))"

definition Process :: "'s MessageStore \<Rightarrow> int \<Rightarrow> raw_event \<Rightarrow> 's \<Rightarrow> 's \<times> error option" where
  "Process store now event s =
     (case Normalize now (Some event) of
        Inl err \<Rightarrow> (s, Some (Wrapf ''normalizing event'' err))
      | Inr result \<Rightarrow>
          if res_IsCorrelation result then correlate store result s
          else ms_UpsertMessage store (res_Message result) s)"

text \<open>A reflexive and transitive relation every operation of the store keeps is kept by \<open>Process\<close>.\<close>

lemma Process_relation:
  assumes refl: "\<And>s. R s s" and trans: "\<And>s t u. R s t \<Longrightarrow> R t u \<Longrightarrow> R s u"
    and up: "\<And>m s. R s (fst (ms_UpsertMessage store m s))"
    and fi: "\<And>k s. R s (fst (ms_FindByCorrelationKey store k s))"
    and de: "\<And>mid d st s. R s (fst (ms_UpdateDestination store mid d st s))"
  shows "R s (fst (Process store now ev s))"
proof -
  have "R s (fst (correlate store result s))" for result
  proof (cases "res_CorrelationKey result")
    case None
    then show ?thesis by (simp add: correlate_def refl)
  next
    case (Some key)
    obtain s1 q where f: "ms_FindByCorrelationKey store key s = (s1, q)"
      by (cases "ms_FindByCorrelationKey store key s")
    have 1: "R s s1" using fi [of s key] by (simp add: f)
    show ?thesis
    proof (cases "\<exists>m d. q = Inr (Some m) \<and> msg_Destination (res_Message result) = Some d")
      case False
      with Some f 1 show ?thesis
        by (cases "msg_Destination (res_Message result)") (auto simp: correlate_def Let_def split: sum.split option.split)
    next
      case True
      then obtain m d where md: "q = Inr (Some m)" "msg_Destination (res_Message result) = Some d" by blast
      let ?st = "if msg_Status (res_Message result) = [] then StatusExecuted
                 else msg_Status (res_Message result)"
      obtain s2 x where u: "ms_UpdateDestination store (MessageID m) d ?st s1 = (s2, x)"
        by (cases "ms_UpdateDestination store (MessageID m) d ?st s1")
      have "R s1 s2" using de [of s1 "MessageID m" d ?st] by (simp only: u fst_conv)
      with 1 have "R s s2" by (rule trans)
      moreover have "fst (correlate store result s) = s2"
        unfolding correlate_def Some f md option.case sum.case prod.case Let_def u
        by (cases x) simp_all
      ultimately show ?thesis by simp
    qed
  qed
  then show ?thesis using refl up by (auto simp: Process_def split: sum.split)
qed

text \<open>Events processed one after the other; the caller goes on after an error.\<close>

fun Process_all :: "'s MessageStore \<Rightarrow> (int \<times> raw_event) list \<Rightarrow> 's \<Rightarrow> 's" where
  "Process_all store [] s = s"
| "Process_all store ((now, ev) # evs) s = Process_all store evs (fst (Process store now ev s))"

lemma Process_all_append:
  "Process_all store (xs @ ys) s = Process_all store ys (Process_all store xs s)"
  by (induction xs arbitrary: s) auto

section \<open>What the correlator needs of a store\<close>

text \<open>
  One step of the life of a message: it appears as pending, stays as it is, or leaves pending for
  a final status.
\<close>

definition life_step :: "string option \<Rightarrow> string option \<Rightarrow> bool" where
  "life_step a b \<longleftrightarrow> b = a \<or> a = None \<and> b = Some StatusPending \<or>
     a = Some StatusPending \<and> b \<in> {Some StatusExecuted, Some StatusFailed}"

text \<open>
  \<open>status s mid\<close> is the recorded status of a message and \<open>inv\<close> the store's invariant. The three
  operations keep the invariant; an upsert adds a message with its own status and never changes
  a recorded one; a lookup changes no status and only returns pending messages; a destination
  update sets the status of its own message, or fails and changes none.
\<close>

locale message_store =
  fixes store :: "'s MessageStore"
    and inv :: "'s \<Rightarrow> bool"
    and status :: "'s \<Rightarrow> string \<Rightarrow> string option"
  assumes inv_upsert: "inv s \<Longrightarrow> ms_UpsertMessage store m s = (s', r) \<Longrightarrow> inv s'"
    and inv_find: "inv s \<Longrightarrow> ms_FindByCorrelationKey store k s = (s', q) \<Longrightarrow> inv s'"
    and inv_update: "inv s \<Longrightarrow> ms_UpdateDestination store mid d st s = (s', r) \<Longrightarrow> inv s'"
    and status_upsert: "inv s \<Longrightarrow> ms_UpsertMessage store m s = (s', r) \<Longrightarrow>
       status s' mid = status s mid \<or>
       status s mid = None \<and> mid = MessageID m \<and> status s' mid = Some (msg_Status m)"
    and status_find: "inv s \<Longrightarrow> ms_FindByCorrelationKey store k s = (s', q) \<Longrightarrow> status s' = status s"
    and find_pending: "inv s \<Longrightarrow> ms_FindByCorrelationKey store k s = (s', Inr (Some e)) \<Longrightarrow>
       status s (MessageID e) = Some StatusPending"
    and status_update: "inv s \<Longrightarrow> st \<in> message_statuses \<Longrightarrow>
       ms_UpdateDestination store mid d st s = (s', r) \<Longrightarrow>
       status s' j = status s j \<or> j = mid \<and> status s' j = Some st"
begin

lemma correlate_life:
  assumes inv: "inv s" and ok: "correlation_result_ok ev result"
    and run: "correlate store result s = (s', r)"
  shows "inv s' \<and> life_step (status s mid) (status s' mid)"
proof -
  from ok obtain key dest where key: "res_CorrelationKey result = Some key"
    and st: "msg_Status (res_Message result) \<in> {[], StatusExecuted, StatusFailed}"
    and dest: "msg_Destination (res_Message result) = Some dest"
    by (auto simp: correlation_result_ok_def correlation_ok_def)
  obtain s1 q where f: "ms_FindByCorrelationKey store key s = (s1, q)"
    by (cases "ms_FindByCorrelationKey store key s")
  note i1 = inv_find [OF inv f] and same = status_find [OF inv f]
  show ?thesis
  proof (cases "(\<exists>e. q = Inl e) \<or> q = Inr None")
    case True
    with run f key i1 same show ?thesis by (auto simp: correlate_def life_step_def)
  next
    case False
    then obtain e where q: "q = Inr (Some e)" by (cases q) auto
    note pend = find_pending [OF inv f [unfolded q]]
    let ?st = "if msg_Status (res_Message result) = [] then StatusExecuted
               else msg_Status (res_Message result)"
    obtain s2 r2 where u: "ms_UpdateDestination store (MessageID e) dest ?st s1 = (s2, r2)"
      by (cases "ms_UpdateDestination store (MessageID e) dest ?st s1")
    have "s' = s2"
      using run f q key dest u by (auto simp: correlate_def Let_def split: option.splits if_splits)
    moreover have final: "?st \<in> {StatusExecuted, StatusFailed}" using st by auto
    moreover from final have "?st \<in> message_statuses" by (auto simp: message_statuses_def)
    note status_update [OF i1 this u, of mid]
    ultimately show ?thesis
      using inv_update [OF i1 u] pend same by (auto simp: life_step_def split: if_splits)
  qed
qed

lemma Process_life:
  assumes inv: "inv s" and run: "Process store now ev s = (s', r)"
  shows "inv s' \<and> life_step (status s mid) (status s' mid)"
proof (cases "Normalize now (Some ev)")
  case (Inl e)
  with inv run show ?thesis by (simp add: Process_def life_step_def)
next
  case (Inr result)
  from Normalize_supported [OF Inr] consider
    "re_EventType ev \<in> set source_events" | "re_EventType ev \<in> set destination_events" by blast
  then show ?thesis
  proof cases
    case 1
    with Normalize_new [OF _ Inr] have n: "new_result_ok now ev result" .
    then have u: "ms_UpsertMessage store (res_Message result) s = (s', r)"
      using run Inr by (simp add: Process_def new_result_ok_def)
    from n have "msg_Status (res_Message result) = StatusPending"
      by (simp add: new_result_ok_def new_message_ok_def)
    with status_upsert [OF inv u, of mid] inv_upsert [OF inv u] show ?thesis
      by (auto simp: life_step_def)
  next
    case 2
    with Normalize_correlation [OF _ Inr] have n: "correlation_result_ok ev result" .
    then have "correlate store result s = (s', r)"
      using run Inr by (simp add: Process_def correlation_result_ok_def)
    with inv n show ?thesis by (rule correlate_life)
  qed
qed

lemma Process_all_inv: "inv s \<Longrightarrow> inv (Process_all store evs s)"
proof (induction evs arbitrary: s)
  case (Cons x evs)
  obtain now ev where x: "x = (now, ev)" by (cases x)
  have "inv (fst (Process store now ev s))"
    using Process_life [OF Cons.prems, of now ev] by (cases "Process store now ev s") auto
  with Cons.IH show ?case by (simp add: x)
qed simp

text \<open>Over any run, a final status is kept and a recorded message stays recorded.\<close>

lemma run_final:
  assumes "inv s" and "status s mid = Some st" and "st \<noteq> StatusPending"
  shows "status (Process_all store evs s) mid = Some st"
  using assms
proof (induction evs arbitrary: s)
  case (Cons x evs)
  obtain now ev where x: "x = (now, ev)" by (cases x)
  obtain s' r where p: "Process store now ev s = (s', r)" by (cases "Process store now ev s")
  from Process_life [OF Cons.prems(1) p, of mid] Cons.prems
  have "inv s'" "status s' mid = Some st" by (auto simp: life_step_def)
  with Cons.IH Cons.prems(3) show ?case by (simp add: x p)
qed simp

end


text \<open>
  A store that also records destinations: only a successful destination update writes one, and it
  writes status and destination together.
\<close>

locale destination_store = message_store +
  fixes dest :: "'a \<Rightarrow> string \<Rightarrow> destination option"
  assumes dest_upsert: "inv s \<Longrightarrow> ms_UpsertMessage store m s = (s', r) \<Longrightarrow> dest s' = dest s"
    and dest_find: "inv s \<Longrightarrow> ms_FindByCorrelationKey store k s = (s', q) \<Longrightarrow> dest s' = dest s"
    and dest_update: "inv s \<Longrightarrow> st \<in> message_statuses \<Longrightarrow>
       ms_UpdateDestination store mid d st s = (s', r) \<Longrightarrow>
       status s' = status s \<and> dest s' = dest s \<or>
       status s' = (status s)(mid \<mapsto> st) \<and> dest s' = (dest s)(mid \<mapsto> d)"
begin

text \<open>The message has a destination exactly when it is recorded and has left pending.\<close>

definition settled :: "string \<Rightarrow> 'a \<Rightarrow> bool" where
  "settled mid s \<longleftrightarrow> (dest s mid \<noteq> None \<longleftrightarrow> status s mid \<notin> {None, Some StatusPending})"

lemma settled_same:
  "settled mid s \<Longrightarrow> status u = status s \<Longrightarrow> dest u = dest s \<Longrightarrow> settled mid u"
  by (simp add: settled_def)

lemma settled_update:
  "settled mid s \<Longrightarrow> status u = (status s)(j \<mapsto> st) \<Longrightarrow> dest u = (dest s)(j \<mapsto> d) \<Longrightarrow>
     st \<noteq> StatusPending \<Longrightarrow> settled mid u"
  by (simp add: settled_def del: not_None_eq)

lemma Process_settled:
  assumes inv: "inv s" and old: "settled mid s" and run: "Process store now ev s = (s', r)"
  shows "settled mid s'"
proof (cases "Normalize now (Some ev)")
  case (Inl e)
  with old run show ?thesis by (simp add: Process_def)
next
  case (Inr result)
  from Normalize_supported [OF Inr] consider
    "re_EventType ev \<in> set source_events" | "re_EventType ev \<in> set destination_events" by blast
  then show ?thesis
  proof cases
    case 1
    with Normalize_new [OF _ Inr] have n: "new_result_ok now ev result" .
    then have u: "ms_UpsertMessage store (res_Message result) s = (s', r)"
      using run Inr by (simp add: Process_def new_result_ok_def)
    from n have p: "msg_Status (res_Message result) = StatusPending"
      by (simp add: new_result_ok_def new_message_ok_def)
    have "status s' mid \<notin> {None, Some StatusPending} \<longleftrightarrow> status s mid \<notin> {None, Some StatusPending}"
      using status_upsert [OF inv u, of mid] p by (elim disjE conjE) simp_all
    with old dest_upsert [OF inv u] show ?thesis by (simp add: settled_def)
  next
    case 2
    with Normalize_correlation [OF _ Inr] have n: "correlation_result_ok ev result" .
    then have c: "correlate store result s = (s', r)"
      using run Inr by (simp add: Process_def correlation_result_ok_def)
    from n obtain key d where key: "res_CorrelationKey result = Some key"
      and st: "msg_Status (res_Message result) \<in> {[], StatusExecuted, StatusFailed}"
      and d: "msg_Destination (res_Message result) = Some d"
      by (auto simp: correlation_result_ok_def correlation_ok_def)
    obtain s1 q where f: "ms_FindByCorrelationKey store key s = (s1, q)"
      by (cases "ms_FindByCorrelationKey store key s")
    have s1: "settled mid s1" "inv s1"
      using old dest_find [OF inv f] status_find [OF inv f] inv_find [OF inv f]
      by (simp_all add: settled_def)
    show ?thesis
    proof (cases "(\<exists>e. q = Inl e) \<or> q = Inr None")
      case True
      with c f key s1 show ?thesis by (auto simp: correlate_def)
    next
      case False
      then obtain e where q: "q = Inr (Some e)" by (cases q) auto
      let ?st = "if msg_Status (res_Message result) = [] then StatusExecuted
                 else msg_Status (res_Message result)"
      obtain s2 r2 where u: "ms_UpdateDestination store (MessageID e) d ?st s1 = (s2, r2)"
        by (cases "ms_UpdateDestination store (MessageID e) d ?st s1")
      have "s' = s2"
        using c f q key d u by (auto simp: correlate_def Let_def split: option.splits if_splits)
      moreover have final: "?st \<in> {StatusExecuted, StatusFailed}" using st by auto
      then have ms: "?st \<in> message_statuses" and np: "?st \<noteq> StatusPending"
        by (auto simp: message_statuses_def status_defs)
      from dest_update [OF s1(2) ms u] have "settled mid s2"
      proof (elim disjE conjE)
        assume "status s2 = status s1" "dest s2 = dest s1"
        with s1(1) show ?thesis by (rule settled_same)
      next
        assume "status s2 = (status s1)(MessageID e \<mapsto> ?st)" "dest s2 = (dest s1)(MessageID e \<mapsto> d)"
        with s1(1) show ?thesis using np by (rule settled_update)
      qed
      ultimately show ?thesis by simp
    qed
  qed
qed

lemma Process_all_settled:
  "inv s \<Longrightarrow> settled mid s \<Longrightarrow> settled mid (Process_all store evs s)"
proof (induction evs arbitrary: s)
  case (Cons x evs)
  obtain now ev where x: "x = (now, ev)" by (cases x)
  obtain s' r where p: "Process store now ev s = (s', r)" by (cases "Process store now ev s")
  from Process_life [OF Cons.prems(1) p] Process_settled [OF Cons.prems p]
  have "inv s'" "settled mid s'" by auto
  with Cons.IH show ?case by (simp add: x p)
qed simp

end

section \<open>The PostgreSQL store has these laws\<close>

definition pg_inv :: "pg \<Rightarrow> bool" where
  "pg_inv s \<longleftrightarrow> schema_ok (pg_tables s) \<and> plan_ok s"

definition pg_status :: "pg \<Rightarrow> string \<Rightarrow> string option" where
  "pg_status s mid = map_option mr_status (t_messages (pg_tables s) mid)"

definition pg_dest :: "pg \<Rightarrow> string \<Rightarrow> destination option" where
  "pg_dest s = t_destinations (pg_tables s)"

lemma UpsertMessage_effect:
  "UpsertMessage m s = (s', r) \<Longrightarrow>
     pg_tables s' = pg_tables s \<or> storable m \<and> pg_tables s' = upsert_spec m (pg_tables s)"
  using in_tx_atomic [of "upsert_stmts m" s s' r]
  by (auto simp: UpsertMessage_def apply_upsert split: option.splits if_splits)

lemma UpdateDestination_effect:
  "UpdateDestination mid d st s = (s', r) \<Longrightarrow> st \<in> message_statuses \<Longrightarrow>
     pg_tables s' = pg_tables s \<or>
     t_messages (pg_tables s) mid \<noteq> None \<and>
     pg_tables s' = destination_spec mid d st (pg_now s) (pg_tables s)"
  using in_tx_atomic [of "destination_stmts mid d st (pg_now s)" s s' r]
  by (auto simp: UpdateDestination_def apply_destination split: option.splits if_splits)

lemma upsert_spec_status:
  "map_option mr_status (t_messages (upsert_spec m t) mid) =
     (if mid = MessageID m \<and> t_messages t mid = None then Some (msg_Status m)
      else map_option mr_status (t_messages t mid))"
  by (auto simp: upsert_spec_def Let_def upserted_message_def split: option.splits)

lemma upsert_spec_destinations [simp]: "t_destinations (upsert_spec m t) = t_destinations t"
  by (simp add: upsert_spec_def Let_def)

lemma tx_plan_ok:
  "UpsertMessage m s = (s', r) \<Longrightarrow> plan_ok s' = plan_ok s"
  "UpdateDestination mid d st s = (s', r) \<Longrightarrow> plan_ok s' = plan_ok s"
  by (auto simp: UpsertMessage_def UpdateDestination_def plan_ok_def dest!: in_tx_frame)

interpretation pgstore: message_store PostgresMessageStore pg_inv pg_status
proof
  fix s m s' r assume i: "pg_inv s" and u: "ms_UpsertMessage PostgresMessageStore m s = (s', r)"
  then have u': "UpsertMessage m s = (s', r)" by (simp add: PostgresMessageStore_def)
  show "pg_inv s'"
    using i UpsertMessage_schema [OF _ u'] tx_plan_ok(1) [OF u'] by (simp add: pg_inv_def)
  fix mid
  show "pg_status s' mid = pg_status s mid \<or>
     pg_status s mid = None \<and> mid = MessageID m \<and> pg_status s' mid = Some (msg_Status m)"
    using UpsertMessage_effect [OF u']
    by (elim disjE conjE; cases "mid = MessageID m \<and> t_messages (pg_tables s) mid = None")
       (auto simp: pg_status_def upsert_spec_status)
next
  fix s k s' q assume i: "pg_inv s" and f: "ms_FindByCorrelationKey PostgresMessageStore k s = (s', q)"
  then have "s' = tick s"
    by (auto simp: PostgresMessageStore_def dest: FindByCorrelationKey_frame)
  then show "pg_inv s'" and "pg_status s' = pg_status s"
    using i by (simp_all add: pg_inv_def pg_status_def fun_eq_iff)
next
  fix s k s' e assume "ms_FindByCorrelationKey PostgresMessageStore k s = (s', Inr (Some e))"
  then have "key_matches (pg_tables s) k (MessageID e)"
    using FindByCorrelationKey_Some [of k s s' e] by (simp add: PostgresMessageStore_def)
  then show "pg_status s (MessageID e) = Some StatusPending"
    by (auto simp: pg_status_def dest!: key_matches_rows)
next
  fix s mid d st s' r j
  assume i: "pg_inv s" and u: "ms_UpdateDestination PostgresMessageStore mid d st s = (s', r)"
  then have u': "UpdateDestination mid d st s = (s', r)" by (simp add: PostgresMessageStore_def)
  show "pg_inv s'"
    using i UpdateDestination_schema [OF _ u'] tx_plan_ok(2) [OF u'] by (simp add: pg_inv_def)
  assume "st \<in> message_statuses"
  with UpdateDestination_effect [OF u']
  show "pg_status s' j = pg_status s j \<or> j = mid \<and> pg_status s' j = Some st"
    by (cases "j = mid") (auto simp: pg_status_def destination_spec_def)
qed

interpretation pgstore: destination_store PostgresMessageStore pg_inv pg_status pg_dest
proof
  fix s m s' r assume "ms_UpsertMessage PostgresMessageStore m s = (s', r)"
  then have "UpsertMessage m s = (s', r)" by (simp add: PostgresMessageStore_def)
  from UpsertMessage_effect [OF this] show "pg_dest s' = pg_dest s" by (auto simp: pg_dest_def)
next
  fix s k s' q assume "ms_FindByCorrelationKey PostgresMessageStore k s = (s', q)"
  then have "s' = tick s"
    by (auto simp: PostgresMessageStore_def dest: FindByCorrelationKey_frame)
  then show "pg_dest s' = pg_dest s" by (simp add: pg_dest_def)
next
  fix s mid d st s' r
  assume "ms_UpdateDestination PostgresMessageStore mid d st s = (s', r)" "st \<in> message_statuses"
  then have "UpdateDestination mid d st s = (s', r)" "st \<in> message_statuses"
    by (simp_all add: PostgresMessageStore_def)
  from UpdateDestination_effect [OF this]
  show "pg_status s' = pg_status s \<and> pg_dest s' = pg_dest s \<or>
     pg_status s' = (pg_status s)(mid \<mapsto> st) \<and> pg_dest s' = (pg_dest s)(mid \<mapsto> d)"
    by (auto simp: pg_status_def pg_dest_def destination_spec_def fun_eq_iff)
qed


section \<open>Statuses are final, destinations and statuses agree\<close>

text \<open>
  C2: a final status is final. Whatever events are processed, in whatever order, with whatever
  statements failing on the way, a message that is executed or failed keeps that status; in
  particular no replayed source event makes it pending again.
\<close>

theorem final_status_absorbing:
  assumes "pg_inv s" and "pg_status s mid = Some st" and "st \<noteq> StatusPending"
  shows "pg_status (Process_all PostgresMessageStore evs s) mid = Some st"
  using assms by (rule pgstore.run_final)

lemma pg_status_cases:
  assumes "pg_inv s"
  shows "pg_status s mid \<in> {None, Some StatusPending, Some StatusExecuted, Some StatusFailed}"
    and "pg_status s mid = None \<Longrightarrow> pg_dest s mid = None"
  using assms
  by (auto simp: pg_inv_def schema_ok_def row_schema_def pg_status_def pg_dest_def
      message_statuses_def split: option.splits dest: spec [of _ mid])

lemma pg_settled:
  assumes "pg_inv s"
  shows "pgstore.settled mid s \<longleftrightarrow>
     (pg_dest s mid \<noteq> None \<longleftrightarrow> pg_status s mid \<in> {Some StatusExecuted, Some StatusFailed})"
  using pg_status_cases(1) [OF assms, of mid] by (auto simp: pgstore.settled_def status_defs)

text \<open>
  C3: the database may hold anything else. A message it does not have, or has with a destination
  exactly when it is executed or failed, is after every run of the correlator absent or in one of
  the three statuses of its life cycle, and has a destination exactly when it is executed or
  failed; failed statements never separate the two.
\<close>

theorem run_settled:
  assumes "pg_inv s"
    and "pg_status s mid = None \<or>
      (pg_dest s mid \<noteq> None \<longleftrightarrow> pg_status s mid \<in> {Some StatusExecuted, Some StatusFailed})"
  shows "let s' = Process_all PostgresMessageStore evs s in
     pg_status s' mid \<in> {None, Some StatusPending, Some StatusExecuted, Some StatusFailed} \<and>
     (pg_dest s' mid \<noteq> None \<longleftrightarrow> pg_status s' mid \<in> {Some StatusExecuted, Some StatusFailed})"
proof -
  let ?s = "Process_all PostgresMessageStore evs s"
  from assms have "pgstore.settled mid s"
    using pg_status_cases(2) by (auto simp: pg_settled)
  with assms(1) have "pgstore.settled mid ?s" by (rule pgstore.Process_all_settled)
  moreover from assms(1) have "pg_inv ?s" by (rule pgstore.Process_all_inv)
  ultimately show ?thesis
    using pg_status_cases(1) [of ?s mid] pg_settled [of ?s mid] unfolding Let_def by blast
qed

section \<open>Deliveries\<close>

lemma Process_new_event:
  assumes "Normalize now (Some ev) = Inr r" and "\<not> res_IsCorrelation r"
    and "storable (res_Message r)" and "pg_faults s = []"
  shows "Process PostgresMessageStore now ev s =
     (s\<lparr>pg_tables := upsert_spec (res_Message r) (pg_tables s)\<rparr>, None)"
  using assms
  by (simp add: Process_def PostgresMessageStore_def UpsertMessage_def in_tx_fault_free apply_upsert)

lemma find_row_unique:
  assumes "schema_ok t" and "\<And>xs. set (plan xs) = set xs" and "key_matches t k mid"
    and "\<And>j. j \<noteq> mid \<Longrightarrow> \<not> key_matches t k j"
  shows "find_row plan k t = Some mid"
proof (cases "find_row plan k t")
  case None
  with find_row_None [OF assms(1,2)] assms(3) show ?thesis by blast
next
  case (Some j)
  with find_row_Some [OF Some] assms(4) show ?thesis by auto
qed

text \<open>A correlation that finds exactly one match completes it.\<close>

lemma Process_correlation_event:
  assumes norm: "Normalize now (Some ev) = Inr r" and cor: "res_IsCorrelation r"
    and key: "res_CorrelationKey r = Some k" and dst: "msg_Destination (res_Message r) = Some d"
    and st: "st = (if msg_Status (res_Message r) = [] then StatusExecuted else msg_Status (res_Message r))"
    and sto: "st \<in> message_statuses"
    and s: "pg_faults s = []" "pg_inv s"
    and mt: "key_matches (pg_tables s) k mid"
    and un: "\<And>j. j \<noteq> mid \<Longrightarrow> \<not> key_matches (pg_tables s) k j"
    and nonce: "\<exists>p. t_payloads (pg_tables s) mid = Some p \<and> pr_nonce p \<noteq> None"
  shows "Process PostgresMessageStore now ev s =
     (s\<lparr>pg_tables := destination_spec mid d st (pg_now s) (pg_tables s)\<rparr>, None)"
proof -
  have t: "tick s = s" using s(1) by (simp add: tick_def)
  have pl: "\<And>xs. set (pg_plan s xs) = set xs" and sc: "schema_ok (pg_tables s)"
    using s(2) by (simp_all add: pg_inv_def plan_ok_def)
  have f: "find_row (pg_plan s) k (pg_tables s) = Some mid"
    by (rule find_row_unique) (use pl sc mt un in auto)
  from nonce obtain m where m: "scan_message (pg_tables s) mid = Inr (Some m)"
    using key_matches_rows [OF mt] by (auto simp: scan_message_def)
  have mid: "MessageID m = mid" using scan_message_Some [OF m mt] by simp
  have q: "FindByCorrelationKey k s = (s, Inr (Some m))"
    using s(1) f m by (simp add: FindByCorrelationKey_def query_one_def t)
  have "t_messages (pg_tables s) mid \<noteq> None" using key_matches_rows [OF mt] by auto
  then have u: "UpdateDestination mid d st s =
      (s\<lparr>pg_tables := destination_spec mid d st (pg_now s) (pg_tables s)\<rparr>, None)"
    using s(1) by (simp add: UpdateDestination_def in_tx_fault_free apply_destination [OF sto])
  show ?thesis
    using norm cor key dst
    by (simp add: Process_def correlate_def PostgresMessageStore_def q mid u Let_def flip: st)
qed

text \<open>A correlation that finds no match is dropped without an error.\<close>

lemma Process_correlation_miss:
  assumes norm: "Normalize now (Some ev) = Inr r" and cor: "res_IsCorrelation r"
    and key: "res_CorrelationKey r = Some k" and s: "pg_faults s = []"
    and un: "\<And>j. \<not> key_matches (pg_tables s) k j"
  shows "Process PostgresMessageStore now ev s = (s, None)"
proof -
  have t: "tick s = s" using s by (simp add: tick_def)
  have "find_row (pg_plan s) k (pg_tables s) = None"
    using find_row_Some [of "pg_plan s" k "pg_tables s"] un by (cases "find_row (pg_plan s) k (pg_tables s)") auto
  with s have "FindByCorrelationKey k s = (s, Inr None)"
    by (simp add: FindByCorrelationKey_def query_one_def t)
  with norm cor key show ?thesis
    by (simp add: Process_def correlate_def PostgresMessageStore_def)
qed

end
