(* ===== verification/Decoder.thy ===== *)
theory Decoder
  imports Types
begin

text \<open>
  The decoder interface and the registry of \<open>internal/decoder\<close>. A Go interface value is a record
  of its methods; the locale states what the rest of the program relies on of every decoder, and
  each protocol's theory interprets it.
\<close>

section \<open>The Decoder interface (internal/decoder/types.go)\<close>

record decoder =
  dProtocol :: string
  dContractAddresses :: "u64 \<Rightarrow> bytes list"
  dEventTopics :: "bytes list"
  dDecode :: "eth_log \<Rightarrow> u64 \<Rightarrow> error + raw_event"

text \<open>
  \<open>decode_base\<close>: an event carries its log's coordinates, the chain and the decoder's protocol,
  and no timestamp yet. \<open>decode_topic\<close>: only logs the decoder's topic filter asks for decode.
  \<open>decode_type\<close>: the event types are among those announced.
\<close>

locale decoder_iface =
  fixes d :: decoder and types :: "string list"
  assumes decode_base: "dDecode d l c = Inr e \<Longrightarrow>
      re_Protocol e = dProtocol d \<and> re_ChainID e = c \<and> re_BlockNumber e = log_BlockNumber l \<and>
      re_LogIndex e = log_Index l \<and> re_Timestamp e = 0"
    and decode_topic: "dDecode d l c = Inr e \<Longrightarrow>
      log_Topics l \<noteq> [] \<and> hd (log_Topics l) \<in> set (dEventTopics d)"
    and decode_type: "dDecode d l c = Inr e \<Longrightarrow> re_EventType e \<in> set types"
begin

text \<open>The events of a batch of logs: those that decode, in the order of the logs.\<close>

lemma decode_batch_base:
  assumes "e \<in> set (List.map_filter (\<lambda>l. case dDecode d l c of Inl _ \<Rightarrow> None | Inr e \<Rightarrow> Some e) ls)"
  shows "\<exists>l \<in> set ls. dDecode d l c = Inr e \<and> re_Protocol e = dProtocol d \<and> re_ChainID e = c
      \<and> re_BlockNumber e = log_BlockNumber l \<and> re_EventType e \<in> set types"
  using assms
proof (induction ls)
  case (Cons l ls)
  show ?case
  proof (cases "dDecode d l c")
    case (Inl x)
    with Cons show ?thesis by (simp add: List.map_filter_simps)
  next
    case (Inr y)
    then show ?thesis
      using Cons decode_base [OF Inr] decode_type [OF Inr]
      by (auto simp: List.map_filter_simps)
  qed
qed (simp add: List.map_filter_simps)

lemma decode_foreign:
  assumes "log_Topics l = [] \<or> hd (log_Topics l) \<notin> set (dEventTopics d)"
  shows "\<exists>err. dDecode d l c = Inl err"
  using assms decode_topic [of l c] by (cases "dDecode d l c") auto

end

section \<open>The registry (internal/decoder/registry.go)\<close>

text \<open>
  The map from protocol names to decoders as an association list in the order of registration;
  Go does not specify the order in which \<open>All\<close> and \<open>Protocols\<close> range over it, and no statement
  below depends on that order.
\<close>

type_synonym registry = "(string \<times> decoder) list"

definition NewRegistry :: registry where
  "NewRegistry = []"

definition Register :: "registry \<Rightarrow> decoder \<Rightarrow> error + registry" where
  "Register r d =
     (let name = dProtocol d in
      if map_of r name \<noteq> None
      then Inl (Errorf (''decoder already registered for protocol: '' @ name))
      else Inr (r @ [(name, d)]))"

definition Get :: "registry \<Rightarrow> string \<Rightarrow> decoder option" where
  "Get r protocol = map_of r protocol"

definition All_decoders :: "registry \<Rightarrow> decoder list" where
  "All_decoders r = map snd r"

definition Protocols :: "registry \<Rightarrow> string list" where
  "Protocols r = map fst r"

definition registry_ok :: "registry \<Rightarrow> bool" where
  "registry_ok r \<longleftrightarrow> distinct (map fst r) \<and> (\<forall>(n, d) \<in> set r. dProtocol d = n)"

text \<open>Registering a list of decoders, stopping at the first error as the commands do.\<close>

fun register_all :: "registry \<Rightarrow> decoder list \<Rightarrow> error + registry" where
  "register_all r [] = Inr r"
| "register_all r (d # ds) = bind_err (Register r d) (\<lambda>r'. register_all r' ds)"

lemma registry_ok_new [simp]: "registry_ok NewRegistry"
  by (simp add: registry_ok_def NewRegistry_def)

lemma Register_ok_iff:
  "Register r d = Inr r' \<longleftrightarrow> dProtocol d \<notin> fst ` set r \<and> r' = r @ [(dProtocol d, d)]"
  by (auto simp: Register_def Let_def map_of_eq_None_iff)

lemma Register_preserves: "registry_ok r \<Longrightarrow> Register r d = Inr r' \<Longrightarrow> registry_ok r'"
  by (auto simp: registry_ok_def Register_ok_iff)

lemma register_all_iff:
  assumes "registry_ok r"
  shows "register_all r ds = Inr r' \<longleftrightarrow>
     distinct (map dProtocol ds) \<and> (\<forall>d \<in> set ds. dProtocol d \<notin> fst ` set r)
     \<and> r' = r @ map (\<lambda>d. (dProtocol d, d)) ds"
  using assms
proof (induction ds arbitrary: r)
  case (Cons d ds)
  show ?case
  proof (cases "dProtocol d \<in> fst ` set r")
    case True
    then have "\<nexists>s. Register r d = Inr s" by (simp add: Register_ok_iff)
    then show ?thesis using True by (auto simp: bind_err_Inr_iff)
  next
    case False
    then have s: "Register r d = Inr (r @ [(dProtocol d, d)])" by (simp add: Register_ok_iff)
    with Cons.prems have "registry_ok (r @ [(dProtocol d, d)])" by (rule Register_preserves)
    from Cons.IH [OF this] show ?thesis using False by (auto simp: s image_iff)
  qed
qed auto

lemma Get_registered:
  assumes "registry_ok r"
  shows "Get r p = Some d \<longleftrightarrow> d \<in> set (All_decoders r) \<and> dProtocol d = p"
  using assms
  by (force simp: registry_ok_def Get_def All_decoders_def map_of_eq_Some_iff)


end
