(* ===== verification/Processor.thy ===== *)
theory Processor
  imports ChainClient Stores Correlator Decoder
begin

text \<open>
  The indexing loop of one chain and protocol, \<open>internal/indexer/processor.go\<close>: one iteration as a
  function on the loop's state, with every early return and \<open>continue\<close> of the code, over any
  cursor store, block hash store and message store that share a state.
\<close>

section \<open>State\<close>

definition reorgPruneDepth :: u64 where "reorgPruneDepth = 256"

text \<open>
  The arguments of \<open>ProcessChain\<close>; a nil block hash store is \<open>None\<close>. Then what the loop changes:
  its cursor variable, the client, the outside world and the stores.
\<close>

record ('w, 's) env =
  ev_rt :: "'w runtime"
  ev_chainID :: u64
  ev_protocol :: string
  ev_dec :: decoder
  ev_cursors :: "'s CursorStore"
  ev_blockHashes :: "'s BlockHashStore option"
  ev_messages :: "'s MessageStore"
  ev_batchSize :: u64
  ev_pollInterval :: int

record ('w, 's) proc =
  pc_cursor :: u64
  pc_client :: "'w Client"
  pc_world :: 'w
  pc_store :: 's

text \<open>An operation of the client, run on the loop's state.\<close>

definition on_client ::
    "('w Client \<Rightarrow> 'w \<Rightarrow> ('w Client \<times> 'w) \<times> 'r) \<Rightarrow> ('w, 's) proc \<Rightarrow> ('w, 's) proc \<times> 'r" where
  "on_client f p =
     (case f (pc_client p) (pc_world p) of
        ((c, w), r) \<Rightarrow> (p\<lparr>pc_client := c, pc_world := w\<rparr>, r))"

definition on_store :: "('s \<Rightarrow> 's \<times> 'r) \<Rightarrow> ('w, 's) proc \<Rightarrow> ('w, 's) proc \<times> 'r" where
  "on_store f p = (case f (pc_store p) of (s, r) \<Rightarrow> (p\<lparr>pc_store := s\<rparr>, r))"

definition sleep :: "('w, 's) env \<Rightarrow> ('w, 's) proc \<Rightarrow> ('w, 's) proc" where
  "sleep e p = p\<lparr>pc_world := rt_Sleep (ev_rt e) (ev_pollInterval e) (pc_world p)\<rparr>"

definition min_u64 :: "u64 \<Rightarrow> u64 \<Rightarrow> u64" where
  "min_u64 a b = (if a < b then a else b)"

section \<open>Reorganisations\<close>

text \<open>
  The walk back of \<open>checkAndHandleReorg\<close>: from \<open>rewindTo\<close> down to the first block whose record is
  missing or unreadable, whose header cannot be fetched, or whose hash is the recorded one.
\<close>

function walk_back ::
    "('w, 's) env \<Rightarrow> 's BlockHashStore \<Rightarrow> u64 \<Rightarrow> ('w, 's) proc \<Rightarrow> ('w, 's) proc \<times> u64" where
  "walk_back e bh rewindTo p =
     (if rewindTo > 0 then
        (case on_store (bs_GetBlockHash bh (ev_chainID e) rewindTo) p of
           (p, Inl err) \<Rightarrow> (p, rewindTo)
         | (p, Inr (stored, _)) \<Rightarrow>
             if stored = [] then (p, rewindTo)
             else
               (case on_client (BlockHeader (ev_rt e) rewindTo) p of
                  (p, Inl err) \<Rightarrow> (p, rewindTo)
                | (p, Inr h) \<Rightarrow>
                    if hd_Hash h = stored then (p, rewindTo)
                    else walk_back e bh (rewindTo - 1) p))
      else (p, rewindTo))"
  by pat_completeness auto
termination
  by (relation "measure (\<lambda>(e, bh, rewindTo, p). unat rewindTo)")
     (auto simp: unat_minus_one word_gt_0 unat_gt_0)

declare walk_back.simps [simp del]

definition rewind ::
    "('w, 's) env \<Rightarrow> 's BlockHashStore \<Rightarrow> u64 \<Rightarrow> ('w, 's) proc \<Rightarrow> ('w, 's) proc \<times> (error + bool)" where
  "rewind e bh fromBlock p =
     (case walk_back e bh (fromBlock - 1) p of
        (p, rewindTo) \<Rightarrow>
          (case on_store (cs_UpdateCursor (ev_cursors e) (ev_chainID e) (ev_protocol e) rewindTo) p of
             (p, Some err) \<Rightarrow> (p, Inl (Wrapf ''updating cursor for reorg rewind'' err))
           | (p, None) \<Rightarrow>
               (case on_store (bs_DeleteBlockHashesFrom bh (ev_chainID e) (rewindTo + 1)) p of
                  (p, _) \<Rightarrow> (p, Inr True))))"

definition checkAndHandleReorg ::
    "('w, 's) env \<Rightarrow> u64 \<Rightarrow> ('w, 's) proc \<Rightarrow> ('w, 's) proc \<times> (error + bool)" where
  "checkAndHandleReorg e fromBlock p =
     (case ev_blockHashes e of
        None \<Rightarrow> (p, Inr False)
      | Some bh \<Rightarrow>
          if fromBlock = 0 then (p, Inr False)
          else
            (case on_store (bs_GetBlockHash bh (ev_chainID e) (fromBlock - 1)) p of
               (p, Inl err) \<Rightarrow> (p, Inl (Wrapf ''getting stored block hash'' err))
             | (p, Inr (storedHash, _)) \<Rightarrow>
                 if storedHash = [] then (p, Inr False)
                 else
                   (case on_client (BlockHeader (ev_rt e) fromBlock) p of
                      (p, Inl err) \<Rightarrow>
                        (p, Inl (Wrapf (''fetching header for block '' @ dec_word fromBlock) err))
                    | (p, Inr header) \<Rightarrow>
                        if hd_ParentHash header = storedHash then (p, Inr False)
                        else rewind e bh fromBlock p)))"

text \<open>The loop of \<open>storeBlockHashes\<close> over the boundary blocks, with its \<open>seen\<close> set.\<close>

fun store_hashes ::
    "('w, 's) env \<Rightarrow> 's BlockHashStore \<Rightarrow> u64 set \<Rightarrow> u64 list \<Rightarrow> ('w, 's) proc
      \<Rightarrow> ('w, 's) proc \<times> error option" where
  "store_hashes e bh seen [] p = (p, None)"
| "store_hashes e bh seen (b # bs) p =
     (if b \<in> seen then store_hashes e bh seen bs p
      else
        (case on_client (BlockHeader (ev_rt e) b) p of
           (p, Inl err) \<Rightarrow> (p, Some (Wrapf (''fetching header for block '' @ dec_word b) err))
         | (p, Inr header) \<Rightarrow>
             (case on_store (bs_SaveBlockHash bh
                     \<lparr>bhr_ChainID = ev_chainID e, bhr_BlockNumber = b, bhr_BlockHash = hd_Hash header,
                      bhr_ParentHash = hd_ParentHash header\<rparr>) p of
                (p, Some err) \<Rightarrow> (p, Some err)
              | (p, None) \<Rightarrow> store_hashes e bh (insert b seen) bs p)))"

definition storeBlockHashes ::
    "('w, 's) env \<Rightarrow> 's BlockHashStore \<Rightarrow> u64 \<Rightarrow> u64 \<Rightarrow> ('w, 's) proc \<Rightarrow> ('w, 's) proc \<times> error option" where
  "storeBlockHashes e bh fromBlock toBlock p = store_hashes e bh {} [fromBlock, toBlock] p"

section \<open>One batch\<close>

text \<open>
  The body of the loop over the fetched logs: \<open>ts\<close> is the map \<open>blockTimestamps\<close>, read as 0 where a
  timestamp could not be fetched. A log that does not decode and an event that is not processed
  are logged and skipped.
\<close>

definition process_log ::
    "('w, 's) env \<Rightarrow> eth_log \<Rightarrow> (u64 \<rightharpoonup> int) \<Rightarrow> ('w, 's) proc \<Rightarrow> (u64 \<rightharpoonup> int) \<times> ('w, 's) proc" where
  "process_log e ethLog ts p =
     (case dDecode (ev_dec e) ethLog (ev_chainID e) of
        Inl err \<Rightarrow> (ts, p)
      | Inr rawEvent \<Rightarrow>
          let blk = re_BlockNumber rawEvent;
              (ts, p) = (case ts blk of
                 Some _ \<Rightarrow> (ts, p)
               | None \<Rightarrow>
                   (case on_client (BlockTimestamp (ev_rt e) blk) p of
                      (p, Inl err) \<Rightarrow> (ts, p)
                    | (p, Inr t) \<Rightarrow> (ts(blk \<mapsto> t), p)));
              rawEvent = rawEvent\<lparr>re_Timestamp := (case ts blk of None \<Rightarrow> 0 | Some t \<Rightarrow> t)\<rparr>;
              (p, _) = on_store (Process (ev_messages e) (rt_Now (ev_rt e) (pc_world p)) rawEvent) p
          in (ts, p))"

fun process_logs ::
    "('w, 's) env \<Rightarrow> eth_log list \<Rightarrow> (u64 \<rightharpoonup> int) \<Rightarrow> ('w, 's) proc \<Rightarrow> ('w, 's) proc" where
  "process_logs e [] ts p = p"
| "process_logs e (l # ls) ts p = (case process_log e l ts p of (ts, p) \<Rightarrow> process_logs e ls ts p)"

text \<open>Recording the boundary hashes and pruning old ones; neither failure is fatal.\<close>

definition record_hashes :: "('w, 's) env \<Rightarrow> u64 \<Rightarrow> u64 \<Rightarrow> ('w, 's) proc \<Rightarrow> ('w, 's) proc" where
  "record_hashes e fromBlock toBlock p =
     (case ev_blockHashes e of
        None \<Rightarrow> p
      | Some bh \<Rightarrow>
          (case storeBlockHashes e bh fromBlock toBlock p of
             (p, _) \<Rightarrow>
               if toBlock > reorgPruneDepth
               then fst (on_store (bs_PruneBlockHashes bh (ev_chainID e) (toBlock - reorgPruneDepth)) p)
               else p))"

text \<open>How an iteration ends: the loop goes on, \<open>ProcessChain\<close> returns an error, or a call in it never returns.\<close>

datatype outcome = Continue | Return error | Diverge

definition advance :: "('w, 's) env \<Rightarrow> u64 \<Rightarrow> ('w, 's) proc \<Rightarrow> ('w, 's) proc \<times> outcome" where
  "advance e toBlock p =
     (case on_store (cs_UpdateCursor (ev_cursors e) (ev_chainID e) (ev_protocol e) toBlock)
             (p\<lparr>pc_cursor := toBlock\<rparr>) of
        (p, Some err) \<Rightarrow> (p, Return (Wrapf ''updating cursor'' err))
      | (p, None) \<Rightarrow> (p, Continue))"

definition run_batch :: "('w, 's) env \<Rightarrow> u64 \<Rightarrow> u64 \<Rightarrow> ('w, 's) proc \<Rightarrow> ('w, 's) proc \<times> outcome" where
  "run_batch e fromBlock toBlock p =
     (let addresses = dContractAddresses (ev_dec e) (ev_chainID e);
          topics = dEventTopics (ev_dec e) in
      if length addresses = 0 then advance e toBlock p
      else
        (case FetchLogs (ev_rt e) fromBlock toBlock addresses [topics] (pc_client p) (pc_world p) of
           None \<Rightarrow> (p, Diverge)
         | Some ((c, w), Inl err) \<Rightarrow> (sleep e (p\<lparr>pc_client := c, pc_world := w\<rparr>), Continue)
         | Some ((c, w), Inr logs) \<Rightarrow>
             let p = process_logs e logs Map.empty (p\<lparr>pc_client := c, pc_world := w\<rparr>);
                 p = record_hashes e fromBlock toBlock p
             in advance e toBlock p))"

definition iterate :: "('w, 's) env \<Rightarrow> ('w, 's) proc \<Rightarrow> ('w, 's) proc \<times> outcome" where
  "iterate e p =
     (case rt_Err (ev_rt e) (pc_world p) of
        Some err \<Rightarrow> (p, Return err)
      | None \<Rightarrow>
          (case on_client (LatestConfirmedBlock (ev_rt e)) p of
             (p, Inl err) \<Rightarrow> (sleep e p, Continue)
           | (p, Inr latestBlock) \<Rightarrow>
               if pc_cursor p \<ge> latestBlock then (sleep e p, Continue)
               else
                 let fromBlock = pc_cursor p + 1;
                     toBlock = min_u64 (pc_cursor p + ev_batchSize e) latestBlock in
                 (case checkAndHandleReorg e fromBlock p of
                    (p, Inl err) \<Rightarrow> (sleep e p, Continue)
                  | (p, Inr True) \<Rightarrow>
                      (case on_store (cs_LoadCursor (ev_cursors e) (ev_chainID e) (ev_protocol e)) p of
                         (p, Inl err) \<Rightarrow> (p\<lparr>pc_cursor := 0\<rparr>, Return (Wrapf ''reloading cursor after reorg rewind'' err))
                       | (p, Inr cursor) \<Rightarrow> (p\<lparr>pc_cursor := cursor\<rparr>, Continue))
                  | (p, Inr False) \<Rightarrow> run_batch e fromBlock toBlock p)))"

section \<open>The loop\<close>

text \<open>Before the loop: load the cursor and check the topics.\<close>

definition start :: "('w, 's) env \<Rightarrow> 'w Client \<Rightarrow> 'w \<Rightarrow> 's \<Rightarrow> error + ('w, 's) proc" where
  "start e c w s =
     (case cs_LoadCursor (ev_cursors e) (ev_chainID e) (ev_protocol e) s of
        (s, Inl err) \<Rightarrow> Inl (Wrapf ''loading initial cursor'' err)
      | (s, Inr cursor) \<Rightarrow>
          if length (dEventTopics (ev_dec e)) = 0 then Inl (Errorf ''decoder returned no event topics'')
          else Inr \<lparr>pc_cursor = cursor, pc_client = c, pc_world = w, pc_store = s\<rparr>)"

text \<open>The loop as steps: one iteration after which it goes on.\<close>

inductive step :: "('w, 's) env \<Rightarrow> ('w, 's) proc \<Rightarrow> ('w, 's) proc \<Rightarrow> bool" for e where
  iteration: "iterate e p = (p', Continue) \<Longrightarrow> step e p p'"

inductive_simps step_iff: "step e p p'"

text \<open>The loop with a bound on its iterations; \<open>None\<close> when it is still running after them.\<close>

fun loop :: "nat \<Rightarrow> ('w, 's) env \<Rightarrow> ('w, 's) proc \<Rightarrow> (('w, 's) proc \<times> outcome) option" where
  "loop 0 e p = None"
| "loop (Suc n) e p =
     (case iterate e p of
        (p, Continue) \<Rightarrow> loop n e p
      | (p, out) \<Rightarrow> Some (p, out))"

definition ProcessChain ::
    "nat \<Rightarrow> ('w, 's) env \<Rightarrow> 'w Client \<Rightarrow> 'w \<Rightarrow> 's \<Rightarrow> (error + ('w, 's) proc \<times> outcome) option" where
  "ProcessChain n e c w s =
     (case start e c w s of
        Inl err \<Rightarrow> Some (Inl err)
      | Inr p \<Rightarrow> map_option Inr (loop n e p))"

section \<open>Frames\<close>

lemma on_client_frame:
  "on_client f p = (p', r) \<Longrightarrow> pc_store p' = pc_store p \<and> pc_cursor p' = pc_cursor p \<and>
     f (pc_client p) (pc_world p) = ((pc_client p', pc_world p'), r)"
  by (auto simp: on_client_def split: prod.splits)

lemma on_store_frame:
  "on_store f p = (p', r) \<Longrightarrow> pc_client p' = pc_client p \<and> pc_cursor p' = pc_cursor p \<and>
     pc_world p' = pc_world p \<and> f (pc_store p) = (pc_store p', r)"
  by (auto simp: on_store_def split: prod.splits)

lemma sleep_frame [simp]:
  "pc_store (sleep e p) = pc_store p" "pc_cursor (sleep e p) = pc_cursor p"
  "pc_client (sleep e p) = pc_client p"
  by (simp_all add: sleep_def)

text \<open>
  What an operation of the loop keeps of the store, of the client and of the cursor variable:
  \<open>keeps I\<close> for a relation \<open>I\<close> between the stores before and after.
\<close>

definition client_same :: "'w Client \<Rightarrow> 'w Client \<Rightarrow> bool" where
  "client_same c c' \<longleftrightarrow> (\<exists>j. c' = rotated j c)"

lemma client_same_trans: "client_same a b \<Longrightarrow> client_same b c \<Longrightarrow> client_same a c"
  by (auto simp: client_same_def)

lemma client_same_refl [simp]: "client_same c c"
  unfolding client_same_def by (rule exI [of _ 0]) simp

lemma client_same_simps:
  "client_same c c' \<Longrightarrow> set (cl_endpoints c') = set (cl_endpoints c)"
  "client_same c c' \<Longrightarrow> cl_maxBlockRange c' = cl_maxBlockRange c"
  "client_same c c' \<Longrightarrow> cl_confirmationDepth c' = cl_confirmationDepth c"
  "client_same c c' \<Longrightarrow> length (cl_endpoints c') = length (cl_endpoints c)"
  by (auto simp: client_same_def)

lemma withRetry_same: "withRetry rt call c w = ((c', w'), r) \<Longrightarrow> client_same c c'"
  by (auto simp: client_same_def elim: withRetry_result)

lemma client_ops_same:
  "LatestConfirmedBlock rt c w = ((c', w'), q) \<Longrightarrow> client_same c c'"
  "BlockHeader rt n c w = ((c', w'), h) \<Longrightarrow> client_same c c'"
  "BlockTimestamp rt n c w = ((c', w'), t) \<Longrightarrow> client_same c c'"
proof -
  show "LatestConfirmedBlock rt c w = ((c', w'), q) \<Longrightarrow> client_same c c'"
    by (auto simp: LatestConfirmedBlock_def intro: withRetry_same split: prod.splits sum.splits if_splits)
  show h: "BlockHeader rt n c w = ((c', w'), h) \<Longrightarrow> client_same c c'" for h
    by (auto simp: BlockHeader_def intro: withRetry_same split: prod.splits sum.splits)
  show "BlockTimestamp rt n c w = ((c', w'), t) \<Longrightarrow> client_same c c'"
    by (auto simp: BlockTimestamp_def intro: h split: prod.splits sum.splits)
qed

lemma fetch_loop_same:
  assumes "fetch_loop rt to as ts cs acc c w = Some y"
  shows "client_same c (fst (fst y))"
proof (rule fetch_loop.raw_induct
    [where P = "\<lambda>rt to as ts cs acc c w y. client_same c (fst (fst y))", OF _ assms])
  fix loop rt to as ts cs acc c w y
  assume IH: "\<And>rt to as ts cs acc c w y. loop rt to as ts cs acc c w = Some y \<Longrightarrow>
      client_same c (fst (fst y))"
    and run: "(if cs \<le> to then
        (let chunkEnd = cs + cl_maxBlockRange c - 1;
             chunkEnd = (if chunkEnd > to then to else chunkEnd);
             query = \<lparr>fq_FromBlock = cs, fq_ToBlock = chunkEnd, fq_Addresses = as, fq_Topics = ts\<rparr> in
         case withRetry rt (limited rt (\<lambda>ec. ec_FilterLogs ec query)) c w of
           (s, Inl err) \<Rightarrow>
             Some (s, Inl (Wrapf (''fetching logs for blocks '' @ dec_word cs @ ''-'' @ dec_word chunkEnd) err))
         | ((c', w'), Inr logs) \<Rightarrow> loop rt to as ts (cs + cl_maxBlockRange c) (acc @ logs) c' w')
      else Some ((c, w), Inr acc)) = Some y"
  show "client_same c (fst (fst y))"
  proof (cases "cs \<le> to")
    case False
    with run show ?thesis by auto
  next
    case True
    let ?stop = "if cs + cl_maxBlockRange c - 1 > to then to else cs + cl_maxBlockRange c - 1"
    let ?q = "\<lparr>fq_FromBlock = cs, fq_ToBlock = ?stop, fq_Addresses = as, fq_Topics = ts\<rparr>"
    obtain c' w' r where wr: "withRetry rt (limited rt (\<lambda>ec. ec_FilterLogs ec ?q)) c w = ((c', w'), r)"
      by (metis prod.exhaust_sel)
    note same = withRetry_same [OF wr]
    show ?thesis
    proof (cases r)
      case (Inl e)
      with run True wr same show ?thesis by (auto simp: Let_def)
    next
      case (Inr logs)
      with run True wr have
        "loop rt to as ts (cs + cl_maxBlockRange c) (acc @ logs) c' w' = Some y"
        by (simp add: Let_def)
      from IH [OF this] same show ?thesis by (rule client_same_trans [rotated])
    qed
  qed
qed

lemma FetchLogs_same: "FetchLogs rt a b as ts c w = Some ((c', w'), r) \<Longrightarrow> client_same c c'"
  by (auto simp: FetchLogs_def split: if_splits dest: fetch_loop_same)

section \<open>What the database operations leave alone\<close>

text \<open>The message tables of a database: cursors and block hashes erased.\<close>

definition erase :: "pg \<Rightarrow> pg" where
  "erase s = s\<lparr>pg_tables := (pg_tables s)\<lparr>t_cursors := Map.empty, t_block_hashes := Map.empty\<rparr>\<rparr>"

lemma erase_simps [simp]:
  "pg_faults (erase s) = pg_faults s" "pg_now (erase s) = pg_now s" "pg_plan (erase s) = pg_plan s"
  "pg_faults (s\<lparr>pg_tables := t\<rparr>) = pg_faults s"
  by (simp_all add: erase_def)

text \<open>Reading and writing block hashes leaves cursors alone, and the messages when nothing fails.\<close>

definition hash_only :: "pg \<Rightarrow> pg \<Rightarrow> bool" where
  "hash_only s s' \<longleftrightarrow> t_cursors (pg_tables s') = t_cursors (pg_tables s) \<and>
     (pg_faults s = [] \<longrightarrow> pg_faults s' = [] \<and> erase s' = erase s)"

lemma hash_only_refl [simp]: "hash_only s s"
  by (simp add: hash_only_def)

lemma hash_only_trans: "hash_only a b \<Longrightarrow> hash_only b c \<Longrightarrow> hash_only a c"
  by (simp add: hash_only_def)

lemma tick_fault_free: "pg_faults s = [] \<Longrightarrow> tick s = s"
  by (simp add: tick_def)

lemma hash_only_query: "query_one q s = (s', r) \<Longrightarrow> hash_only s s'"
  by (auto simp: query_one_def hash_only_def tick_fault_free)

lemma hash_only_exec:
  "exec_one (\<lambda>t. Inr (t\<lparr>t_block_hashes := f t\<rparr>)) s = (s', r) \<Longrightarrow> hash_only s s'"
  by (auto simp: exec_one_def hash_only_def tick_fault_free erase_def split: if_splits)

text \<open>
  A relation between stores that every block hash operation keeps is kept by the walk back and
  by the recording of a batch.
\<close>

locale hash_frame =
  fixes bh :: "'s BlockHashStore" and R :: "'s \<Rightarrow> 's \<Rightarrow> bool"
  assumes R_refl: "R s s" and R_trans: "R s t \<Longrightarrow> R t u \<Longrightarrow> R s u"
    and R_get: "bs_GetBlockHash bh i b s = (s', q) \<Longrightarrow> R s s'"
    and R_save: "bs_SaveBlockHash bh r s = (s', x) \<Longrightarrow> R s s'"
    and R_prune: "bs_PruneBlockHashes bh i b s = (s', x) \<Longrightarrow> R s s'"
    and R_delete: "bs_DeleteBlockHashesFrom bh i b s = (s', x) \<Longrightarrow> R s s'"
begin

definition F :: "('w, 's) proc \<Rightarrow> ('w, 's) proc \<Rightarrow> bool" where
  "F p p' \<longleftrightarrow> R (pc_store p) (pc_store p') \<and> client_same (pc_client p) (pc_client p') \<and>
     pc_cursor p' = pc_cursor p"

lemma F_refl [simp]: "F p p"
  by (simp add: F_def R_refl)

lemma F_trans: "F a b \<Longrightarrow> F b c \<Longrightarrow> F a c"
  by (auto simp: F_def intro: R_trans client_same_trans)

lemma F_header: "on_client (BlockHeader rt n) p = (p', r) \<Longrightarrow> F p p'"
  by (auto simp: F_def R_refl dest!: on_client_frame intro: client_ops_same(2))

lemma F_store:
  "on_store (bs_GetBlockHash bh i b) p = (p', q) \<Longrightarrow> F p p'"
  "on_store (bs_SaveBlockHash bh r) p = (p', x) \<Longrightarrow> F p p'"
  "on_store (bs_PruneBlockHashes bh i b) p = (p', x) \<Longrightarrow> F p p'"
  "on_store (bs_DeleteBlockHashesFrom bh i b) p = (p', x) \<Longrightarrow> F p p'"
  by (auto simp: F_def dest!: on_store_frame intro: R_get R_save R_prune R_delete)

lemma walk_back_F: "walk_back e bh n p = (p', m) \<Longrightarrow> F p p' \<and> m \<le> n"
proof (induction "unat n" arbitrary: n p rule: less_induct)
  case less
  show ?case
  proof (cases "n > 0")
    case False
    with less.prems show ?thesis by (subst (asm) walk_back.simps) simp
  next
    case True
    obtain p1 q where g: "on_store (bs_GetBlockHash bh (ev_chainID e) n) p = (p1, q)"
      by (cases "on_store (bs_GetBlockHash bh (ev_chainID e) n) p")
    note F1 = F_store(1) [OF g]
    show ?thesis
    proof (cases "\<exists>h. q = Inr h \<and> fst h \<noteq> []")
      case False
      with less.prems True g F1 show ?thesis
        by (subst (asm) walk_back.simps) (auto split: sum.splits prod.splits if_splits)
    next
      case stored: True
      obtain p2 r where h: "on_client (BlockHeader (ev_rt e) n) p1 = (p2, r)"
        by (cases "on_client (BlockHeader (ev_rt e) n) p1")
      note F2 = F_trans [OF F1 F_header [OF h]]
      show ?thesis
      proof (cases "\<exists>hd. r = Inr hd \<and> hd_Hash hd \<noteq> fst (projr q)")
        case False
        with less.prems True g stored h F2 show ?thesis
          by (subst (asm) walk_back.simps) (auto split: sum.splits if_splits)
      next
        case deeper: True
        with less.prems True g stored h have w: "walk_back e bh (n - 1) p2 = (p', m)"
          by (subst (asm) walk_back.simps) (auto split: if_splits)
        have lt: "unat (n - 1) < unat n" using True by (simp add: unat_minus_one word_gt_0 unat_gt_0)
        from less.hyps [OF lt w] have "F p2 p'" "m \<le> n - 1" by auto
        with F2 lt show ?thesis
          by (auto intro: F_trans simp: word_le_nat_alt)
      qed
    qed
  qed
qed

lemma store_hashes_F: "store_hashes e bh seen bs p = (p', x) \<Longrightarrow> F p p'"
proof (induction bs arbitrary: seen p)
  case (Cons b bs)
  show ?case
  proof (cases "b \<in> seen")
    case True
    with Cons show ?thesis by simp
  next
    case False
    with Cons show ?thesis
      by (auto dest!: F_header F_store(2) intro: F_trans
          split: prod.splits sum.splits option.splits)
  qed
qed simp

lemma record_hashes_F:
  assumes "ev_blockHashes e \<in> {None, Some bh}"
  shows "F p (record_hashes e a b p)"
proof (cases "ev_blockHashes e")
  case None
  then show ?thesis by (simp add: record_hashes_def)
next
  case (Some bh')
  with assms have bh: "ev_blockHashes e = Some bh" by simp
  obtain p1 x where s: "storeBlockHashes e bh a b p = (p1, x)" by (cases "storeBlockHashes e bh a b p")
  then have F1: "F p p1" unfolding storeBlockHashes_def by (rule store_hashes_F)
  obtain p2 y where pr: "on_store (bs_PruneBlockHashes bh (ev_chainID e) (b - reorgPruneDepth)) p1 = (p2, y)"
    by (cases "on_store (bs_PruneBlockHashes bh (ev_chainID e) (b - reorgPruneDepth)) p1")
  show ?thesis
    using F1 F_trans [OF F1 F_store(3) [OF pr]] by (simp add: record_hashes_def bh s pr)
qed

end

interpretation pgframe: hash_frame PostgresBlockHashStore hash_only
proof
  show "hash_only s s" for s by simp
  show "hash_only s t \<Longrightarrow> hash_only t u \<Longrightarrow> hash_only s u" for s t u by (rule hash_only_trans)
  show "bs_GetBlockHash PostgresBlockHashStore i b s = (s', q) \<Longrightarrow> hash_only s s'" for i b s s' q
    by (auto simp: PostgresBlockHashStore_def GetBlockHash_def intro: hash_only_query
        split: prod.splits sum.splits if_splits)
  show "bs_SaveBlockHash PostgresBlockHashStore r s = (s', x) \<Longrightarrow> hash_only s s'" for r s s' x
    by (auto simp: PostgresBlockHashStore_def SaveBlockHash_def intro: hash_only_exec
        split: prod.splits option.splits)
  show "bs_PruneBlockHashes PostgresBlockHashStore i b s = (s', x) \<Longrightarrow> hash_only s s'" for i b s s' x
    by (auto simp: PostgresBlockHashStore_def PruneBlockHashes_def intro: hash_only_exec
        split: prod.splits option.splits)
  show "bs_DeleteBlockHashesFrom PostgresBlockHashStore i b s = (s', x) \<Longrightarrow> hash_only s s'" for i b s s' x
    by (auto simp: PostgresBlockHashStore_def DeleteBlockHashesFrom_def intro: hash_only_exec
        split: prod.splits option.splits)
qed

end
