(* ===== verification/LayerZero.thy ===== *)
theory LayerZero
  imports Decoder "HOL-Library.Multiset"
begin

text \<open>
  The LayerZero V2 decoder, \<open>internal/decoder/layerzero/decoder.go\<close>: endpoint tables, the
  decoder's methods and the packet layout of \<open>decodeEncodedPayload\<close>.
\<close>

definition lz_ProtocolName :: string where
  "lz_ProtocolName = ''layerzero_v2''"

definition EndpointToChainID_entries :: "(u32 \<times> u64) list" where
  "EndpointToChainID_entries =
     [(30101, 1), (30102, 56), (30106, 43114), (30109, 137), (30110, 42161), (30111, 10),
      (30112, 250), (30184, 8453), (30183, 59144), (30181, 5000), (30214, 534352)]"

definition EndpointToChainID :: "u32 \<rightharpoonup> u64" where
  "EndpointToChainID = map_of EndpointToChainID_entries"

definition EndpointAddresses_entries :: "(u64 \<times> string) list" where
  "EndpointAddresses_entries =
     [(1, ''0x1a44076050125825900e736c501f859c50fE728c''),
      (56, ''0x1a44076050125825900e736c501f859c50fE728c''),
      (43114, ''0x1a44076050125825900e736c501f859c50fE728c''),
      (137, ''0x1a44076050125825900e736c501f859c50fE728c''),
      (42161, ''0x1a44076050125825900e736c501f859c50fE728c''),
      (10, ''0x1a44076050125825900e736c501f859c50fE728c''),
      (250, ''0x1a44076050125825900e736c501f859c50fE728c''),
      (8453, ''0x1a44076050125825900e736c501f859c50fE728c''),
      (59144, ''0x1a44076050125825900e736c501f859c50fE728c''),
      (5000, ''0x1a44076050125825900e736c501f859c50fE728c''),
      (534352, ''0x1a44076050125825900e736c501f859c50fE728c''),
      (11155111, ''0x6EDCE65403992e310A62460808c4b910D972f10f''),
      (421614, ''0x6EDCE65403992e310A62460808c4b910D972f10f''),
      (84532, ''0x6EDCE65403992e310A62460808c4b910D972f10f''),
      (43113, ''0x6EDCE65403992e310A62460808c4b910D972f10f'')]"

definition EndpointAddresses :: "u64 \<rightharpoonup> string" where
  "EndpointAddresses = map_of EndpointAddresses_entries"

text \<open>
  \<open>init()\<close> ranges over the map in an unspecified order: the order is the argument \<open>es\<close>, a
  permutation of the entries.
\<close>

definition ChainIDToEndpoint :: "(u32 \<times> u64) list \<Rightarrow> (u64 \<rightharpoonup> u32)" where
  "ChainIDToEndpoint es = invert_entries es"

text \<open>The embedded ABI, and the names of its events.\<close>

definition lzABI :: "abi_event list" where
  "lzABI =
    [\<lparr>ev_name = ''PacketSent'', ev_anonymous = False,
       ev_inputs =
         [Input False ''bytes'' ''encodedPayload'' [],
          Input False ''bytes'' ''options'' [],
          Input False ''address'' ''sendLibrary'' []]\<rparr>,
     \<lparr>ev_name = ''PacketDelivered'', ev_anonymous = False,
       ev_inputs =
         [Input False ''tuple'' ''origin'' 
            [Input False ''uint32'' ''srcEid'' [],
             Input False ''bytes32'' ''sender'' [],
             Input False ''uint64'' ''nonce'' []],
          Input False ''address'' ''receiver'' []]\<rparr>,
     \<lparr>ev_name = ''PacketReceived'', ev_anonymous = False,
       ev_inputs =
         [Input False ''tuple'' ''origin'' 
            [Input False ''uint32'' ''srcEid'' [],
             Input False ''bytes32'' ''sender'' [],
             Input False ''uint64'' ''nonce'' []],
          Input False ''address'' ''receiver'' []]\<rparr>,
     \<lparr>ev_name = ''OFTSent'', ev_anonymous = False,
       ev_inputs =
         [Input True ''bytes32'' ''guid'' [],
          Input False ''uint32'' ''dstEid'' [],
          Input True ''address'' ''fromAddress'' [],
          Input False ''uint256'' ''amountSentLD'' [],
          Input False ''uint256'' ''amountReceivedLD'' []]\<rparr>]"

definition lzABI_events :: "string list" where
  "lzABI_events = map ev_name lzABI"

lemma lzABI_names: "lzABI_events = [''PacketSent'', ''PacketDelivered'', ''PacketReceived'', ''OFTSent'']"
  by (simp add: lzABI_events_def lzABI_def)

section \<open>Packet payload\<close>

text \<open>A read of an endpoint in the table, as \<open>if chainID, ok := ...; ok\<close> writes it.\<close>

definition put_chain :: "string \<Rightarrow> u64 option \<Rightarrow> data \<Rightarrow> data" where
  "put_chain k c d = (case c of None \<Rightarrow> d | Some cid \<Rightarrow> d(k \<mapsto> dec_word cid))"

definition put_chain_unknown :: "string \<Rightarrow> u64 option \<Rightarrow> data \<Rightarrow> data" where
  "put_chain_unknown k c d =
     (case c of None \<Rightarrow> d(k \<mapsto> ''unknown'') | Some cid \<Rightarrow> d(k \<mapsto> dec_word cid))"

lemma put_chain_get [simp, data_simps]:
  "data_get (put_chain k c d) j =
     (case c of None \<Rightarrow> data_get d j
      | Some cid \<Rightarrow> if j = k then dec_word cid else data_get d j)"
  by (simp add: put_chain_def split: option.splits)

lemma put_chain_unknown_get [simp, data_simps]:
  "data_get (put_chain_unknown k c d) j =
     (if j = k then (case c of None \<Rightarrow> ''unknown'' | Some cid \<Rightarrow> dec_word cid) else data_get d j)"
  by (simp add: put_chain_unknown_def split: option.splits)

definition decodeEncodedPayload :: "geth \<Rightarrow> bytes \<Rightarrow> data \<Rightarrow> error + data" where
  "decodeEncodedPayload g payload d =
     (if length payload < 113
      then Inl (Errorf (''payload too short, expected at least 113 bytes, got '' @ dec (length payload)))
      else
        let d = d(''version'' \<mapsto> dec_word (payload ! 0));
            nonce = BigEndian (subslice 1 9 payload) :: u64;
            d = d(''nonce'' \<mapsto> dec_word nonce);
            srcEid = BigEndian (subslice 9 13 payload) :: u32;
            d = d(''src_eid'' \<mapsto> dec_word srcEid);
            d = put_chain ''src_chain_id'' (EndpointToChainID srcEid) d;
            senderBytes = subslice 13 45 payload;
            d = d(''sender'' \<mapsto> gAddressHex g (gBytesToAddress g (drop 12 senderBytes)));
            dstEid = BigEndian (subslice 45 49 payload) :: u32;
            d = d(''dst_eid'' \<mapsto> dec_word dstEid);
            d = put_chain ''dst_chain_id'' (EndpointToChainID dstEid) d;
            receiverBytes = subslice 49 81 payload;
            d = d(''receiver'' \<mapsto> gAddressHex g (gBytesToAddress g (drop 12 receiverBytes)));
            guid = subslice 81 113 payload;
            d = d(''guid'' \<mapsto> ''0x'' @ EncodeToString guid);
            d = d(''message'' \<mapsto> (if length payload > 113
                                    then ''0x'' @ EncodeToString (drop 113 payload) else ''0x''))
        in Inr d)"

text \<open>
  The layout the comment of \<open>decodeEncodedPayload\<close> documents, as an encoder: the specification
  the decoder is checked against.
\<close>

record packet =
  pk_version :: byte
  pk_nonce :: u64
  pk_srcEid :: u32
  pk_sender :: bytes
  pk_dstEid :: u32
  pk_receiver :: bytes
  pk_guid :: bytes
  pk_message :: bytes

definition packet_ok :: "packet \<Rightarrow> bool" where
  "packet_ok p \<longleftrightarrow> length (pk_sender p) = 32 \<and> length (pk_receiver p) = 32 \<and> length (pk_guid p) = 32"

definition encode_packet :: "packet \<Rightarrow> bytes" where
  "encode_packet p =
     [pk_version p] @ be_bytes 8 (unat (pk_nonce p)) @ be_bytes 4 (unat (pk_srcEid p)) @ pk_sender p
     @ be_bytes 4 (unat (pk_dstEid p)) @ pk_receiver p @ pk_guid p @ pk_message p"

lemma length_encode_packet:
  "packet_ok p \<Longrightarrow> length (encode_packet p) = 113 + length (pk_message p)"
  by (simp add: packet_ok_def encode_packet_def)

lemma encode_packet_slices:
  assumes "packet_ok p"
  shows "encode_packet p ! 0 = pk_version p"
    and "subslice 1 9 (encode_packet p) = be_bytes 8 (unat (pk_nonce p))"
    and "subslice 9 13 (encode_packet p) = be_bytes 4 (unat (pk_srcEid p))"
    and "subslice 13 45 (encode_packet p) = pk_sender p"
    and "subslice 45 49 (encode_packet p) = be_bytes 4 (unat (pk_dstEid p))"
    and "subslice 49 81 (encode_packet p) = pk_receiver p"
    and "subslice 81 113 (encode_packet p) = pk_guid p"
    and "drop 113 (encode_packet p) = pk_message p"
  using assms by (simp_all add: packet_ok_def encode_packet_def subslice_def)

lemma decode_encode_data:
  assumes "packet_ok p" and "decodeEncodedPayload g (encode_packet p) d = Inr d'"
  shows "data_get d' ''version'' = dec_word (pk_version p)"
    and "data_get d' ''nonce'' = dec_word (pk_nonce p)"
    and "data_get d' ''src_eid'' = dec_word (pk_srcEid p)"
    and "data_get d' ''sender'' = gAddressHex g (gBytesToAddress g (drop 12 (pk_sender p)))"
    and "data_get d' ''dst_eid'' = dec_word (pk_dstEid p)"
    and "data_get d' ''receiver'' = gAddressHex g (gBytesToAddress g (drop 12 (pk_receiver p)))"
    and "data_get d' ''guid'' = ''0x'' @ EncodeToString (pk_guid p)"
    and "data_get d' ''message'' = ''0x'' @ EncodeToString (pk_message p)"
    and "data_get d' ''src_chain_id'' =
      (case EndpointToChainID (pk_srcEid p) of None \<Rightarrow> data_get d ''src_chain_id'' | Some c \<Rightarrow> dec_word c)"
    and "data_get d' ''dst_chain_id'' =
      (case EndpointToChainID (pk_dstEid p) of None \<Rightarrow> data_get d ''dst_chain_id'' | Some c \<Rightarrow> dec_word c)"
proof -
  have w: "BigEndian (be_bytes 8 (unat (pk_nonce p))) = pk_nonce p"
    "BigEndian (be_bytes 4 (unat (pk_srcEid p))) = pk_srcEid p"
    "BigEndian (be_bytes 4 (unat (pk_dstEid p))) = pk_dstEid p"
    by (rule BigEndian_be_bytes, simp)+
  have m: "(if length (encode_packet p) > 113 then ''0x'' @ EncodeToString (pk_message p) else ''0x'')
      = ''0x'' @ EncodeToString (pk_message p)"
    using length_encode_packet [OF assms(1)] by (simp add: EncodeToString_def)
  note d' = assms(2) [unfolded decodeEncodedPayload_def Let_def
      encode_packet_slices [OF assms(1)] w m, symmetric]
  show "data_get d' ''version'' = dec_word (pk_version p)"
    "data_get d' ''nonce'' = dec_word (pk_nonce p)"
    "data_get d' ''src_eid'' = dec_word (pk_srcEid p)"
    "data_get d' ''sender'' = gAddressHex g (gBytesToAddress g (drop 12 (pk_sender p)))"
    "data_get d' ''dst_eid'' = dec_word (pk_dstEid p)"
    "data_get d' ''receiver'' = gAddressHex g (gBytesToAddress g (drop 12 (pk_receiver p)))"
    "data_get d' ''guid'' = ''0x'' @ EncodeToString (pk_guid p)"
    "data_get d' ''message'' = ''0x'' @ EncodeToString (pk_message p)"
    "data_get d' ''src_chain_id'' =
      (case EndpointToChainID (pk_srcEid p) of None \<Rightarrow> data_get d ''src_chain_id'' | Some c \<Rightarrow> dec_word c)"
    "data_get d' ''dst_chain_id'' =
      (case EndpointToChainID (pk_dstEid p) of None \<Rightarrow> data_get d ''dst_chain_id'' | Some c \<Rightarrow> dec_word c)"
    using d' by (simp_all split: if_splits option.splits)
qed

text \<open>Every payload of at least 113 bytes is laid out by the encoder.\<close>

definition parse_packet :: "bytes \<Rightarrow> packet" where
  "parse_packet b =
     \<lparr>pk_version = b ! 0, pk_nonce = BigEndian (subslice 1 9 b), pk_srcEid = BigEndian (subslice 9 13 b),
      pk_sender = subslice 13 45 b, pk_dstEid = BigEndian (subslice 45 49 b), pk_receiver = subslice 49 81 b,
      pk_guid = subslice 81 113 b, pk_message = drop 113 b\<rparr>"

lemma subslice_0_1: "b \<noteq> [] \<Longrightarrow> [b ! 0] = subslice 0 1 b"
  by (cases b) (simp_all add: subslice_def)

lemma encode_parse_packet:
  assumes "113 \<le> length b"
  shows "packet_ok (parse_packet b)" and "encode_packet (parse_packet b) = b"
proof -
  show "packet_ok (parse_packet b)"
    using assms by (simp add: packet_ok_def parse_packet_def)
  have "be_bytes 8 (unat (BigEndian (subslice 1 9 b) :: u64)) = subslice 1 9 b"
    "be_bytes 4 (unat (BigEndian (subslice 9 13 b) :: u32)) = subslice 9 13 b"
    "be_bytes 4 (unat (BigEndian (subslice 45 49 b) :: u32)) = subslice 45 49 b"
    using assms by (intro be_bytes_BigEndian; simp)+
  moreover have "b \<noteq> []" using assms by auto
  ultimately have "encode_packet (parse_packet b) =
      subslice 0 1 b @ subslice 1 9 b @ subslice 9 13 b @ subslice 13 45 b @ subslice 45 49 b @ subslice 49 81 b
      @ subslice 81 113 b @ drop 113 b"
    using subslice_0_1 [of b] by (simp add: encode_packet_def parse_packet_def)
  also have "\<dots> = subslice 0 113 b @ drop 113 b"
    by (simp add: subslice_glue flip: append_assoc)
  also have "\<dots> = b" by (simp add: subslice_def)
  finally show "encode_packet (parse_packet b) = b" .
qed

section \<open>Decode\<close>

text \<open>
  The loop over \<open>parsedABI.Events\<close> picks an event whose topic hash is the log's first topic; Go
  does not fix the order of that loop, which only matters if two events of the ABI share a hash
  (excluded by \<open>distinct_topics\<close> where a statement depends on it).
\<close>

definition lz_event_of :: "geth \<Rightarrow> bytes \<Rightarrow> string option" where
  "lz_event_of g eventID = find (\<lambda>n. gEventID g lz_ProtocolName n = eventID) lzABI_events"

definition lz_decode_sent :: "geth \<Rightarrow> eth_log \<Rightarrow> raw_event \<Rightarrow> error + raw_event" where
  "lz_decode_sent g l rawEvent =
     (case gUnpack g lz_ProtocolName ''PacketSent'' (log_Data l) of
        Inl e \<Rightarrow> Inl (Errorf (''failed to unpack PacketSent: '' @ error_text e))
      | Inr unpacked \<Rightarrow>
          if length unpacked < 1 then Inl (Errorf ''unexpected unpacked size for PacketSent'')
          else (case as_bytes (unpacked ! 0) of
                  None \<Rightarrow> Inl (Errorf ''encodedPayload is not []byte'')
                | Some encodedPayload \<Rightarrow>
                    (case decodeEncodedPayload g encodedPayload (re_Data rawEvent) of
                       Inl e \<Rightarrow> Inl (Errorf (''failed to decode encodedPayload: '' @ error_text e))
                     | Inr d \<Rightarrow> Inr (rawEvent\<lparr>re_Data := d\<rparr>))))"

definition lz_received_data :: "geth \<Rightarrow> packetReceiveData \<Rightarrow> data \<Rightarrow> data" where
  "lz_received_data g received d =
     (let org = pr_Origin received;
          d = d(''src_eid'' \<mapsto> dec_word (po_SrcEid org));
          d = put_chain_unknown ''src_chain_id'' (EndpointToChainID (po_SrcEid org)) d;
          d = d(''sender'' \<mapsto> gAddressHex g (gBytesToAddress g (po_Sender org)));
          d = d(''nonce'' \<mapsto> dec_word (po_Nonce org))
      in d(''receiver'' \<mapsto> gAddressHex g (pr_Receiver received)))"

definition lz_decode_received ::
    "geth \<Rightarrow> eth_log \<Rightarrow> string \<Rightarrow> raw_event \<Rightarrow> error + raw_event" where
  "lz_decode_received g l eventName rawEvent =
     (case gUnpack g lz_ProtocolName eventName (log_Data l) of
        Inl e \<Rightarrow> Inl (Errorf (''failed to unpack PacketReceived: '' @ error_text e))
      | Inr unpacked \<Rightarrow>
          if length unpacked < 2 then Inl (Errorf (''unexpected unpacked size for '' @ eventName))
          else (case gCopyReceived g unpacked of
                  Inl e \<Rightarrow> Inl (Errorf (''failed to decode '' @ eventName @ '' fields: '' @ error_text e))
                | Inr received \<Rightarrow>
                    Inr (rawEvent\<lparr>re_Data := lz_received_data g received (re_Data rawEvent)\<rparr>)))"

definition put_amount :: "string \<Rightarrow> int option \<Rightarrow> data \<Rightarrow> data" where
  "put_amount k a d = (case a of None \<Rightarrow> d | Some i \<Rightarrow> d(k \<mapsto> dec_int i))"

definition lz_decode_oft :: "geth \<Rightarrow> eth_log \<Rightarrow> raw_event \<Rightarrow> error + raw_event" where
  "lz_decode_oft g l rawEvent =
     (let ts = log_Topics l;
          d = (if length ts \<ge> 3
               then (re_Data rawEvent)
                 (''guid'' \<mapsto> gHashHex g (ts ! 1),
                  ''from_address'' \<mapsto> gAddressHex g (gBytesToAddress g (ts ! 2)))
               else re_Data rawEvent)
      in case gUnpack g lz_ProtocolName ''OFTSent'' (log_Data l) of
           Inl e \<Rightarrow> Inl (Errorf (''failed to unpack OFTSent: '' @ error_text e))
         | Inr unpacked \<Rightarrow>
             if length unpacked < 3 then Inl (Errorf ''unexpected unpacked size for OFTSent'')
             else (case gCopyOFTSent g unpacked of
                     Inl e \<Rightarrow> Inl (Errorf (''failed to decode OFTSent fields: '' @ error_text e))
                   | Inr sent \<Rightarrow>
                       let d = d(''dst_eid'' \<mapsto> dec_word (oft_DstEid sent));
                           d = put_chain_unknown ''dst_chain_id'' (EndpointToChainID (oft_DstEid sent)) d;
                           d = put_amount ''amount_sent'' (oft_AmountSentLD sent) d;
                           d = put_amount ''amount_received'' (oft_AmountReceivedLD sent) d
                       in Inr (rawEvent\<lparr>re_Data := d\<rparr>)))"

definition lz_Decode :: "geth \<Rightarrow> eth_log \<Rightarrow> u64 \<Rightarrow> error + raw_event" where
  "lz_Decode g l chainID =
     (case log_Topics l of
        [] \<Rightarrow> Inl (Errorf ''no topics in log'')
      | eventID # _ \<Rightarrow>
          (case lz_event_of g eventID of
             None \<Rightarrow> Inl (Errorf (''unknown event topic: '' @ gHashHex g eventID))
           | Some eventName \<Rightarrow>
               let ty = (if eventName = ''PacketDelivered'' then ''PacketReceived'' else eventName);
                   rawEvent = base_event g lz_ProtocolName l chainID ty Map.empty
               in if eventName = ''PacketSent'' then lz_decode_sent g l rawEvent
                  else if eventName = ''PacketDelivered'' \<or> eventName = ''PacketReceived''
                  then lz_decode_received g l eventName rawEvent
                  else if eventName = ''OFTSent'' then lz_decode_oft g l rawEvent
                  else Inr rawEvent))"

definition lz_ContractAddresses :: "geth \<Rightarrow> u64 \<Rightarrow> bytes list" where
  "lz_ContractAddresses g chainID =
     (case EndpointAddresses chainID of Some addr \<Rightarrow> [gHexToAddress g addr] | None \<Rightarrow> [])"

definition lz_EventTopics :: "geth \<Rightarrow> bytes list" where
  "lz_EventTopics g =
     map (gEventID g lz_ProtocolName) [''PacketSent'', ''PacketDelivered'', ''PacketReceived'', ''OFTSent'']"

definition NewLayerZeroDecoder :: "geth \<Rightarrow> decoder" where
  "NewLayerZeroDecoder g =
     \<lparr>dProtocol = lz_ProtocolName, dContractAddresses = lz_ContractAddresses g,
      dEventTopics = lz_EventTopics g, dDecode = lz_Decode g\<rparr>"

definition lz_event_types :: "string list" where
  "lz_event_types = [''PacketSent'', ''PacketReceived'', ''OFTSent'']"

lemma lz_event_of_Some:
  assumes "lz_event_of g t = Some n"
  shows "n \<in> set lzABI_events" "gEventID g lz_ProtocolName n = t"
  using assms by (auto simp: lz_event_of_def find_Some_iff)

lemmas lz_branch_defs = lz_decode_sent_def lz_decode_received_def lz_decode_oft_def

text \<open>Each branch only writes the data of the event it is given.\<close>

lemma lz_branch_frame:
  "lz_decode_sent g l e = Inr e' \<Longrightarrow> e' = e\<lparr>re_Data := re_Data e'\<rparr>"
  "lz_decode_received g l n e = Inr e' \<Longrightarrow> e' = e\<lparr>re_Data := re_Data e'\<rparr>"
  "lz_decode_oft g l e = Inr e' \<Longrightarrow> e' = e\<lparr>re_Data := re_Data e'\<rparr>"
  by (auto simp: lz_branch_defs Let_def split: sum.splits option.splits if_splits)

lemma lz_Decode_cases:
  assumes "lz_Decode g l c = Inr e"
  obtains n t ts where "log_Topics l = t # ts" "lz_event_of g t = Some n"
    "e = (base_event g lz_ProtocolName l c
            (if n = ''PacketDelivered'' then ''PacketReceived'' else n) Map.empty)\<lparr>re_Data := re_Data e\<rparr>"
  using assms
  by (auto simp: lz_Decode_def Let_def base_event_def dest!: lz_branch_frame
      split: list.splits option.splits if_splits)

interpretation lz: decoder_iface "NewLayerZeroDecoder g" lz_event_types for g
proof unfold_locales
  fix l c e assume "dDecode (NewLayerZeroDecoder g) l c = Inr e"
  then have d: "lz_Decode g l c = Inr e" by (simp add: NewLayerZeroDecoder_def)
  then obtain n t ts where n: "log_Topics l = t # ts" "lz_event_of g t = Some n"
    and e: "e = (base_event g lz_ProtocolName l c
            (if n = ''PacketDelivered'' then ''PacketReceived'' else n) Map.empty)\<lparr>re_Data := re_Data e\<rparr>"
    by (rule lz_Decode_cases)
  have mem: "n \<in> set lzABI_events" and ev: "gEventID g lz_ProtocolName n = t"
    using lz_event_of_Some [OF n(2)] by auto
  show "re_Protocol e = dProtocol (NewLayerZeroDecoder g) \<and> re_ChainID e = c \<and>
      re_BlockNumber e = log_BlockNumber l \<and> re_LogIndex e = log_Index l \<and> re_Timestamp e = 0"
    by (subst e, subst e, subst e, subst e, subst e) (simp add: base_event_def NewLayerZeroDecoder_def)
  show "log_Topics l \<noteq> [] \<and> hd (log_Topics l) \<in> set (dEventTopics (NewLayerZeroDecoder g))"
    using n(1) ev mem by (auto simp: NewLayerZeroDecoder_def lz_EventTopics_def lzABI_names)
  show "re_EventType e \<in> set lz_event_types"
    using mem by (subst e) (auto simp: base_event_def lz_event_types_def lzABI_names)
qed

section \<open>Properties\<close>

text \<open>The data written for a packet.\<close>

definition lz_fields_ok :: "geth \<Rightarrow> packet \<Rightarrow> data \<Rightarrow> bool" where
  "lz_fields_ok g p d \<longleftrightarrow>
      data_get d ''version'' = dec_word (pk_version p) \<and>
      ParseUint10 (data_get d ''nonce'') = Inr (pk_nonce p) \<and>
      data_get d ''src_eid'' = dec_word (pk_srcEid p) \<and>
      data_get d ''dst_eid'' = dec_word (pk_dstEid p) \<and>
      data_get d ''sender'' = gAddressHex g (gBytesToAddress g (drop 12 (pk_sender p))) \<and>
      data_get d ''receiver'' = gAddressHex g (gBytesToAddress g (drop 12 (pk_receiver p))) \<and>
      data_get d ''guid'' = ''0x'' @ EncodeToString (pk_guid p) \<and>
      data_get d ''message'' = ''0x'' @ EncodeToString (pk_message p) \<and>
      (case EndpointToChainID (pk_srcEid p) of
         None \<Rightarrow> True | Some c \<Rightarrow> data_get d ''src_chain_id'' = dec_word c) \<and>
      (case EndpointToChainID (pk_dstEid p) of
         None \<Rightarrow> True | Some c \<Rightarrow> data_get d ''dst_chain_id'' = dec_word c)"

lemma decode_encode_fields:
  assumes "packet_ok p" and "decodeEncodedPayload g (encode_packet p) d = Inr d'"
  shows "lz_fields_ok g p d'"
  using decode_encode_data [OF assms] by (simp add: lz_fields_ok_def split: option.splits)

text \<open>
  C11: LayerZero packet decoding. A payload is refused exactly when it is shorter than 113 bytes;
  every other payload is the documented layout of some packet, and the data written for it are
  that packet's fields: version, nonce, both endpoint ids and message, the last 20 bytes of
  sender and receiver as addresses, the guid as 0x-prefixed hexadecimal, and the EVM chain id of
  each endpoint that is in the table.
\<close>

theorem lz_packet_roundtrip:
  "(case decodeEncodedPayload g b d of
      Inl _ \<Rightarrow> length b < 113
    | Inr d' \<Rightarrow> 113 \<le> length b \<and> (\<exists>p. packet_ok p \<and> encode_packet p = b \<and> lz_fields_ok g p d'))
   \<and> (packet_ok p \<longrightarrow>
       (\<exists>d'. decodeEncodedPayload g (encode_packet p) d = Inr d' \<and> lz_fields_ok g p d'))"
proof (intro conjI impI)
  show "case decodeEncodedPayload g b d of
      Inl _ \<Rightarrow> length b < 113
    | Inr d' \<Rightarrow> 113 \<le> length b \<and> (\<exists>p. packet_ok p \<and> encode_packet p = b \<and> lz_fields_ok g p d')"
  proof (cases "decodeEncodedPayload g b d")
    case (Inl e)
    then show ?thesis by (simp add: decodeEncodedPayload_def Let_def split: if_splits)
  next
    case (Inr d')
    then have len: "113 \<le> length b" by (simp add: decodeEncodedPayload_def split: if_splits)
    note enc = encode_parse_packet [OF len]
    have "lz_fields_ok g (parse_packet b) d'"
      using decode_encode_fields [OF enc(1)] Inr by (simp add: enc(2))
    then show ?thesis using Inr len enc by auto
  qed
next
  assume ok: "packet_ok p"
  then have "113 \<le> length (encode_packet p)" by (simp add: length_encode_packet)
  then obtain d' where "decodeEncodedPayload g (encode_packet p) d = Inr d'"
    by (simp add: decodeEncodedPayload_def Let_def)
  with ok show "\<exists>d'. decodeEncodedPayload g (encode_packet p) d = Inr d' \<and> lz_fields_ok g p d'"
    by (blast intro: decode_encode_fields)
qed

definition demo_packet :: packet where
  "demo_packet = \<lparr>pk_version = 1, pk_nonce = 7, pk_srcEid = 30101, pk_sender = replicate 32 1,
     pk_dstEid = 30110, pk_receiver = replicate 32 2, pk_guid = replicate 32 3, pk_message = [9]\<rparr>"

lemma demo_packet_ok: "packet_ok demo_packet"
  by (simp add: packet_ok_def demo_packet_def)

theorem lz_packet_roundtrip_witness:
  "\<exists>d'. decodeEncodedPayload (ref_geth (\<lambda>_ _ _. Inr [])) (encode_packet demo_packet) Map.empty = Inr d'
     \<and> lz_fields_ok (ref_geth (\<lambda>_ _ _. Inr [])) demo_packet d'"
  using lz_packet_roundtrip [where g = "ref_geth (\<lambda>_ _ _. Inr [])" and b = "[]" and d = Map.empty
      and p = demo_packet] demo_packet_ok
  by blast

lemma EndpointToChainID_distinct:
  "distinct (map fst EndpointToChainID_entries)" "distinct (map snd EndpointToChainID_entries)"
  by (simp_all add: EndpointToChainID_entries_def)

text \<open>
  The LayerZero endpoint tables. In whatever order \<open>init()\<close> ranges over the endpoint table,
  the reverse table it builds is its exact inverse: a chain id maps to an endpoint id exactly when
  that endpoint id maps to the chain id.
\<close>

lemma lz_endpoint_inverse:
  assumes "mset es = mset EndpointToChainID_entries"
  shows "ChainIDToEndpoint es cid = Some eid \<longleftrightarrow> EndpointToChainID eid = Some cid"
proof -
  have "distinct (map snd es)"
    using assms EndpointToChainID_distinct(2) by (metis mset_eq_imp_distinct_iff mset_map)
  then have "ChainIDToEndpoint es cid = Some eid \<longleftrightarrow> (eid, cid) \<in> set es"
    by (simp add: ChainIDToEndpoint_def invert_entries_iff)
  also have "\<dots> \<longleftrightarrow> (eid, cid) \<in> set EndpointToChainID_entries"
    using assms mset_eq_setD by blast
  finally show ?thesis
    using EndpointToChainID_distinct(1) by (simp add: EndpointToChainID_def map_of_eq_Some_iff)
qed

section \<open>What decoded events carry for the correlation\<close>

lemma lz_branch_type:
  "lz_decode_sent g l e = Inr e' \<Longrightarrow> re_EventType e' = re_EventType e"
  "lz_decode_received g l n e = Inr e' \<Longrightarrow> re_EventType e' = re_EventType e"
  "lz_decode_oft g l e = Inr e' \<Longrightarrow> re_EventType e' = re_EventType e"
  by (auto simp: lz_branch_defs Let_def split: sum.splits option.splits if_splits)

lemma base_event_type [simp]: "re_EventType (base_event g p l c ty d) = ty"
  by (simp add: base_event_def)

lemma lz_event_branch:
  assumes "lz_Decode g l c = Inr e"
  shows "re_EventType e = ''PacketSent'' \<Longrightarrow>
      lz_decode_sent g l (base_event g lz_ProtocolName l c ''PacketSent'' Map.empty) = Inr e"
    and "re_EventType e = ''PacketReceived'' \<Longrightarrow> \<exists>n.
      lz_decode_received g l n (base_event g lz_ProtocolName l c ''PacketReceived'' Map.empty) = Inr e"
  using assms
  by (auto simp: lz_Decode_def Let_def dest: lz_branch_type
      split: list.splits option.splits if_splits)

lemma lz_sent_fields:
  assumes "lz_Decode g l c = Inr e" and "re_EventType e = ''PacketSent''"
  obtains p where "packet_ok p" and "lz_fields_ok g p (re_Data e)"
proof -
  from lz_event_branch(1) [OF assms] obtain b d where d: "decodeEncodedPayload g b Map.empty = Inr d"
    and e: "re_Data e = d"
    by (auto simp: lz_decode_sent_def base_event_def split: sum.splits option.splits if_splits)
  then have len: "113 \<le> length b" by (simp add: decodeEncodedPayload_def split: if_splits)
  note enc = encode_parse_packet [OF len]
  have "lz_fields_ok g (parse_packet b) d"
    using decode_encode_fields [OF enc(1)] d by (simp add: enc(2))
  with that enc(1) e show thesis by blast
qed

lemma lz_received_fields:
  assumes "lz_Decode g l c = Inr e" and "re_EventType e = ''PacketReceived''"
  obtains r :: packetReceiveData where "event_data e ''nonce'' = dec_word (po_Nonce (pr_Origin r))"
    and "event_data e ''src_eid'' = dec_word (po_SrcEid (pr_Origin r))"
    and "event_data e ''sender'' = gAddressHex g (gBytesToAddress g (po_Sender (pr_Origin r)))"
    and "event_data e ''receiver'' = gAddressHex g (pr_Receiver r)"
    and "event_data e ''src_chain_id'' =
      (case EndpointToChainID (po_SrcEid (pr_Origin r)) of None \<Rightarrow> ''unknown'' | Some c \<Rightarrow> dec_word c)"
proof -
  from lz_event_branch(2) [OF assms] obtain n where
    "lz_decode_received g l n (base_event g lz_ProtocolName l c ''PacketReceived'' Map.empty) = Inr e"
    by blast
  then obtain r where "re_Data e = lz_received_data g r Map.empty"
    by (auto simp: lz_decode_received_def base_event_def split: sum.splits if_splits)
  then show thesis by (intro that [of r]) (simp_all add: lz_received_data_def Let_def)
qed

end
