(* ===== verification/Wormhole.thy ===== *)
theory Wormhole
  imports Decoder "HOL-Library.Multiset"
begin

text \<open>
  The Wormhole decoder: chain and contract tables, the two events of
  \<open>internal/decoder/wormhole/decoder.go\<close>, and the token bridge payload of
  \<open>internal/decoder/wormhole/vaa.go\<close>.
\<close>

definition wh_ProtocolName :: string where
  "wh_ProtocolName = ''wormhole''"

definition WormholeChainIDToEVM_entries :: "(u16 \<times> u64) list" where
  "WormholeChainIDToEVM_entries =
     [(2, 1), (4, 56), (5, 137), (6, 43114), (10, 250), (13, 8217), (14, 42220), (16, 1284),
      (23, 42161), (24, 10), (30, 8453), (35, 534352)]"

definition WormholeChainIDToEVM :: "u16 \<rightharpoonup> u64" where
  "WormholeChainIDToEVM = map_of WormholeChainIDToEVM_entries"

text \<open>The reverse table of \<open>init()\<close>, for the order \<open>es\<close> in which the map is ranged over.\<close>

definition EVMToWormholeChainID_in :: "(u16 \<times> u64) list \<Rightarrow> (u64 \<rightharpoonup> u16)" where
  "EVMToWormholeChainID_in es = invert_entries es"

definition EVMToWormholeChainID :: "u64 \<rightharpoonup> u16" where
  "EVMToWormholeChainID = EVMToWormholeChainID_in WormholeChainIDToEVM_entries"

definition CoreBridgeAddresses_entries :: "(u64 \<times> string) list" where
  "CoreBridgeAddresses_entries =
     [(1, ''0x98f3c9e6E3fAce36bAAd05FE09d375Ef1464288B''),
      (56, ''0x98f3c9e6E3fAce36bAAd05FE09d375Ef1464288B''),
      (137, ''0x7A4B5a56256163F07b2C80A7cA55aBE66c4ec4d7''),
      (43114, ''0x54a8e5f9c4CbA08F9943965859F6c34eAF03E26c''),
      (42161, ''0xa5f208e072434bC67592E4C49C1B991BA79BCA46''),
      (10, ''0xEe91C335eab126dF5fDB3797EA9d6aD93aeC9722''),
      (8453, ''0xbebdb6C8ddC678FfA9f8748f85C815C556Dd8ac6''),
      (250, ''0x126783A6Cb203a3E35344528B26ca3a0489a1485'')]"

definition CoreBridgeAddresses :: "u64 \<rightharpoonup> string" where
  "CoreBridgeAddresses = map_of CoreBridgeAddresses_entries"

definition TokenBridgeAddresses_entries :: "(u64 \<times> string) list" where
  "TokenBridgeAddresses_entries =
     [(1, ''0x3ee18B2214AFF97000D974cf647E7C347E8fa585''),
      (56, ''0xB6F6D86a8f9879A9c87f643768d9efc38c1Da6E7''),
      (137, ''0x5a58505a96D1dbf8dF91cB21B54419FC36e93fdE''),
      (43114, ''0x0e082F06FF657D94310cB8cE8B0D9a04541d8052''),
      (42161, ''0x0b2402144Bb366A632D14B83F244D2e0e21bD39c''),
      (10, ''0x1D68124e65faFC907325e3EDbF8c4d84499DAa8b''),
      (8453, ''0x8d2de8d2f73F1F4cAB472AC9A881C9b123C79627''),
      (250, ''0x7C9Fc5741288cDFdD83CeB07f3ea7e22618D79D2'')]"

definition TokenBridgeAddresses :: "u64 \<rightharpoonup> string" where
  "TokenBridgeAddresses = map_of TokenBridgeAddresses_entries"

definition wormholeABI :: "abi_event list" where
  "wormholeABI =
    [\<lparr>ev_name = ''LogMessagePublished'', ev_anonymous = False,
       ev_inputs =
         [Input True ''address'' ''sender'' [],
          Input False ''uint64'' ''sequence'' [],
          Input False ''uint32'' ''nonce'' [],
          Input False ''bytes'' ''payload'' [],
          Input False ''uint8'' ''consistencyLevel'' []]\<rparr>,
     \<lparr>ev_name = ''TransferRedeemed'', ev_anonymous = False,
       ev_inputs =
         [Input True ''uint16'' ''emitterChainId'' [],
          Input True ''bytes32'' ''emitterAddress'' [],
          Input True ''uint64'' ''sequence'' []]\<rparr>]"

definition wormholeABI_events :: "string list" where
  "wormholeABI_events = map ev_name wormholeABI"

lemma wormholeABI_names: "wormholeABI_events = [''LogMessagePublished'', ''TransferRedeemed'']"
  by (simp add: wormholeABI_events_def wormholeABI_def)

section \<open>Token bridge payloads (vaa.go)\<close>

definition PayloadTypeTransfer :: byte where "PayloadTypeTransfer = 1"
definition PayloadTypeAttestMeta :: byte where "PayloadTypeAttestMeta = 2"
definition PayloadTypeTransferWithMessage :: byte where "PayloadTypeTransferWithMessage = 3"

definition transferPayloadMinLen :: nat where "transferPayloadMinLen = 101"
definition payloadIDOffset :: nat where "payloadIDOffset = 0"
definition amountOffset :: nat where "amountOffset = 1"
definition tokenAddressOffset :: nat where "tokenAddressOffset = 33"
definition tokenChainOffset :: nat where "tokenChainOffset = 65"
definition toAddressOffset :: nat where "toAddressOffset = 67"
definition toChainOffset :: nat where "toChainOffset = 99"
definition feeOffset :: nat where "feeOffset = 101"

lemmas vaa_consts = PayloadTypeTransfer_def PayloadTypeAttestMeta_def
  PayloadTypeTransferWithMessage_def transferPayloadMinLen_def payloadIDOffset_def amountOffset_def
  tokenAddressOffset_def tokenChainOffset_def toAddressOffset_def toChainOffset_def feeOffset_def

record TokenTransferPayload =
  tt_PayloadType :: byte
  tt_Amount :: string
  tt_TokenAddress :: string
  tt_TokenChain :: u16
  tt_TokenChainEVM :: u64
  tt_ToAddress :: string
  tt_ToChain :: u16
  tt_ToChainEVM :: u64
  tt_Fee :: string
  tt_ExtraPayload :: bytes

text \<open>\<open>None\<close> is the result \<open>nil, nil\<close>: not a transfer, and no error.\<close>

definition ParseTokenBridgePayload :: "geth \<Rightarrow> bytes \<Rightarrow> error + TokenTransferPayload option" where
  "ParseTokenBridgePayload g payload =
     (if length payload = 0 then Inr None
      else
        let payloadType = payload ! payloadIDOffset in
        if payloadType \<noteq> PayloadTypeTransfer \<and> payloadType \<noteq> PayloadTypeTransferWithMessage
        then Inr None
        else if length payload < transferPayloadMinLen
        then Inl (Errorf (''wormhole token bridge payload too short: got '' @ dec (length payload)
                          @ '' bytes, need at least '' @ dec transferPayloadMinLen))
        else
          let amountBytes = subslice amountOffset (amountOffset + 32) payload;
              tokenAddrBytes = subslice tokenAddressOffset (tokenAddressOffset + 32) payload;
              tokenChain = BigEndian (subslice tokenChainOffset (tokenChainOffset + 2) payload) :: u16;
              toAddrBytes = subslice toAddressOffset (toAddressOffset + 32) payload;
              toChain = BigEndian (subslice toChainOffset (toChainOffset + 2) payload) :: u16;
              fee = (if payloadType = PayloadTypeTransfer \<and> length payload \<ge> feeOffset + 32
                     then ''0x'' @ EncodeToString (subslice feeOffset (feeOffset + 32) payload)
                     else []);
              extra = (if payloadType = PayloadTypeTransferWithMessage \<and> length payload > feeOffset
                       then drop feeOffset payload else [])
          in Inr (Some
               \<lparr>tt_PayloadType = payloadType,
                tt_Amount = ''0x'' @ EncodeToString amountBytes,
                tt_TokenAddress = gAddressHex g (gBytesToAddress g (drop 12 tokenAddrBytes)),
                tt_TokenChain = tokenChain,
                tt_TokenChainEVM = (case WormholeChainIDToEVM tokenChain of Some e \<Rightarrow> e | None \<Rightarrow> 0),
                tt_ToAddress = gAddressHex g (gBytesToAddress g (drop 12 toAddrBytes)),
                tt_ToChain = toChain,
                tt_ToChainEVM = (case WormholeChainIDToEVM toChain of Some e \<Rightarrow> e | None \<Rightarrow> 0),
                tt_Fee = fee,
                tt_ExtraPayload = extra\<rparr>))"

text \<open>
  A token bridge transfer and its layout: 101 bytes of header, with the offsets of the table in
  \<open>vaa.go\<close>, and a tail of any length. The tail of a transfer with message (type 3) is the message;
  that of a transfer (type 1) starts with the fee. The parser reads the fee as a \<open>uint256\<close> of the 32
  bytes 101 to 132, as its own comment says, and leaves it empty when the tail is shorter; the
  table gives the fee a size of 2.
\<close>

record transfer =
  tr_with_message :: bool
  tr_amount :: bytes
  tr_tokenAddress :: bytes
  tr_tokenChain :: u16
  tr_toAddress :: bytes
  tr_toChain :: u16
  tr_tail :: bytes

definition transfer_ok :: "transfer \<Rightarrow> bool" where
  "transfer_ok t \<longleftrightarrow> length (tr_amount t) = 32 \<and> length (tr_tokenAddress t) = 32 \<and>
     length (tr_toAddress t) = 32"

definition transfer_type :: "transfer \<Rightarrow> byte" where
  "transfer_type t = (if tr_with_message t then PayloadTypeTransferWithMessage else PayloadTypeTransfer)"

definition encode_transfer :: "transfer \<Rightarrow> bytes" where
  "encode_transfer t =
     [transfer_type t] @ tr_amount t @ tr_tokenAddress t @ be_bytes 2 (unat (tr_tokenChain t))
     @ tr_toAddress t @ be_bytes 2 (unat (tr_toChain t)) @ tr_tail t"

lemma encode_transfer_slices:
  assumes "transfer_ok t"
  shows "encode_transfer t ! payloadIDOffset = transfer_type t"
    and "subslice amountOffset (amountOffset + 32) (encode_transfer t) = tr_amount t"
    and "subslice tokenAddressOffset (tokenAddressOffset + 32) (encode_transfer t) = tr_tokenAddress t"
    and "subslice tokenChainOffset (tokenChainOffset + 2) (encode_transfer t) =
         be_bytes 2 (unat (tr_tokenChain t))"
    and "subslice toAddressOffset (toAddressOffset + 32) (encode_transfer t) = tr_toAddress t"
    and "subslice toChainOffset (toChainOffset + 2) (encode_transfer t) =
         be_bytes 2 (unat (tr_toChain t))"
    and "drop feeOffset (encode_transfer t) = tr_tail t"
    and "length (encode_transfer t) = feeOffset + length (tr_tail t)"
    and "subslice feeOffset (feeOffset + 32) (encode_transfer t) = take 32 (tr_tail t)"
  using assms by (simp_all add: transfer_ok_def encode_transfer_def subslice_def vaa_consts)

text \<open>What a decoded transfer should contain.\<close>

definition transfer_decoded :: "geth \<Rightarrow> transfer \<Rightarrow> TokenTransferPayload" where
  "transfer_decoded g t =
     \<lparr>tt_PayloadType = transfer_type t,
      tt_Amount = ''0x'' @ EncodeToString (tr_amount t),
      tt_TokenAddress = gAddressHex g (gBytesToAddress g (drop 12 (tr_tokenAddress t))),
      tt_TokenChain = tr_tokenChain t,
      tt_TokenChainEVM = (case WormholeChainIDToEVM (tr_tokenChain t) of Some e \<Rightarrow> e | None \<Rightarrow> 0),
      tt_ToAddress = gAddressHex g (gBytesToAddress g (drop 12 (tr_toAddress t))),
      tt_ToChain = tr_toChain t,
      tt_ToChainEVM = (case WormholeChainIDToEVM (tr_toChain t) of Some e \<Rightarrow> e | None \<Rightarrow> 0),
      tt_Fee = (if tr_with_message t \<or> length (tr_tail t) < 32 then []
                else ''0x'' @ EncodeToString (take 32 (tr_tail t))),
      tt_ExtraPayload = (if tr_with_message t then tr_tail t else [])\<rparr>"

lemma transfer_type_cases:
  "transfer_type t = PayloadTypeTransfer \<longleftrightarrow> \<not> tr_with_message t"
  "transfer_type t = PayloadTypeTransferWithMessage \<longleftrightarrow> tr_with_message t"
  by (auto simp: transfer_type_def vaa_consts)

lemma parse_encode_transfer:
  assumes "transfer_ok t"
  shows "ParseTokenBridgePayload g (encode_transfer t) = Inr (Some (transfer_decoded g t))"
proof -
  have w: "BigEndian (be_bytes 2 (unat (tr_tokenChain t))) = tr_tokenChain t"
    "BigEndian (be_bytes 2 (unat (tr_toChain t))) = tr_toChain t"
    by (rule BigEndian_be_bytes, simp)+
  have len: "length (encode_transfer t) \<noteq> 0" "\<not> length (encode_transfer t) < transferPayloadMinLen"
    by (simp_all add: encode_transfer_slices [OF assms] vaa_consts)
  show ?thesis
    unfolding ParseTokenBridgePayload_def Let_def encode_transfer_slices [OF assms] w
    using len assms
    by (cases "tr_with_message t")
       (simp_all add: transfer_type_def transfer_decoded_def encode_transfer_slices [OF assms]
          transfer_ok_def vaa_consts)
qed

lemma ParseTokenBridgePayload_outcome:
  "(\<exists>e. ParseTokenBridgePayload g b = Inl e) \<longleftrightarrow>
     b \<noteq> [] \<and> (b ! 0 = PayloadTypeTransfer \<or> b ! 0 = PayloadTypeTransferWithMessage) \<and> length b < 101"
  "ParseTokenBridgePayload g b = Inr None \<longleftrightarrow>
     b = [] \<or> (b ! 0 \<noteq> PayloadTypeTransfer \<and> b ! 0 \<noteq> PayloadTypeTransferWithMessage)"
  by (auto simp: ParseTokenBridgePayload_def Let_def payloadIDOffset_def transferPayloadMinLen_def)

text \<open>The transfer a payload of at least 101 bytes lays out.\<close>

definition parse_transfer :: "bytes \<Rightarrow> transfer" where
  "parse_transfer b =
     \<lparr>tr_with_message = (b ! 0 = PayloadTypeTransferWithMessage), tr_amount = subslice 1 33 b,
      tr_tokenAddress = subslice 33 65 b, tr_tokenChain = BigEndian (subslice 65 67 b),
      tr_toAddress = subslice 67 99 b, tr_toChain = BigEndian (subslice 99 101 b),
      tr_tail = drop 101 b\<rparr>"

lemma encode_parse_transfer:
  assumes "101 \<le> length b" and "b ! 0 \<in> {PayloadTypeTransfer, PayloadTypeTransferWithMessage}"
  shows "transfer_ok (parse_transfer b)" and "encode_transfer (parse_transfer b) = b"
proof -
  show "transfer_ok (parse_transfer b)"
    using assms by (simp add: transfer_ok_def parse_transfer_def)
  have "be_bytes 2 (unat (BigEndian (subslice 65 67 b) :: u16)) = subslice 65 67 b"
    "be_bytes 2 (unat (BigEndian (subslice 99 101 b) :: u16)) = subslice 99 101 b"
    using assms by (intro be_bytes_BigEndian; simp)+
  moreover have "transfer_type (parse_transfer b) = b ! 0"
    using assms(2) by (auto simp: transfer_type_def parse_transfer_def)
  ultimately have "encode_transfer (parse_transfer b) =
      [b ! 0] @ subslice 1 33 b @ subslice 33 65 b @ subslice 65 67 b @ subslice 67 99 b
      @ subslice 99 101 b @ drop 101 b"
    by (simp add: encode_transfer_def parse_transfer_def)
  also have "\<dots> = [b ! 0] @ subslice 1 101 b @ drop 101 b"
    by (simp add: subslice_glue flip: append_assoc)
  also have "\<dots> = b"
    using assms(1) by (cases b) (simp_all add: subslice_def)
  finally show "encode_transfer (parse_transfer b) = b" .
qed

text \<open>
  C12: token bridge payloads. A payload is an error exactly when it starts like a transfer and is
  shorter than 101 bytes, and is skipped exactly when it is empty or of another type. Every payload
  that is accepted lays out some transfer, and every laid out transfer is accepted, with a tail of
  any length, and decoded into exactly its fields: amount, the last 20 bytes of token and recipient
  as addresses, the chain ids with their EVM ids, the whole tail as the message of type 3, and the
  first 32 bytes of the tail as the fee of type 1, which is empty when there are fewer.
\<close>

theorem wh_payload_roundtrip:
  "((\<exists>e. ParseTokenBridgePayload g b = Inl e) \<longleftrightarrow>
      b \<noteq> [] \<and> b ! 0 \<in> {PayloadTypeTransfer, PayloadTypeTransferWithMessage} \<and> length b < 101)
   \<and> (ParseTokenBridgePayload g b = Inr None \<longleftrightarrow>
      b = [] \<or> b ! 0 \<notin> {PayloadTypeTransfer, PayloadTypeTransferWithMessage})
   \<and> (ParseTokenBridgePayload g b = Inr (Some p) \<longrightarrow>
      (\<exists>u. transfer_ok u \<and> encode_transfer u = b \<and> p = transfer_decoded g u))
   \<and> (transfer_ok t \<longrightarrow>
      ParseTokenBridgePayload g (encode_transfer t) = Inr (Some (transfer_decoded g t)))"
proof (intro conjI impI parse_encode_transfer)
  assume p: "ParseTokenBridgePayload g b = Inr (Some p)"
  then have b: "b ! 0 \<in> {PayloadTypeTransfer, PayloadTypeTransferWithMessage}" "101 \<le> length b"
    using ParseTokenBridgePayload_outcome [of g b] by (auto simp: not_less)
  from encode_parse_transfer [OF b(2,1)] parse_encode_transfer [of "parse_transfer b" g] p
  show "\<exists>u. transfer_ok u \<and> encode_transfer u = b \<and> p = transfer_decoded g u" by auto
qed (simp_all add: ParseTokenBridgePayload_outcome)

text \<open>
  A fee of two bytes, the size of the table: the payload is accepted and the fee is lost.
\<close>

lemma two_byte_fee_lost:
  assumes "transfer_ok t" and "\<not> tr_with_message t" and "length (tr_tail t) = 2"
  shows "\<exists>p. ParseTokenBridgePayload g (encode_transfer t) = Inr (Some p) \<and> tt_Fee p = []"
  using parse_encode_transfer [OF assms(1)] assms(2,3) by (simp add: transfer_decoded_def)

definition demo_transfer :: transfer where
  "demo_transfer = \<lparr>tr_with_message = False, tr_amount = replicate 32 1,
     tr_tokenAddress = replicate 32 2, tr_tokenChain = 2, tr_toAddress = replicate 32 3,
     tr_toChain = 23, tr_tail = replicate 32 0\<rparr>"

theorem wh_payload_roundtrip_witness:
  "ParseTokenBridgePayload (ref_geth (\<lambda>_ _ _. Inr [])) (encode_transfer demo_transfer) =
     Inr (Some (transfer_decoded (ref_geth (\<lambda>_ _ _. Inr [])) demo_transfer))
   \<and> tt_ToChainEVM (transfer_decoded (ref_geth (\<lambda>_ _ _. Inr [])) demo_transfer) = 42161"
proof
  have "transfer_ok demo_transfer" by (simp add: transfer_ok_def demo_transfer_def)
  then show "ParseTokenBridgePayload (ref_geth (\<lambda>_ _ _. Inr [])) (encode_transfer demo_transfer) =
     Inr (Some (transfer_decoded (ref_geth (\<lambda>_ _ _. Inr [])) demo_transfer))"
    using wh_payload_roundtrip [where g = "ref_geth (\<lambda>_ _ _. Inr [])" and b = "[]" and t = demo_transfer]
    by blast
  show "tt_ToChainEVM (transfer_decoded (ref_geth (\<lambda>_ _ _. Inr [])) demo_transfer) = 42161"
    by (simp add: transfer_decoded_def demo_transfer_def WormholeChainIDToEVM_def
        WormholeChainIDToEVM_entries_def)
qed

section \<open>Decode (decoder.go)\<close>

text \<open>The token transfer fields a decoded payload adds.\<close>

definition put_nonzero :: "string \<Rightarrow> u64 \<Rightarrow> data \<Rightarrow> data" where
  "put_nonzero k w d = (if w > 0 then d(k \<mapsto> dec_word w) else d)"

definition put_if :: "bool \<Rightarrow> string \<Rightarrow> string \<Rightarrow> data \<Rightarrow> data" where
  "put_if b k v d = (if b then d(k \<mapsto> v) else d)"

lemma put_nonzero_get [simp, data_simps]:
  "data_get (put_nonzero k w d) j = (if j = k \<and> w > 0 then dec_word w else data_get d j)"
  by (simp add: put_nonzero_def)

lemma put_if_get [simp, data_simps]:
  "data_get (put_if b k v d) j = (if j = k \<and> b then v else data_get d j)"
  by (simp add: put_if_def)

definition wh_transfer_data :: "TokenTransferPayload \<Rightarrow> data \<Rightarrow> data" where
  "wh_transfer_data t d =
     (let d = d(''token_address'' \<mapsto> tt_TokenAddress t);
          d = d(''token_chain'' \<mapsto> dec_word (tt_TokenChain t));
          d = put_nonzero ''token_chain_evm'' (tt_TokenChainEVM t) d;
          d = d(''to_address'' \<mapsto> tt_ToAddress t);
          d = d(''to_chain'' \<mapsto> dec_word (tt_ToChain t));
          d = put_nonzero ''to_chain_evm'' (tt_ToChainEVM t) d;
          d = d(''token_amount'' \<mapsto> tt_Amount t);
          d = put_if (tt_Fee t \<noteq> []) ''relayer_fee'' (tt_Fee t) d;
          d = put_if (tt_ExtraPayload t \<noteq> []) ''extra_payload''
                ( ''0x'' @ EncodeToString (tt_ExtraPayload t)) d
      in d(''payload_type'' \<mapsto> dec_word (tt_PayloadType t)))"

definition wh_payload_data :: "geth \<Rightarrow> bytes \<Rightarrow> data \<Rightarrow> data" where
  "wh_payload_data g payload d =
     (if length payload > 0
      then let d = d(''payload'' \<mapsto> ''0x'' @ EncodeToString payload) in
           (case ParseTokenBridgePayload g payload of
              Inl err \<Rightarrow> d(''payload_parse_error'' \<mapsto> error_text err)
            | Inr None \<Rightarrow> d
            | Inr (Some transfer) \<Rightarrow> wh_transfer_data transfer d)
      else d(''payload'' \<mapsto> ''0x''))"

definition decodeLogMessagePublished ::
    "geth \<Rightarrow> eth_log \<Rightarrow> raw_event \<Rightarrow> u64 \<Rightarrow> error + raw_event" where
  "decodeLogMessagePublished g l rawEvent chainID =
     (let rawEvent = rawEvent\<lparr>re_EventType := ''LogMessagePublished''\<rparr>;
          ts = log_Topics l in
      if length ts < 2 then Inl (Errorf ''LogMessagePublished: missing sender topic'')
      else
        let d = (re_Data rawEvent)(''sender'' \<mapsto> gAddressHex g (gBytesToAddress g (ts ! 1)));
            d = d(''emitter_address'' \<mapsto> gHashHex g (ts ! 1)) in
        case gUnpack g wh_ProtocolName ''LogMessagePublished'' (log_Data l) of
          Inl e \<Rightarrow> Inl (Wrapf ''LogMessagePublished: failed to unpack'' e)
        | Inr unpacked \<Rightarrow>
            (case gCopyLogMsg g unpacked of
               Inl e \<Rightarrow> Inl (Wrapf ''LogMessagePublished: failed to copy fields'' e)
             | Inr parsed \<Rightarrow>
                 let d = d(''sequence'' \<mapsto> dec_word (lm_Sequence parsed));
                     d = d(''nonce'' \<mapsto> dec_word (lm_Nonce parsed));
                     d = d(''consistency_level'' \<mapsto> dec_word (lm_ConsistencyLevel parsed));
                     d = wh_payload_data g (lm_Payload parsed) d;
                     d = d(''emitter_chain'' \<mapsto>
                           (case EVMToWormholeChainID chainID of
                              Some whChainID \<Rightarrow> dec_word whChainID | None \<Rightarrow> ''unknown''));
                     d = d(''message_id'' \<mapsto> data_get d ''emitter_chain'' @ ''/''
                           @ data_get d ''emitter_address'' @ ''/'' @ data_get d ''sequence'')
                 in Inr (rawEvent\<lparr>re_Data := d\<rparr>)))"

definition decodeTransferRedeemed ::
    "geth \<Rightarrow> eth_log \<Rightarrow> raw_event \<Rightarrow> error + raw_event" where
  "decodeTransferRedeemed g l rawEvent =
     (let rawEvent = rawEvent\<lparr>re_EventType := ''TransferRedeemed''\<rparr>;
          ts = log_Topics l in
      if length ts < 4
      then Inl (Errorf (''TransferRedeemed: expected 4 topics, got '' @ dec (length ts)))
      else
        let emitterChainID = ucast (topic_uint64 g (ts ! 1)) :: u16;
            d = (re_Data rawEvent)(''emitter_chain'' \<mapsto> dec_word emitterChainID);
            d = d(''src_chain_id'' \<mapsto>
                  (case WormholeChainIDToEVM emitterChainID of
                     Some evmChainID \<Rightarrow> dec_word evmChainID | None \<Rightarrow> ''unknown''));
            d = d(''emitter_address'' \<mapsto> gHashHex g (ts ! 2));
            d = d(''sender'' \<mapsto> gAddressHex g (gBytesToAddress g (ts ! 2)));
            sequence = topic_uint64 g (ts ! 3);
            d = d(''sequence'' \<mapsto> dec_word sequence);
            d = d(''message_id'' \<mapsto> dec_word emitterChainID @ ''/'' @ gHashHex g (ts ! 2)
                  @ ''/'' @ dec_word sequence);
            d = d(''receiver'' \<mapsto> gAddressHex g (log_Address l))
        in Inr (rawEvent\<lparr>re_Data := d\<rparr>))"

definition wh_Decode :: "geth \<Rightarrow> eth_log \<Rightarrow> u64 \<Rightarrow> error + raw_event" where
  "wh_Decode g l chainID =
     (case log_Topics l of
        [] \<Rightarrow> Inl (Errorf ''no topics in log'')
      | eventID # _ \<Rightarrow>
          (case eventsByTopic g wh_ProtocolName wormholeABI_events eventID of
             None \<Rightarrow> Inl (Errorf (''unknown event topic: '' @ gHashHex g eventID))
           | Some name \<Rightarrow>
               let rawEvent = base_event g wh_ProtocolName l chainID [] Map.empty in
               if name = ''LogMessagePublished'' then decodeLogMessagePublished g l rawEvent chainID
               else if name = ''TransferRedeemed'' then decodeTransferRedeemed g l rawEvent
               else Inl (Errorf (''unknown event name: '' @ name))))"

definition wh_ContractAddresses :: "geth \<Rightarrow> u64 \<Rightarrow> bytes list" where
  "wh_ContractAddresses g chainID =
     (case CoreBridgeAddresses chainID of Some addr \<Rightarrow> [gHexToAddress g addr] | None \<Rightarrow> [])
     @ (case TokenBridgeAddresses chainID of Some addr \<Rightarrow> [gHexToAddress g addr] | None \<Rightarrow> [])"

definition wh_EventTopics :: "geth \<Rightarrow> bytes list" where
  "wh_EventTopics g = map (gEventID g wh_ProtocolName) [''LogMessagePublished'', ''TransferRedeemed'']"

definition NewWormholeDecoder :: "geth \<Rightarrow> decoder" where
  "NewWormholeDecoder g =
     \<lparr>dProtocol = wh_ProtocolName, dContractAddresses = wh_ContractAddresses g,
      dEventTopics = wh_EventTopics g, dDecode = wh_Decode g\<rparr>"

definition wh_event_types :: "string list" where
  "wh_event_types = [''LogMessagePublished'', ''TransferRedeemed'']"

lemma wh_branch_frame:
  "decodeLogMessagePublished g l e c = Inr e' \<Longrightarrow>
     e' = e\<lparr>re_EventType := ''LogMessagePublished'', re_Data := re_Data e'\<rparr>"
  "decodeTransferRedeemed g l e = Inr e' \<Longrightarrow>
     e' = e\<lparr>re_EventType := ''TransferRedeemed'', re_Data := re_Data e'\<rparr>"
  by (auto simp: decodeLogMessagePublished_def decodeTransferRedeemed_def Let_def
      split: sum.splits if_splits)

lemma wh_Decode_cases:
  assumes "wh_Decode g l c = Inr e"
  obtains n t ts where "log_Topics l = t # ts" "n \<in> set wormholeABI_events"
    "gEventID g wh_ProtocolName n = t"
    "e = base_event g wh_ProtocolName l c n (re_Data e)"
  using assms
  by (auto simp: wh_Decode_def Let_def base_event_def dest!: wh_branch_frame eventsByTopic_Some
      split: list.splits option.splits if_splits)

interpretation wh: decoder_iface "NewWormholeDecoder g" wh_event_types for g
proof unfold_locales
  fix l c e assume "dDecode (NewWormholeDecoder g) l c = Inr e"
  then have d: "wh_Decode g l c = Inr e" by (simp add: NewWormholeDecoder_def)
  then obtain n t ts where n: "log_Topics l = t # ts" "n \<in> set wormholeABI_events"
    "gEventID g wh_ProtocolName n = t" and e: "e = base_event g wh_ProtocolName l c n (re_Data e)"
    by (rule wh_Decode_cases)
  obtain dat where e': "e = base_event g wh_ProtocolName l c n dat" using e by blast
  show "re_Protocol e = dProtocol (NewWormholeDecoder g) \<and> re_ChainID e = c \<and>
      re_BlockNumber e = log_BlockNumber l \<and> re_LogIndex e = log_Index l \<and> re_Timestamp e = 0"
    by (simp add: e' base_event_def NewWormholeDecoder_def)
  show "log_Topics l \<noteq> [] \<and> hd (log_Topics l) \<in> set (dEventTopics (NewWormholeDecoder g))"
    using n by (auto simp: NewWormholeDecoder_def wh_EventTopics_def wormholeABI_names)
  show "re_EventType e \<in> set wh_event_types"
    using n(2) by (auto simp: e' base_event_def wh_event_types_def wormholeABI_names)
qed

section \<open>Properties of the decoder\<close>

lemma EVMToWormholeChainID_iff:
  "EVMToWormholeChainID c = Some w \<longleftrightarrow> WormholeChainIDToEVM w = Some c"
proof -
  have "distinct (map snd WormholeChainIDToEVM_entries)" "distinct (map fst WormholeChainIDToEVM_entries)"
    by (simp_all add: WormholeChainIDToEVM_entries_def)
  then show ?thesis
    by (simp add: EVMToWormholeChainID_def EVMToWormholeChainID_in_def invert_entries_iff
        WormholeChainIDToEVM_def map_of_eq_Some_iff)
qed

text \<open>The data a decoded publication carries.\<close>

lemma wh_payload_data_frame:
  assumes "j \<notin> {''payload'', ''payload_parse_error'', ''token_address'', ''token_chain'',
     ''token_chain_evm'', ''to_address'', ''to_chain'', ''to_chain_evm'', ''token_amount'',
     ''relayer_fee'', ''extra_payload'', ''payload_type''}"
  shows "data_get (wh_payload_data g p d) j = data_get d j"
  using assms
  by (simp add: wh_payload_data_def wh_transfer_data_def Let_def split: sum.splits option.splits)

lemma wh_branch_type:
  "decodeLogMessagePublished g l e c = Inr e' \<Longrightarrow> re_EventType e' = ''LogMessagePublished''"
  "decodeTransferRedeemed g l e = Inr e' \<Longrightarrow> re_EventType e' = ''TransferRedeemed''"
  by (auto simp: decodeLogMessagePublished_def decodeTransferRedeemed_def Let_def
      split: sum.splits if_splits)

text \<open>What a decoded publication and a decoded redemption carry for the correlation.\<close>

lemma wh_event_name:
  assumes "wh_Decode g l c = Inr e"
  shows "re_EventType e = ''LogMessagePublished'' \<Longrightarrow>
      decodeLogMessagePublished g l (base_event g wh_ProtocolName l c [] Map.empty) c = Inr e"
    and "re_EventType e = ''TransferRedeemed'' \<Longrightarrow>
      decodeTransferRedeemed g l (base_event g wh_ProtocolName l c [] Map.empty) = Inr e"
  using assms
  by (auto simp: wh_Decode_def Let_def dest: wh_branch_type
      split: list.splits option.splits if_splits)

lemma published_data:
  assumes "wh_Decode g l c = Inr e" and "re_EventType e = ''LogMessagePublished''"
  obtains vs p where "gUnpack g wh_ProtocolName ''LogMessagePublished'' (log_Data l) = Inr vs"
    and "gCopyLogMsg g vs = Inr p" and "2 \<le> length (log_Topics l)"
    and "event_data e ''sequence'' = dec_word (lm_Sequence p)"
    and "event_data e ''sender'' = gAddressHex g (gBytesToAddress g (log_Topics l ! 1))"
    and "event_data e ''emitter_address'' = gHashHex g (log_Topics l ! 1)"
    and "event_data e ''message_id'' =
      (case EVMToWormholeChainID c of Some w \<Rightarrow> dec_word w | None \<Rightarrow> ''unknown'') @ ''/''
      @ gHashHex g (log_Topics l ! 1) @ ''/'' @ dec_word (lm_Sequence p)"
  using wh_event_name(1) [OF assms]
  by (auto simp: decodeLogMessagePublished_def Let_def base_event_def wh_payload_data_frame
      split: sum.splits if_splits)

lemma redeemed_data:
  assumes "wh_Decode g l c = Inr e" and "re_EventType e = ''TransferRedeemed''"
  shows "4 \<le> length (log_Topics l)"
    and "event_data e ''sequence'' = dec_word (topic_uint64 g (log_Topics l ! 3))"
    and "event_data e ''sender'' = gAddressHex g (gBytesToAddress g (log_Topics l ! 2))"
    and "event_data e ''src_chain_id'' =
      (case WormholeChainIDToEVM (ucast (topic_uint64 g (log_Topics l ! 1))) of
         Some c \<Rightarrow> dec_word c | None \<Rightarrow> ''unknown'')"
    and "event_data e ''message_id'' =
      dec_word (ucast (topic_uint64 g (log_Topics l ! 1)) :: u16) @ ''/''
      @ gHashHex g (log_Topics l ! 2) @ ''/'' @ dec_word (topic_uint64 g (log_Topics l ! 3))"
  using wh_event_name(2) [OF assms]
  by (auto simp: decodeTransferRedeemed_def Let_def base_event_def split: if_splits)

lemma vaa_id_inj:
  fixes w w' :: u16 and q q' :: u64
  assumes "hash_hex_injective g"
  shows "dec_word w @ ''/'' @ gHashHex g a @ ''/'' @ dec_word q
       = dec_word w' @ ''/'' @ gHashHex g a' @ ''/'' @ dec_word q' \<longleftrightarrow> w = w' \<and> a = a' \<and> q = q'"
proof -
  have "dec_word w = dec_word w' \<longleftrightarrow> w = w'"
    by (metis ParseUint10_dec_u16 Inr_inject ucast_ucast_u16)
  then show ?thesis
    using assms by (simp add: split_at_sep hash_hex_injective_def dec_word_inj)
qed

text \<open>
  C16: the Wormhole message identifier. For a publication on a chain the table knows, the
  identifier stored for it and the identifier a redemption carries are the same string exactly
  when the redemption names the publication's Wormhole chain, emitter and sequence number; and in
  that case the redemption also carries the publication's sender and source chain id.
\<close>

theorem wh_message_id_agree:
  assumes "hash_hex_injective g"
    and "wh_Decode g l1 c = Inr e1" and "re_EventType e1 = ''LogMessagePublished''"
    and "wh_Decode g l2 c2 = Inr e2" and "re_EventType e2 = ''TransferRedeemed''"
    and "EVMToWormholeChainID c = Some w"
  shows "(event_data e2 ''message_id'' = event_data e1 ''message_id'' \<longleftrightarrow>
           ucast (topic_uint64 g (log_Topics l2 ! 1)) = w \<and> log_Topics l2 ! 2 = log_Topics l1 ! 1
           \<and> event_data e2 ''sequence'' = event_data e1 ''sequence'')
       \<and> (event_data e2 ''message_id'' = event_data e1 ''message_id'' \<longrightarrow>
           event_data e2 ''sender'' = event_data e1 ''sender'' \<and>
           event_data e2 ''src_chain_id'' = dec_word c)"
proof -
  obtain p :: logMsgData where p: "event_data e1 ''sequence'' = dec_word (lm_Sequence p)"
    "event_data e1 ''sender'' = gAddressHex g (gBytesToAddress g (log_Topics l1 ! 1))"
    "event_data e1 ''message_id'' =
      (case EVMToWormholeChainID c of Some w \<Rightarrow> dec_word w | None \<Rightarrow> ''unknown'') @ ''/''
      @ gHashHex g (log_Topics l1 ! 1) @ ''/'' @ dec_word (lm_Sequence p)"
    by (rule published_data [OF assms(2,3)], erule (2) that)
  have mid: "event_data e1 ''message_id'' = dec_word w @ ''/'' @ gHashHex g (log_Topics l1 ! 1) @ ''/''
      @ dec_word (lm_Sequence p)"
    using p(3) assms(6) by simp
  note r = redeemed_data [OF assms(4,5)]
  have id: "event_data e2 ''message_id'' = event_data e1 ''message_id'' \<longleftrightarrow>
      ucast (topic_uint64 g (log_Topics l2 ! 1)) = w \<and> log_Topics l2 ! 2 = log_Topics l1 ! 1
      \<and> topic_uint64 g (log_Topics l2 ! 3) = lm_Sequence p"
    unfolding r(5) mid by (rule vaa_id_inj [OF assms(1)])
  have "WormholeChainIDToEVM w = Some c"
    using assms(6) by (simp add: EVMToWormholeChainID_iff)
  with id show ?thesis by (auto simp: r(2,3,4) p(1,2) dec_word_inj)
qed

text \<open>A publication on Ethereum (Wormhole chain 2) with sequence 5, and its redemption.\<close>

definition demo_wh_geth :: geth where
  "demo_wh_geth = ref_geth (\<lambda>_ _ _. Inr [AbiUint64 5, AbiUint32 0, AbiBytes [], AbiUint8 1])"

definition demo_published :: eth_log where
  "demo_published = \<lparr>log_Address = replicate 20 9,
     log_Topics = [str_bytes ''LogMessagePublished'', replicate 32 1], log_Data = [],
     log_BlockNumber = 100, log_TxHash = replicate 32 7, log_Index = 0\<rparr>"

definition demo_redeemed :: eth_log where
  "demo_redeemed = \<lparr>log_Address = replicate 20 8,
     log_Topics = [str_bytes ''TransferRedeemed'', be_bytes 32 2, replicate 32 1, be_bytes 32 5],
     log_Data = [], log_BlockNumber = 200, log_TxHash = replicate 32 6, log_Index = 1\<rparr>"

lemma demo_wh_events:
  "eventsByTopic demo_wh_geth wh_ProtocolName wormholeABI_events (str_bytes ''LogMessagePublished'')
     = Some ''LogMessagePublished''"
  "eventsByTopic demo_wh_geth wh_ProtocolName wormholeABI_events (str_bytes ''TransferRedeemed'')
     = Some ''TransferRedeemed''"
  by (simp_all add: eventsByTopic_def demo_wh_geth_def ref_geth_def wormholeABI_names str_bytes_def)

lemma demo_wh_topics:
  "topic_uint64 demo_wh_geth (be_bytes 32 2) = 2" "topic_uint64 demo_wh_geth (be_bytes 32 5) = 5"
  by (simp_all add: topic_uint64_def demo_wh_geth_def ref_geth_def be_nat_be_bytes)

lemma demo_published_decodes:
  "\<exists>e. wh_Decode demo_wh_geth demo_published 1 = Inr e \<and> re_EventType e = ''LogMessagePublished''
     \<and> event_data e ''sequence'' = dec_word (5 :: u64)"
  by (simp add: wh_Decode_def demo_published_def demo_wh_events decodeLogMessagePublished_def Let_def)
     (simp add: demo_wh_geth_def ref_geth_def ref_copy_logmsg_def assert_defs base_event_def
        wh_payload_data_def)

lemma demo_redeemed_decodes:
  "\<exists>e. wh_Decode demo_wh_geth demo_redeemed 42161 = Inr e \<and> re_EventType e = ''TransferRedeemed''
     \<and> event_data e ''sequence'' = dec_word (5 :: u64)"
  by (simp add: wh_Decode_def demo_redeemed_def demo_wh_events decodeTransferRedeemed_def Let_def
      demo_wh_topics base_event_def)

theorem wh_message_id_agree_witness:
  "\<exists>e1 e2. wh_Decode demo_wh_geth demo_published 1 = Inr e1 \<and>
     wh_Decode demo_wh_geth demo_redeemed 42161 = Inr e2 \<and>
     event_data e2 ''message_id'' = event_data e1 ''message_id'' \<and>
     event_data e2 ''src_chain_id'' = dec_word (1 :: u64)"
proof -
  obtain e1 e2 where e1: "wh_Decode demo_wh_geth demo_published 1 = Inr e1"
      "re_EventType e1 = ''LogMessagePublished''" "event_data e1 ''sequence'' = dec_word (5 :: u64)"
    and e2: "wh_Decode demo_wh_geth demo_redeemed 42161 = Inr e2"
      "re_EventType e2 = ''TransferRedeemed''" "event_data e2 ''sequence'' = dec_word (5 :: u64)"
    using demo_published_decodes demo_redeemed_decodes by blast
  have g: "hash_hex_injective demo_wh_geth" by (simp add: demo_wh_geth_def)
  have w: "EVMToWormholeChainID 1 = Some 2"
    by (simp add: EVMToWormholeChainID_iff WormholeChainIDToEVM_def WormholeChainIDToEVM_entries_def)
  have t: "ucast (topic_uint64 demo_wh_geth (log_Topics demo_redeemed ! 1)) = (2 :: u16)"
    "log_Topics demo_redeemed ! 2 = log_Topics demo_published ! 1"
    by (simp_all add: demo_redeemed_def demo_published_def demo_wh_topics)
  show ?thesis
    using wh_message_id_agree [OF g e1(1,2) e2(1,2) w] t e1 e2 by auto
qed

end
