(* ===== verification/Axelar.thy ===== *)
theory Axelar
  imports Decoder "HOL-Library.Multiset"
begin

text \<open>
  The Axelar GMP decoder, \<open>internal/decoder/axelar/decoder.go\<close>: chain names, gateway contracts and
  the three gateway events.
\<close>

definition ax_ProtocolName :: string where
  "ax_ProtocolName = ''axelar''"

definition ChainNameToID_entries :: "(string \<times> u64) list" where
  "ChainNameToID_entries =
     [(''ethereum'', 1), (''avalanche'', 43114), (''polygon'', 137), (''binance'', 56),
      (''arbitrum'', 42161), (''optimism'', 10), (''base'', 8453), (''fantom'', 250),
      (''linea'', 59144), (''moonbeam'', 1284), (''filecoin'', 314), (''mantle'', 5000),
      (''scroll'', 534352)]"

definition ChainNameToID :: "string \<rightharpoonup> u64" where
  "ChainNameToID = map_of ChainNameToID_entries"

text \<open>The reverse table of \<open>init()\<close>, for the order \<open>es\<close> in which the map is ranged over.\<close>

definition ChainIDToName :: "(string \<times> u64) list \<Rightarrow> (u64 \<rightharpoonup> string)" where
  "ChainIDToName es = invert_entries es"

definition GatewayAddresses_entries :: "(u64 \<times> string) list" where
  "GatewayAddresses_entries =
     [(1, ''0x4F4495243837681061C4743b74B3eEdf548D56A5''),
      (43114, ''0x5029C0EFf6C34351a0CEc334542cDb22c7928f78''),
      (137, ''0x6f015F16De9fC8791b234eF68D486d2bF203FBA8''),
      (56, ''0x304acf330bbE08d1e512eefaa92F6a57871fD895''),
      (42161, ''0xe432150cce91c13a887f7D836923d5597adD8E31''),
      (10, ''0xe432150cce91c13a887f7D836923d5597adD8E31''),
      (8453, ''0xe432150cce91c13a887f7D836923d5597adD8E31''),
      (250, ''0x304acf330bbE08d1e512eefaa92F6a57871fD895'')]"

definition GatewayAddresses :: "u64 \<rightharpoonup> string" where
  "GatewayAddresses = map_of GatewayAddresses_entries"

definition axelarABI :: "abi_event list" where
  "axelarABI =
    [\<lparr>ev_name = ''ContractCall'', ev_anonymous = False,
       ev_inputs =
         [Input True ''address'' ''sender'' [],
          Input False ''string'' ''destinationChain'' [],
          Input False ''string'' ''destinationContractAddress'' [],
          Input True ''bytes32'' ''payloadHash'' [],
          Input False ''bytes'' ''payload'' []]\<rparr>,
     \<lparr>ev_name = ''ContractCallApproved'', ev_anonymous = False,
       ev_inputs =
         [Input True ''bytes32'' ''commandId'' [],
          Input False ''string'' ''sourceChain'' [],
          Input False ''string'' ''sourceAddress'' [],
          Input True ''address'' ''contractAddress'' [],
          Input False ''bytes32'' ''payloadHash'' [],
          Input True ''bytes32'' ''sourceTxHash'' [],
          Input False ''uint256'' ''sourceEventIndex'' []]\<rparr>,
     \<lparr>ev_name = ''Executed'', ev_anonymous = False,
       ev_inputs =
         [Input True ''bytes32'' ''commandId'' []]\<rparr>]"

definition axelarABI_events :: "string list" where
  "axelarABI_events = map ev_name axelarABI"

lemma axelarABI_names: "axelarABI_events = [''ContractCall'', ''ContractCallApproved'', ''Executed'']"
  by (simp add: axelarABI_events_def axelarABI_def)

text \<open>A chain name as an EVM chain id, read case-insensitively, or the text \<open>unknown\<close>.\<close>

definition ax_chain_text :: "geth \<Rightarrow> string \<Rightarrow> string" where
  "ax_chain_text g name =
     (case ChainNameToID (ToLower g name) of Some chainID \<Rightarrow> dec_word chainID | None \<Rightarrow> ''unknown'')"

definition ax_call_indexed :: "geth \<Rightarrow> bytes list \<Rightarrow> data \<Rightarrow> data" where
  "ax_call_indexed g ts d =
     (if length ts \<ge> 3
      then d(''sender'' \<mapsto> gAddressHex g (gBytesToAddress g (ts ! 1)),
             ''payload_hash'' \<mapsto> gHashHex g (ts ! 2))
      else d)"

definition decodeContractCall :: "geth \<Rightarrow> eth_log \<Rightarrow> raw_event \<Rightarrow> error + raw_event" where
  "decodeContractCall g l rawEvent =
     (let d = ax_call_indexed g (log_Topics l) (re_Data rawEvent) in
      case gUnpack g ax_ProtocolName ''ContractCall'' (log_Data l) of
        Inl e \<Rightarrow> Inl (Errorf (''failed to unpack ContractCall: '' @ error_text e))
      | Inr unpacked \<Rightarrow>
          if length unpacked < 3
          then Inl (Errorf (''unexpected unpacked size for ContractCall: got '' @ dec (length unpacked)
                            @ '', want at least 3''))
          else
            (case as_string (unpacked ! 0) of
               None \<Rightarrow> Inl (Errorf ''destinationChain is not string'')
             | Some destChain \<Rightarrow>
                 let d = d(''destination_chain'' \<mapsto> destChain);
                     d = d(''dst_chain_id'' \<mapsto> ax_chain_text g destChain) in
                 (case as_string (unpacked ! 1) of
                    None \<Rightarrow> Inl (Errorf ''destinationContractAddress is not string'')
                  | Some destAddr \<Rightarrow>
                      let d = d(''destination_contract_address'' \<mapsto> destAddr) in
                      (case as_bytes (unpacked ! 2) of
                         None \<Rightarrow> Inl (Errorf ''payload is not []byte'')
                       | Some payload \<Rightarrow>
                           Inr (rawEvent\<lparr>re_Data := d(''payload'' \<mapsto> gBytes2Hex g payload)\<rparr>)))))"

definition ax_approved_indexed :: "geth \<Rightarrow> bytes list \<Rightarrow> data \<Rightarrow> data" where
  "ax_approved_indexed g ts d =
     (if length ts \<ge> 4
      then d(''command_id'' \<mapsto> gHashHex g (ts ! 1),
             ''contract_address'' \<mapsto> gAddressHex g (gBytesToAddress g (ts ! 2)),
             ''source_tx_hash'' \<mapsto> gHashHex g (ts ! 3))
      else d)"

text \<open>\<open>big.Int.String\<close> of a nil pointer is the text \<open><nil>\<close>.\<close>

definition big_string :: "int option \<Rightarrow> string" where
  "big_string i = (case i of None \<Rightarrow> ''<nil>'' | Some n \<Rightarrow> dec_int n)"

definition decodeContractCallApproved :: "geth \<Rightarrow> eth_log \<Rightarrow> raw_event \<Rightarrow> error + raw_event" where
  "decodeContractCallApproved g l rawEvent =
     (let d = ax_approved_indexed g (log_Topics l) (re_Data rawEvent) in
      case gUnpack g ax_ProtocolName ''ContractCallApproved'' (log_Data l) of
        Inl e \<Rightarrow> Inl (Errorf (''failed to unpack ContractCallApproved: '' @ error_text e))
      | Inr unpacked \<Rightarrow>
          if length unpacked < 4
          then Inl (Errorf (''unexpected unpacked size for ContractCallApproved: got ''
                            @ dec (length unpacked) @ '', want at least 4''))
          else
            (case as_string (unpacked ! 0) of
               None \<Rightarrow> Inl (Errorf ''sourceChain is not string'')
             | Some srcChain \<Rightarrow>
                 let d = d(''source_chain'' \<mapsto> srcChain);
                     d = d(''src_chain_id'' \<mapsto> ax_chain_text g srcChain) in
                 (case as_string (unpacked ! 1) of
                    None \<Rightarrow> Inl (Errorf ''sourceAddress is not string'')
                  | Some srcAddr \<Rightarrow>
                      let d = d(''source_address'' \<mapsto> srcAddr) in
                      (case as_bytes32 (unpacked ! 2) of
                         None \<Rightarrow> Inl (Errorf ''payloadHash is not [32]byte'')
                       | Some payloadHash \<Rightarrow>
                           let d = d(''payload_hash'' \<mapsto> gHashHex g (gBytesToHash g payloadHash)) in
                           (case as_big (unpacked ! 3) of
                              None \<Rightarrow> Inl (Errorf ''sourceEventIndex is not *big.Int'')
                            | Some srcEventIndex \<Rightarrow>
                                Inr (rawEvent\<lparr>re_Data :=
                                  d(''source_event_index'' \<mapsto> big_string srcEventIndex)\<rparr>))))))"

definition decodeExecuted :: "geth \<Rightarrow> eth_log \<Rightarrow> raw_event \<Rightarrow> raw_event" where
  "decodeExecuted g l rawEvent =
     (if length (log_Topics l) \<ge> 2
      then rawEvent\<lparr>re_Data := (re_Data rawEvent)(''command_id'' \<mapsto> gHashHex g (log_Topics l ! 1))\<rparr>
      else rawEvent)"

definition ax_Decode :: "geth \<Rightarrow> eth_log \<Rightarrow> u64 \<Rightarrow> error + raw_event" where
  "ax_Decode g l chainID =
     (case log_Topics l of
        [] \<Rightarrow> Inl (Errorf ''no topics in log'')
      | eventID # _ \<Rightarrow>
          (case eventsByTopic g ax_ProtocolName axelarABI_events eventID of
             None \<Rightarrow> Inl (Errorf (''unknown event topic: '' @ gHashHex g eventID))
           | Some eventName \<Rightarrow>
               let rawEvent = base_event g ax_ProtocolName l chainID eventName Map.empty in
               if eventName = ''ContractCall'' then decodeContractCall g l rawEvent
               else if eventName = ''ContractCallApproved'' then decodeContractCallApproved g l rawEvent
               else if eventName = ''Executed'' then Inr (decodeExecuted g l rawEvent)
               else Inr rawEvent))"

definition ax_ContractAddresses :: "geth \<Rightarrow> u64 \<Rightarrow> bytes list" where
  "ax_ContractAddresses g chainID =
     (case GatewayAddresses chainID of Some addr \<Rightarrow> [gHexToAddress g addr] | None \<Rightarrow> [])"

definition ax_EventTopics :: "geth \<Rightarrow> bytes list" where
  "ax_EventTopics g =
     map (gEventID g ax_ProtocolName) [''ContractCall'', ''ContractCallApproved'', ''Executed'']"

definition NewAxelarDecoder :: "geth \<Rightarrow> decoder" where
  "NewAxelarDecoder g =
     \<lparr>dProtocol = ax_ProtocolName, dContractAddresses = ax_ContractAddresses g,
      dEventTopics = ax_EventTopics g, dDecode = ax_Decode g\<rparr>"

lemma ax_branch_frame:
  "decodeContractCall g l e = Inr e' \<Longrightarrow> e' = e\<lparr>re_Data := re_Data e'\<rparr>"
  "decodeContractCallApproved g l e = Inr e' \<Longrightarrow> e' = e\<lparr>re_Data := re_Data e'\<rparr>"
  "decodeExecuted g l e = e' \<Longrightarrow> e' = e\<lparr>re_Data := re_Data e'\<rparr>"
  by (auto simp: decodeContractCall_def decodeContractCallApproved_def decodeExecuted_def Let_def
      split: sum.splits option.splits if_splits)

lemma ax_Decode_cases:
  assumes "ax_Decode g l c = Inr e"
  obtains n t ts where "log_Topics l = t # ts" "n \<in> set axelarABI_events"
    "gEventID g ax_ProtocolName n = t" "e = base_event g ax_ProtocolName l c n (re_Data e)"
proof -
  obtain t ts n where n: "log_Topics l = t # ts"
    "eventsByTopic g ax_ProtocolName axelarABI_events t = Some n"
    using assms by (auto simp: ax_Decode_def split: list.splits option.splits)
  let ?b = "base_event g ax_ProtocolName l c n Map.empty"
  have "e = ?b\<lparr>re_Data := re_Data e\<rparr>"
    using assms n
    by (auto simp: ax_Decode_def Let_def intro: ax_branch_frame split: if_splits)
  then have "e = base_event g ax_ProtocolName l c n (re_Data e)" by (simp add: base_event_def)
  then show thesis using that n eventsByTopic_Some [OF n(2)] by blast
qed

interpretation ax: decoder_iface "NewAxelarDecoder g" axelarABI_events for g
proof unfold_locales
  fix l c e assume "dDecode (NewAxelarDecoder g) l c = Inr e"
  then have d: "ax_Decode g l c = Inr e" by (simp add: NewAxelarDecoder_def)
  then obtain n t ts where n: "log_Topics l = t # ts" "n \<in> set axelarABI_events"
    "gEventID g ax_ProtocolName n = t" and e: "e = base_event g ax_ProtocolName l c n (re_Data e)"
    by (rule ax_Decode_cases)
  obtain dat where e': "e = base_event g ax_ProtocolName l c n dat" using e by blast
  show "re_Protocol e = dProtocol (NewAxelarDecoder g) \<and> re_ChainID e = c \<and>
      re_BlockNumber e = log_BlockNumber l \<and> re_LogIndex e = log_Index l \<and> re_Timestamp e = 0"
    by (simp add: e' base_event_def NewAxelarDecoder_def)
  show "log_Topics l \<noteq> [] \<and> hd (log_Topics l) \<in> set (dEventTopics (NewAxelarDecoder g))"
    using n by (auto simp: NewAxelarDecoder_def ax_EventTopics_def axelarABI_names)
  show "re_EventType e \<in> set axelarABI_events"
    using n(2) by (simp add: e' base_event_def)
qed

section \<open>Properties\<close>

lemma ascii_lower_idem [simp]: "ascii_lower (ascii_lower c) = ascii_lower c"
  by (simp add: ascii_lower_def Let_def)

lemma ChainNameToID_distinct:
  "distinct (map fst ChainNameToID_entries)" "distinct (map snd ChainNameToID_entries)"
  by (simp_all add: ChainNameToID_entries_def)

lemma ChainIDToName_iff:
  assumes "mset es = mset ChainNameToID_entries"
  shows "ChainIDToName es cid = Some n \<longleftrightarrow> ChainNameToID n = Some cid"
proof -
  have "distinct (map snd es)"
    using assms ChainNameToID_distinct(2) by (metis mset_eq_imp_distinct_iff mset_map)
  then have "ChainIDToName es cid = Some n \<longleftrightarrow> (n, cid) \<in> set es"
    by (simp add: ChainIDToName_def invert_entries_iff)
  also have "\<dots> \<longleftrightarrow> (n, cid) \<in> set ChainNameToID_entries"
    using assms mset_eq_setD by blast
  finally show ?thesis
    using ChainNameToID_distinct(1) by (simp add: ChainNameToID_def map_of_eq_Some_iff)
qed

text \<open>
  Axelar chain names. Whatever order \<open>init()\<close> ranges over the table, the reverse table is its
  inverse; and an ASCII chain name, in any mix of upper and lower case, is rendered as the decimal
  chain id \<open>cid\<close> exactly when its lower-case form is the name the reverse table gives for \<open>cid\<close>.
\<close>

lemma ax_chain_names:
  assumes "mset es = mset ChainNameToID_entries"
    and "\<forall>c \<in> set name. (of_char c :: nat) < 128"
  shows "(ChainIDToName es cid = Some n \<longleftrightarrow> ChainNameToID n = Some cid) \<and>
     (ax_chain_text g name = dec_word cid \<longleftrightarrow> ChainIDToName es cid = Some (map ascii_lower name))"
proof -
  have "dec_word cid \<noteq> ''unknown''"
    using set_dec [of "unat cid"] by (auto simp: dec_word_def)
  then have "ax_chain_text g name = dec_word cid \<longleftrightarrow> ChainNameToID (map ascii_lower name) = Some cid"
    using assms(2) by (auto simp: ax_chain_text_def ToLower_def dec_word_inj split: option.splits)
  then show ?thesis by (simp add: ChainIDToName_iff [OF assms(1)])
qed

end
