(* ===== verification/Ccip.thy ===== *)
theory Ccip
  imports Decoder "HOL-Library.Multiset"
begin

text \<open>
  The Chainlink CCIP decoder, \<open>internal/decoder/ccip/decoder.go\<close>: chain selectors, ramp
  contracts, execution states and the two events. The decoder reads the message struct by
  reflection; \<open>getField\<close> is the lookup by field name, and a call of \<open>Value.Uint\<close> on another kind
  is a panic.
\<close>

definition ccip_ProtocolName :: string where
  "ccip_ProtocolName = ''ccip''"

definition ChainSelectorToEVM_entries :: "(u64 \<times> u64) list" where
  "ChainSelectorToEVM_entries =
     [(5009297550715157269, 1),
      (4949039107694359620, 42161),
      (3734403246176062136, 10),
      (15971525489660198786, 8453),
      (4051577828743386545, 137),
      (6433500567565415381, 43114),
      (11344663589394136015, 56),
      (6101244977088475029, 59144),
      (1346049177634351622, 534352),
      (16015286601757825753, 11155111),
      (3478487238524512106, 421614),
      (5224473277236331295, 84532),
      (2664363617261496610, 80001),
      (14767482510784806043, 43113)]"

definition ChainSelectorToEVM :: "u64 \<rightharpoonup> u64" where
  "ChainSelectorToEVM = map_of ChainSelectorToEVM_entries"

text \<open>The reverse table of \<open>init()\<close>, for the order \<open>es\<close> in which the map is ranged over.\<close>

definition EVMToChainSelector :: "(u64 \<times> u64) list \<Rightarrow> (u64 \<rightharpoonup> u64)" where
  "EVMToChainSelector es = invert_entries es"

definition OnRampAddresses_entries :: "(u64 \<times> string list) list" where
  "OnRampAddresses_entries =
     [(1,
        [''0x925228D7B82d883Dde340A55Fe8e6dA56244A22C'',
         ''0xe35e9842fceaCA96570B734083f4a58e8F7C5f2A'',
         ''0xf1E3A5842EeEF51F2967b3F05D45DD4f4205FF40'',
         ''0xB0464d2098a8d5c46843D19C0C22D4E0e26eDECe'',
         ''0xE2D68fC254D6e8B676B8CFa0D44D4d03e4FDB5A8'',
         ''0xE63b54F93dCEaD1a7A03A80A48B67a2Ff97Ae5aD'']),
      (42161,
        [''0xCe11020D56e5FDbfE46D9FC3021641FfbBB5AdEE'',
         ''0x67761742ac8A21Ec4D76CA18cbd701e5A6F3Bef3'',
         ''0x2a86b4f6c56aFb06a3b1D7fB7aE36c0c68Bd5d3E'',
         ''0x8096A61399e9e9C7e26F3cA5B73D7b2DbB1FeCC'']),
      (10,
        [''0x15F52286C0FF1d7A7dDbC9E300dd66628D46d4e6'',
         ''0x4ef1a59Ac8AF33d2D5CA5ae4AED3c9e7fDF6e08A'',
         ''0xD1e12b64e77AcA0cde3E5a23f7Ef8b10Ff0f5a7D'']),
      (8453,
        [''0x3E8CaD61Bc0C13f9cAbB5F59B4C8faBCdB7BDd0'',
         ''0x6B90Ec3c44A5a50B5e9eB2Fd3d1b49D7c3A23BE4'',
         ''0x1CD7e2F39914a24e4561700cb3C4AD69B558bcDB'']),
      (137,
        [''0x2F9B70B6f12b2b8b97da5E6e10a4c5C4Ad3E7D1A'']),
      (43114,
        [''0x67E8A4F52B42D61e4cc34f5B7bEA6501D3F4D1B0''])]"

definition OnRampAddresses :: "u64 \<rightharpoonup> string list" where
  "OnRampAddresses = map_of OnRampAddresses_entries"

definition OffRampAddresses_entries :: "(u64 \<times> string list) list" where
  "OffRampAddresses_entries =
     [(1,
        [''0xeFC4a18af59398FF23bfe7325F2401aD44286F4d'',
         ''0xa3d2127F85041729fec05Be0E4EdD3E0b6Af6a63'',
         ''0x26D23450E8660F7b8bF64b78BFa08f12E1b0F9eb'',
         ''0x58622a80c6DdDc072F2b527a99Be1D0934eb2b50'',
         ''0xc4b4bE0be7CaE8099D0Fa9B3e2EB34E6Dd0C52f2'',
         ''0xCc62D2aA0bE9C0A8DbD67fF6e97D44a5D07B04CA'']),
      (42161,
        [''0x91e46cc5590A4B9182e47f40006140A7077Dec31'',
         ''0xB0c0b0e2b0Fe9Cb041eBE9e7b03afd1e7fF73DE5'',
         ''0x9E32088F3c1a5EB38D32d1Ec6ba0bCBF499DC9ac'']),
      (10,
        [''0x33F54De59419570E33De8A4A3c6E5d5dFBc3Be6'',
         ''0xA0C1740154590c15B1f56Ed85E01B2E6e14E7dEF'',
         ''0x1E2F8bCFb87F3D6aB77E30A2Ad7bB1DE8571af8E'']),
      (8453,
        [''0xf1c2F9B7DA6A85Ecf1c342a3c9A4E7A9B9c1E44F'',
         ''0x3B36b32b0e8DaF43e4d3E607C72E1f17F3e70B08'',
         ''0x4D56E0D5b8f44cda92c6e1ac1De9cBDE99f0AB60'']),
      (137,
        [''0x0a1A6B6F2E5f2B7D3B8c1e0e9a7E4d9C2B3a8f1A'']),
      (43114,
        [''0x7b2a1B9e7dD3c5C9b4B2e4f0e6E8D3c8b9f4E2A1''])]"

definition OffRampAddresses :: "u64 \<rightharpoonup> string list" where
  "OffRampAddresses = map_of OffRampAddresses_entries"

definition ccipABI :: "abi_event list" where
  "ccipABI =
    [\<lparr>ev_name = ''CCIPSendRequested'', ev_anonymous = False,
       ev_inputs =
         [Input False ''tuple'' ''message'' 
            [Input False ''uint64'' ''sequenceNumber'' [],
             Input False ''uint256'' ''feeTokenAmount'' [],
             Input False ''address'' ''sender'' [],
             Input False ''uint64'' ''nonce'' [],
             Input False ''uint256'' ''gasLimit'' [],
             Input False ''bool'' ''strict'' [],
             Input False ''uint64'' ''sourceChainSelector'' [],
             Input False ''address'' ''receiver'' [],
             Input False ''bytes'' ''data'' [],
             Input False ''tuple[]'' ''tokenAmounts'' 
                [Input False ''address'' ''token'' [],
                 Input False ''uint256'' ''amount'' []],
             Input False ''address'' ''feeToken'' [],
             Input False ''bytes32'' ''messageId'' []]]\<rparr>,
     \<lparr>ev_name = ''ExecutionStateChanged'', ev_anonymous = False,
       ev_inputs =
         [Input True ''uint64'' ''sequenceNumber'' [],
          Input True ''bytes32'' ''messageId'' [],
          Input False ''uint8'' ''state'' [],
          Input False ''bytes'' ''returnData'' []]\<rparr>]"

definition ccipABI_events :: "string list" where
  "ccipABI_events = map ev_name ccipABI"

lemma ccipABI_names: "ccipABI_events = [''CCIPSendRequested'', ''ExecutionStateChanged'']"
  by (simp add: ccipABI_events_def ccipABI_def)

section \<open>Execution states\<close>

definition ExecutionStateUntouched :: byte where "ExecutionStateUntouched = 0"
definition ExecutionStateInProgress :: byte where "ExecutionStateInProgress = 1"
definition ExecutionStateSuccess :: byte where "ExecutionStateSuccess = 2"
definition ExecutionStateFailure :: byte where "ExecutionStateFailure = 3"

lemmas exec_state_defs = ExecutionStateUntouched_def ExecutionStateInProgress_def
  ExecutionStateSuccess_def ExecutionStateFailure_def

definition ExecutionState_String :: "byte \<Rightarrow> string" where
  "ExecutionState_String s =
     (if s = ExecutionStateUntouched then ''untouched''
      else if s = ExecutionStateInProgress then ''in_progress''
      else if s = ExecutionStateSuccess then ''success''
      else if s = ExecutionStateFailure then ''failure''
      else ''unknown('' @ dec_word s @ '')'')"

section \<open>Contract addresses\<close>

text \<open>The loop over an address list with the \<open>seen\<close> set, appending what is new.\<close>

fun add_unseen :: "bytes set \<Rightarrow> bytes list \<Rightarrow> bytes list \<Rightarrow> bytes set \<times> bytes list" where
  "add_unseen seen addrs [] = (seen, addrs)"
| "add_unseen seen addrs (a # as) =
     (if a \<in> seen then add_unseen seen addrs as
      else add_unseen (insert a seen) (addrs @ [a]) as)"

definition ramp_list :: "geth \<Rightarrow> (u64 \<rightharpoonup> string list) \<Rightarrow> u64 \<Rightarrow> bytes list" where
  "ramp_list g m chainID =
     (case m chainID of None \<Rightarrow> [] | Some as \<Rightarrow> map (gHexToAddress g) as)"

definition ccip_ContractAddresses :: "geth \<Rightarrow> u64 \<Rightarrow> bytes list" where
  "ccip_ContractAddresses g chainID =
     (let (seen, addrs) = add_unseen {} [] (ramp_list g OnRampAddresses chainID);
          (seen, addrs) = add_unseen seen addrs (ramp_list g OffRampAddresses chainID)
      in addrs)"

definition ccip_EventTopics :: "geth \<Rightarrow> bytes list" where
  "ccip_EventTopics g =
     map (gEventID g ccip_ProtocolName) [''CCIPSendRequested'', ''ExecutionStateChanged'']"

section \<open>Decode\<close>

text \<open>
  \<open>reflect.ValueOf(x)\<close>, dereferenced once; then a struct or not. A \<open>big.Int\<close> is a struct without
  any of the fields read below.
\<close>

definition reflect_struct :: "abi_val \<Rightarrow> (string \<times> abi_val) list option" where
  "reflect_struct v =
     (case v of
        AbiStruct fs \<Rightarrow> Some fs
      | AbiPtr (Some (AbiStruct fs)) \<Rightarrow> Some fs
      | AbiBigInt (Some _) \<Rightarrow> Some []
      | _ \<Rightarrow> None)"

definition getField :: "(string \<times> abi_val) list \<Rightarrow> string \<Rightarrow> abi_val option" where
  "getField fs name = map_of fs name"

definition value_Uint :: "abi_val \<Rightarrow> error + u64" where
  "value_Uint v =
     (case v of
        AbiUint8 w \<Rightarrow> Inr (ucast w)
      | AbiUint32 w \<Rightarrow> Inr (ucast w)
      | AbiUint64 w \<Rightarrow> Inr w
      | _ \<Rightarrow> Inl (Panic ''reflect: call of reflect.Value.Uint on a value of another kind''))"

text \<open>A slice as reflection sees it: \<open>[]byte\<close> is a slice of numbers.\<close>

definition as_slice :: "abi_val \<Rightarrow> abi_val list option" where
  "as_slice v = (case v of AbiSlice vs \<Rightarrow> Some vs | AbiBytes bs \<Rightarrow> Some (map AbiUint8 bs) | _ \<Rightarrow> None)"

text \<open>The four shapes of field extraction in \<open>decodeCCIPSendRequested\<close>.\<close>

definition put_uint :: "string \<Rightarrow> abi_val option \<Rightarrow> data \<Rightarrow> error + data" where
  "put_uint k f d =
     (case f of None \<Rightarrow> Inr d
      | Some v \<Rightarrow> bind_err (value_Uint v) (\<lambda>n. Inr (d(k \<mapsto> dec_word n))))"

definition put_address :: "geth \<Rightarrow> string \<Rightarrow> abi_val option \<Rightarrow> data \<Rightarrow> data" where
  "put_address g k f d =
     (case Option.bind f as_address of None \<Rightarrow> d | Some a \<Rightarrow> d(k \<mapsto> gAddressHex g a))"

definition put_big :: "string \<Rightarrow> abi_val option \<Rightarrow> data \<Rightarrow> data" where
  "put_big k f d =
     (case Option.bind f as_big of Some (Some i) \<Rightarrow> d(k \<mapsto> dec_int i) | _ \<Rightarrow> d)"

definition put_selector :: "u64 \<Rightarrow> abi_val option \<Rightarrow> data \<Rightarrow> error + data" where
  "put_selector chainID f d =
     (case f of
        None \<Rightarrow> Inr (d(''src_chain_id'' \<mapsto> dec_word chainID))
      | Some v \<Rightarrow> bind_err (value_Uint v) (\<lambda>sel.
          let d = d(''source_chain_selector'' \<mapsto> dec_word sel) in
          Inr (case ChainSelectorToEVM sel of
                 Some evmID \<Rightarrow> d(''src_chain_id'' \<mapsto> dec_word evmID)
               | None \<Rightarrow> d(''src_chain_id'' \<mapsto> dec_word chainID))))"

definition put_data_bytes :: "abi_val option \<Rightarrow> data \<Rightarrow> data" where
  "put_data_bytes f d =
     (case Option.bind f as_bytes of
        Some b \<Rightarrow> d(''data'' \<mapsto> (if length b > 0 then ''0x'' @ EncodeToString b else ''0x''))
      | None \<Rightarrow> d(''data'' \<mapsto> ''0x''))"

definition put_tokens :: "geth \<Rightarrow> abi_val option \<Rightarrow> data \<Rightarrow> data" where
  "put_tokens g f d =
     (case Option.bind f as_slice of
        None \<Rightarrow> d(''token_count'' \<mapsto> ''0'')
      | Some vs \<Rightarrow>
          let d = d(''token_count'' \<mapsto> dec (length vs)) in
          if length vs > 0
          then (let fs = as_struct (vs ! 0) in
                put_big ''amount'' (getField fs ''Amount'')
                  (put_address g ''token'' (getField fs ''Token'') d))
          else d)"

definition put_message_id :: "geth \<Rightarrow> abi_val option \<Rightarrow> data \<Rightarrow> data" where
  "put_message_id g f d =
     (case Option.bind f as_bytes32 of
        None \<Rightarrow> d | Some arr \<Rightarrow> d(''message_id'' \<mapsto> gHashHex g (gBytesToHash g arr)))"

definition send_requested_data ::
    "geth \<Rightarrow> u64 \<Rightarrow> (string \<times> abi_val) list \<Rightarrow> data \<Rightarrow> error + data" where
  "send_requested_data g chainID fs d =
     (let field = getField fs;
          d = put_message_id g (field ''MessageId'') d in
      bind_err (put_uint ''sequence_number'' (field ''SequenceNumber'') d) (\<lambda>d.
      let d = put_address g ''sender'' (field ''Sender'') d;
          d = put_address g ''receiver'' (field ''Receiver'') d in
      bind_err (put_uint ''nonce'' (field ''Nonce'') d) (\<lambda>d.
      bind_err (put_selector chainID (field ''SourceChainSelector'') d) (\<lambda>d.
      let d = put_address g ''fee_token'' (field ''FeeToken'') d;
          d = put_big ''fee_token_amount'' (field ''FeeTokenAmount'') d;
          d = put_big ''gas_limit'' (field ''GasLimit'') d;
          d = put_data_bytes (field ''Data'') d
      in Inr (put_tokens g (field ''TokenAmounts'') d)))))"

definition decodeCCIPSendRequested ::
    "geth \<Rightarrow> eth_log \<Rightarrow> raw_event \<Rightarrow> u64 \<Rightarrow> error + raw_event" where
  "decodeCCIPSendRequested g l rawEvent chainID =
     (let rawEvent = rawEvent\<lparr>re_EventType := ''CCIPSendRequested''\<rparr> in
      case gUnpack g ccip_ProtocolName ''CCIPSendRequested'' (log_Data l) of
        Inl e \<Rightarrow> Inl (Wrapf ''CCIPSendRequested: failed to unpack'' e)
      | Inr unpacked \<Rightarrow>
          if length unpacked < 1
          then Inl (Errorf (''CCIPSendRequested: expected 1 argument, got '' @ dec (length unpacked)))
          else
            (case reflect_struct (unpacked ! 0) of
               None \<Rightarrow> Inl (Errorf ''CCIPSendRequested: expected struct'')
             | Some fs \<Rightarrow>
                 bind_err (send_requested_data g chainID fs (re_Data rawEvent))
                   (\<lambda>d. Inr (rawEvent\<lparr>re_Data := d\<rparr>))))"

definition decodeExecutionStateChanged :: "geth \<Rightarrow> eth_log \<Rightarrow> raw_event \<Rightarrow> error + raw_event" where
  "decodeExecutionStateChanged g l rawEvent =
     (let rawEvent = rawEvent\<lparr>re_EventType := ''ExecutionStateChanged''\<rparr>;
          ts = log_Topics l in
      if length ts < 3
      then Inl (Errorf (''ExecutionStateChanged: expected at least 3 topics, got '' @ dec (length ts)))
      else
        let d = (re_Data rawEvent)(''sequence_number'' \<mapsto> dec_word (topic_uint64 g (ts ! 1)));
            d = d(''message_id'' \<mapsto> gHashHex g (ts ! 2)) in
        case gUnpack g ccip_ProtocolName ''ExecutionStateChanged'' (log_Data l) of
          Inl e \<Rightarrow> Inl (Wrapf ''ExecutionStateChanged: failed to unpack'' e)
        | Inr unpacked \<Rightarrow>
            if length unpacked < 2
            then Inl (Errorf (''ExecutionStateChanged: expected 2 non-indexed fields, got ''
                              @ dec (length unpacked)))
            else
              (case as_uint8 (unpacked ! 0) of
                 None \<Rightarrow> Inl (Errorf ''ExecutionStateChanged: state is not uint8'')
               | Some state \<Rightarrow>
                   let d = d(''state'' \<mapsto> dec_word state);
                       d = d(''state_name'' \<mapsto> ExecutionState_String state);
                       d = d(''return_data'' \<mapsto>
                             (case as_bytes (unpacked ! 1) of
                                Some returnData \<Rightarrow>
                                  (if length returnData > 0 then ''0x'' @ EncodeToString returnData
                                   else ''0x'')
                              | None \<Rightarrow> ''0x''))
                   in Inr (rawEvent\<lparr>re_Data := d\<rparr>)))"

definition ccip_Decode :: "geth \<Rightarrow> eth_log \<Rightarrow> u64 \<Rightarrow> error + raw_event" where
  "ccip_Decode g l chainID =
     (case log_Topics l of
        [] \<Rightarrow> Inl (Errorf ''no topics in log'')
      | eventID # _ \<Rightarrow>
          (case eventsByTopic g ccip_ProtocolName ccipABI_events eventID of
             None \<Rightarrow> Inl (Errorf (''unknown event topic: '' @ gHashHex g eventID))
           | Some name \<Rightarrow>
               let rawEvent = base_event g ccip_ProtocolName l chainID [] Map.empty in
               if name = ''CCIPSendRequested'' then decodeCCIPSendRequested g l rawEvent chainID
               else if name = ''ExecutionStateChanged'' then decodeExecutionStateChanged g l rawEvent
               else Inl (Errorf (''unhandled event: '' @ name))))"

definition NewCCIPDecoder :: "geth \<Rightarrow> decoder" where
  "NewCCIPDecoder g =
     \<lparr>dProtocol = ccip_ProtocolName, dContractAddresses = ccip_ContractAddresses g,
      dEventTopics = ccip_EventTopics g, dDecode = ccip_Decode g\<rparr>"

lemma ccip_branch_frame:
  "decodeCCIPSendRequested g l e c = Inr e' \<Longrightarrow>
     e' = e\<lparr>re_EventType := ''CCIPSendRequested'', re_Data := re_Data e'\<rparr>"
  "decodeExecutionStateChanged g l e = Inr e' \<Longrightarrow>
     e' = e\<lparr>re_EventType := ''ExecutionStateChanged'', re_Data := re_Data e'\<rparr>"
  by (auto simp: decodeCCIPSendRequested_def decodeExecutionStateChanged_def Let_def err_Inr_iff
      split: sum.splits option.splits if_splits)

lemma ccip_Decode_cases:
  assumes "ccip_Decode g l c = Inr e"
  obtains n t ts where "log_Topics l = t # ts" "n \<in> set ccipABI_events"
    "gEventID g ccip_ProtocolName n = t" "e = base_event g ccip_ProtocolName l c n (re_Data e)"
  using assms
  by (auto simp: ccip_Decode_def Let_def base_event_def dest!: ccip_branch_frame eventsByTopic_Some
      split: list.splits option.splits if_splits)

interpretation ccip: decoder_iface "NewCCIPDecoder g" ccipABI_events for g
proof unfold_locales
  fix l c e assume "dDecode (NewCCIPDecoder g) l c = Inr e"
  then have d: "ccip_Decode g l c = Inr e" by (simp add: NewCCIPDecoder_def)
  then obtain n t ts where n: "log_Topics l = t # ts" "n \<in> set ccipABI_events"
    "gEventID g ccip_ProtocolName n = t" and e: "e = base_event g ccip_ProtocolName l c n (re_Data e)"
    by (rule ccip_Decode_cases)
  obtain dat where e': "e = base_event g ccip_ProtocolName l c n dat" using e by blast
  show "re_Protocol e = dProtocol (NewCCIPDecoder g) \<and> re_ChainID e = c \<and>
      re_BlockNumber e = log_BlockNumber l \<and> re_LogIndex e = log_Index l \<and> re_Timestamp e = 0"
    by (simp add: e' base_event_def NewCCIPDecoder_def)
  show "log_Topics l \<noteq> [] \<and> hd (log_Topics l) \<in> set (dEventTopics (NewCCIPDecoder g))"
    using n by (auto simp: NewCCIPDecoder_def ccip_EventTopics_def ccipABI_names)
  show "re_EventType e \<in> set ccipABI_events"
    using n(2) by (simp add: e' base_event_def)
qed

section \<open>Properties\<close>

lemma add_unseen_inv:
  assumes "set addrs = seen" and "distinct addrs"
  shows "fst (add_unseen seen addrs as) = set (snd (add_unseen seen addrs as))
     \<and> distinct (snd (add_unseen seen addrs as))
     \<and> set (snd (add_unseen seen addrs as)) = seen \<union> set as"
  using assms
proof (induction as arbitrary: seen addrs)
  case (Cons a as)
  show ?case
  proof (cases "a \<in> seen")
    case True
    with Cons.IH [OF Cons.prems] show ?thesis by auto
  next
    case False
    then have "set (addrs @ [a]) = insert a seen" "distinct (addrs @ [a])"
      using Cons.prems by auto
    from Cons.IH [OF this] False show ?thesis by auto
  qed
qed simp

text \<open>
  The CCIP addresses to monitor on a chain are exactly the OnRamp and OffRamp contracts of
  its tables, each once.
\<close>

lemma ccip_addresses:
  "distinct (ccip_ContractAddresses g c) \<and>
   set (ccip_ContractAddresses g c) =
     set (ramp_list g OnRampAddresses c) \<union> set (ramp_list g OffRampAddresses c)"
proof -
  obtain s1 a1 where 1: "add_unseen {} [] (ramp_list g OnRampAddresses c) = (s1, a1)"
    by (cases "add_unseen {} [] (ramp_list g OnRampAddresses c)")
  obtain s2 a2 where 2: "add_unseen s1 a1 (ramp_list g OffRampAddresses c) = (s2, a2)"
    by (cases "add_unseen s1 a1 (ramp_list g OffRampAddresses c)")
  have i1: "s1 = set a1" "distinct a1" "set a1 = set (ramp_list g OnRampAddresses c)"
    using add_unseen_inv [of "[]" "{}" "ramp_list g OnRampAddresses c"] by (simp_all add: 1)
  have "distinct a2" "set a2 = set a1 \<union> set (ramp_list g OffRampAddresses c)"
    using add_unseen_inv [OF i1(1) [symmetric] i1(2), of "ramp_list g OffRampAddresses c"]
    unfolding 2 by (simp_all add: i1(1))
  moreover have "ccip_ContractAddresses g c = a2"
    by (simp add: ccip_ContractAddresses_def 1 2)
  ultimately show ?thesis using i1(3) by simp
qed

end
