(* ===== verification/Delivery.thy ===== *)
theory Delivery
  imports Correlator LayerZero Wormhole Axelar Ccip
begin

text \<open>
  Decoder, normalizer, correlator and store together: what becomes of a message whose source and
  destination logs are decoded and processed, protocol by protocol, and where the program as
  written does not complete it.
\<close>

section \<open>Keys and fresh messages\<close>

lemma key_matches_other:
  "j \<noteq> MessageID m \<Longrightarrow> key_matches (upsert_spec m t) k j = key_matches t k j"
  by (simp add: key_matches_def upsert_spec_def Let_def split: option.splits)

lemma schema_fresh:
  assumes "schema_ok t" and "t_messages t mid = None"
  shows "t_sources t mid = None" "t_payloads t mid = None" "t_metadata t mid = None"
    "t_destinations t mid = None"
  using assms by (auto simp: schema_ok_def row_schema_def dest: spec [of _ mid])

lemma key_matches_fresh:
  assumes "schema_ok t" and "t_messages t (MessageID m) = None"
    and "msg_Status m = StatusPending" and "msg_Payload m = Some p"
  shows "key_matches (upsert_spec m t) k (MessageID m) \<longleftrightarrow>
     msg_Protocol m = ck_Protocol k \<and>
     (if ck_MessageID k \<noteq> [] then MessageID m = ck_MessageID k
      else pl_Nonce p = ck_Nonce k \<and> src_Sender (msg_Source m) = ck_Sender k \<and>
           src_ChainID (msg_Source m) = ck_SrcChainID k)"
  using schema_fresh [OF assms(1,2)] assms(2-4)
  by (simp add: key_matches_def upsert_spec_def Let_def upserted_message_def upserted_payload_def
      keep_first_def)

lemma new_message_storable: "new_result_ok now ev r \<Longrightarrow> storable (res_Message r)"
  by (auto simp: new_result_ok_def new_message_ok_def storable_def message_types_def
      message_statuses_def)

text \<open>
  A source event of a fresh message, then a destination event whose key matches it and nothing
  else: the message is stored and completed.
\<close>

definition delivered_tables ::
    "message \<Rightarrow> destination \<Rightarrow> string \<Rightarrow> int \<Rightarrow> tables \<Rightarrow> tables" where
  "delivered_tables m d st now t = destination_spec (MessageID m) d st now (upsert_spec m t)"

lemma pg_inv_upsert:
  assumes "pg_inv s" and "storable m"
  shows "pg_inv (s\<lparr>pg_tables := upsert_spec m (pg_tables s)\<rparr>)"
proof -
  let ?s = "s\<lparr>pg_faults := []\<rparr>"
  have "UpsertMessage m ?s = (?s\<lparr>pg_tables := upsert_spec m (pg_tables s)\<rparr>, None)"
    using assms(2) by (simp add: UpsertMessage_def in_tx_fault_free apply_upsert)
  from UpsertMessage_schema [OF _ this] show ?thesis
    using assms(1) by (simp add: pg_inv_def plan_ok_def)
qed

lemma deliver:
  assumes n1: "Normalize now1 (Some ev1) = Inr r1" "new_result_ok now1 ev1 r1"
    and n2: "Normalize now2 (Some ev2) = Inr r2" "correlation_result_ok ev2 r2"
      "res_CorrelationKey r2 = Some k" "msg_Destination (res_Message r2) = Some d"
    and st: "st = (if msg_Status (res_Message r2) = [] then StatusExecuted
                   else msg_Status (res_Message r2))"
    and s: "pg_faults s = []" "pg_inv s"
    and fresh: "t_messages (pg_tables s) (MessageID (res_Message r1)) = None"
    and mt: "key_matches (upsert_spec (res_Message r1) (pg_tables s)) k (MessageID (res_Message r1))"
    and un: "\<And>j. \<not> key_matches (pg_tables s) k j"
  shows "Process_all PostgresMessageStore [(now1, ev1), (now2, ev2)] s =
     s\<lparr>pg_tables := delivered_tables (res_Message r1) d st (pg_now s) (pg_tables s)\<rparr>"
proof -
  let ?m = "res_Message r1"
  let ?s = "s\<lparr>pg_tables := upsert_spec ?m (pg_tables s)\<rparr>"
  have sto: "storable ?m" using n1(2) by (rule new_message_storable)
  obtain p where p: "msg_Payload ?m = Some p"
    using n1(2) by (auto simp: new_result_ok_def new_message_ok_def)
  have 1: "Process PostgresMessageStore now1 ev1 s = (?s, None)"
    using n1 sto s(1) by (intro Process_new_event) (simp_all add: new_result_ok_def)
  have nonce: "\<exists>q. t_payloads (upsert_spec ?m (pg_tables s)) (MessageID ?m) = Some q \<and> pr_nonce q \<noteq> None"
    using schema_fresh [OF _ fresh] s(2) p
    by (simp add: pg_inv_def upsert_spec_def Let_def upserted_payload_def)
  have ms: "st \<in> message_statuses"
    using n2(2) by (auto simp: st correlation_result_ok_def correlation_ok_def message_statuses_def)
  have "Process PostgresMessageStore now2 ev2 ?s =
      (?s\<lparr>pg_tables := destination_spec (MessageID ?m) d st (pg_now ?s) (pg_tables ?s)\<rparr>, None)"
    using n2 st ms s mt un nonce pg_inv_upsert [OF s(2) sto]
    by (intro Process_correlation_event [where k = k and r = r2])
       (auto simp: correlation_result_ok_def key_matches_other)
  then show ?thesis by (simp add: 1 delivered_tables_def)
qed

text \<open>What is recorded of a delivered fresh message.\<close>

lemma delivered_rows:
  assumes "schema_ok t" and "t_messages t (MessageID m) = None" and "msg_Metadata m = Some md"
  shows "map_option mr_status (t_messages (delivered_tables m d st now t) (MessageID m)) = Some st"
    and "t_sources (delivered_tables m d st now t) (MessageID m) = Some (msg_Source m)"
    and "t_destinations (delivered_tables m d st now t) (MessageID m) = Some d"
    and "map_option mt_latency (t_metadata (delivered_tables m d st now t) (MessageID m)) =
      Some (Some (if dst_Timestamp d > 0 \<and> src_Timestamp (msg_Source m) > 0
                  then dst_Timestamp d - src_Timestamp (msg_Source m) else md_LatencySeconds md))"
  using schema_fresh [OF assms(1,2)] assms(2,3)
  by (simp_all add: delivered_tables_def destination_spec_def upsert_spec_def Let_def keep_first_def
      upserted_message_def metadata_row_of_def latency_spec_def)

text \<open>A message recorded as delivered: status, source, destination, and latency in seconds.\<close>

definition delivered :: "pg \<Rightarrow> string \<Rightarrow> string \<Rightarrow> source \<Rightarrow> destination \<Rightarrow> bool" where
  "delivered s mid st src d \<longleftrightarrow>
     pg_status s mid = Some st \<and> t_sources (pg_tables s) mid = Some src \<and> pg_dest s mid = Some d \<and>
     (dst_Timestamp d > 0 \<and> src_Timestamp src > 0 \<longrightarrow>
        map_option mt_latency (t_metadata (pg_tables s) mid) =
          Some (Some (dst_Timestamp d - src_Timestamp src)))"

lemma deliver_delivered:
  assumes "pg_inv s" and "t_messages (pg_tables s) (MessageID m) = None"
    and "msg_Metadata m = Some md"
  shows "delivered (s\<lparr>pg_tables := delivered_tables m d st now (pg_tables s)\<rparr>) (MessageID m) st
     (msg_Source m) d"
  using delivered_rows [OF _ assms(2,3), of d st now] assms(1)
  by (auto simp: delivered_def pg_status_def pg_dest_def pg_inv_def)

section \<open>LayerZero\<close>

lemma lz_sent_event:
  assumes "lz_Decode g l c = Inr e" and "lz_event_of g (hd (log_Topics l)) = Some ''PacketSent''"
    and "gUnpack g lz_ProtocolName ''PacketSent'' (log_Data l) = Inr (AbiBytes (encode_packet p) # vs)"
    and "packet_ok p"
  obtains d where "e = base_event g lz_ProtocolName l c ''PacketSent'' d" and "lz_fields_ok g p d"
proof -
  obtain d where "decodeEncodedPayload g (encode_packet p) Map.empty = Inr d"
    and "e = base_event g lz_ProtocolName l c ''PacketSent'' d"
    using assms(1-3)
    by (auto simp: lz_Decode_def lz_decode_sent_def as_bytes_def base_event_def Let_def
        split: list.splits sum.splits)
  with decode_encode_fields [OF assms(4)] that show thesis by blast
qed

lemma lz_received_event:
  assumes "lz_Decode g l c = Inr e" and "lz_event_of g (hd (log_Topics l)) = Some n"
    and "n \<in> {''PacketReceived'', ''PacketDelivered''}"
    and "gUnpack g lz_ProtocolName n (log_Data l) = Inr vs" and "gCopyReceived g vs = Inr r"
  shows "e = base_event g lz_ProtocolName l c ''PacketReceived'' (lz_received_data g r Map.empty)"
  using assms
  by (auto simp: lz_Decode_def lz_decode_received_def base_event_def Let_def
      split: list.splits if_splits)

text \<open>The key under which the destination event of a packet from chain \<open>c\<close> is looked up.\<close>

definition lz_packet_key :: "geth \<Rightarrow> packet \<Rightarrow> u64 \<Rightarrow> CorrelationKey" where
  "lz_packet_key g p c =
     \<lparr>ck_Protocol = lz_ProtocolName, ck_MessageID = [], ck_Nonce = pk_nonce p,
      ck_Sender = gAddressHex g (gBytesToAddress g (drop 12 (pk_sender p))), ck_SrcChainID = c\<rparr>"

text \<open>
  C1: a LayerZero packet is followed across chains. When the log of a packet sent on the chain of
  its source endpoint and the log of its reception (as \<open>PacketReceived\<close> or \<open>PacketDelivered\<close>,
  with the packet's origin) are decoded and processed in this order, in a database that holds
  neither the packet's guid nor a pending message under its key, the message with that guid is
  executed, with the coordinates of the two logs as source and destination and the difference of
  their times as latency.
\<close>

theorem lz_delivery:
  assumes lib: "address_crops g" "hex_nonempty g"
    and p: "packet_ok p" "EndpointToChainID (pk_srcEid p) = Some c1"
    and sent: "lz_Decode g l1 c1 = Inr e1" "lz_event_of g (hd (log_Topics l1)) = Some ''PacketSent''"
      "gUnpack g lz_ProtocolName ''PacketSent'' (log_Data l1) = Inr (AbiBytes (encode_packet p) # vs)"
    and recv: "lz_Decode g l2 c2 = Inr e2" "lz_event_of g (hd (log_Topics l2)) = Some n"
      "n \<in> {''PacketReceived'', ''PacketDelivered''}"
      "gUnpack g lz_ProtocolName n (log_Data l2) = Inr ws" "gCopyReceived g ws = Inr r"
      "pr_Origin r = \<lparr>po_SrcEid = pk_srcEid p, po_Sender = pk_sender p, po_Nonce = pk_nonce p\<rparr>"
    and s: "pg_inv s" "pg_faults s = []" "t_messages (pg_tables s) (''0x'' @ EncodeToString (pk_guid p)) = None"
      "\<forall>j. \<not> key_matches (pg_tables s) (lz_packet_key g p c1) j"
  shows "delivered
      (Process_all PostgresMessageStore
        [(now1, e1\<lparr>re_Timestamp := t1\<rparr>), (now2, e2\<lparr>re_Timestamp := t2\<rparr>)] s)
      (''0x'' @ EncodeToString (pk_guid p)) StatusExecuted
      \<lparr>src_ChainID = c1, src_TxHash = gHashHex g (log_TxHash l1), src_BlockNumber = log_BlockNumber l1,
       src_Timestamp = t1, src_Sender = gAddressHex g (gBytesToAddress g (drop 12 (pk_sender p))),
       src_LogIndex = log_Index l1\<rparr>
      \<lparr>dst_ChainID = c2, dst_TxHash = gHashHex g (log_TxHash l2), dst_BlockNumber = log_BlockNumber l2,
       dst_Timestamp = t2, dst_Receiver = gAddressHex g (pr_Receiver r), dst_LogIndex = log_Index l2\<rparr>"
proof -
  let ?e1 = "e1\<lparr>re_Timestamp := t1\<rparr>" and ?e2 = "e2\<lparr>re_Timestamp := t2\<rparr>"
  let ?guid = "''0x'' @ EncodeToString (pk_guid p)"
  from sent p(1) obtain d where e1: "e1 = base_event g lz_ProtocolName l1 c1 ''PacketSent'' d"
    and d: "lz_fields_ok g p d" by (rule lz_sent_event)
  have e2: "e2 = base_event g lz_ProtocolName l2 c2 ''PacketReceived'' (lz_received_data g r Map.empty)"
    using recv(1-5) by (rule lz_received_event)
  have sender: "gBytesToAddress g (pk_sender p) = gBytesToAddress g (drop 12 (pk_sender p))"
    using lib(1) p(1) by (simp add: address_crops_def packet_ok_def)
  have pn: "parseUint64 (data_get d ''nonce'') = Inr (pk_nonce p)"
    using d by (simp add: lz_fields_ok_def parseUint64_def) (auto simp: ParseUint10_def)
  define m where "m = pending_message ?guid lz_ProtocolName TypeMessage
     (event_source ?e1 c1 (re_TxHash e1) (gAddressHex g (gBytesToAddress g (drop 12 (pk_sender p)))))
     (zero_payload\<lparr>pl_Data := data_get d ''message'', pl_Nonce := pk_nonce p\<rparr>) zero_metadata now1"
  have n1: "Normalize now1 (Some ?e1) = Inr (new_result m)"
    using d pn unfolding m_def
    by (simp add: Normalize_simps normalizePacketSent_def Let_def e1 base_event_def lz_fields_ok_def)
  define m2 where "m2 = zero_message\<lparr>msg_Destination :=
     Some (event_destination ?e2 (gAddressHex g (pr_Receiver r)))\<rparr>"
  have n2: "Normalize now2 (Some ?e2) = Inr (correlation_result m2 (lz_packet_key g p c1))"
    using lib(2) recv(6) p(2) sender unfolding m2_def
    by (simp add: Normalize_simps normalizePacketReceived_def Let_def e2 base_event_def
        lz_received_data_def hex_nonempty_def lz_packet_key_def)
  have ok: "new_result_ok now1 ?e1 (new_result m)" "correlation_result_ok ?e2 (correlation_result m2 (lz_packet_key g p c1))"
    using Normalize_new [OF _ n1] Normalize_correlation [OF _ n2]
    by (simp_all add: e1 e2 source_events_def destination_events_def)
  have mt: "key_matches (upsert_spec m (pg_tables s)) (lz_packet_key g p c1) (MessageID m)"
    using s by (subst key_matches_fresh [where p = "the (msg_Payload m)"])
      (simp_all add: pg_inv_def m_def pending_message_def lz_packet_key_def event_source_def)
  have run: "Process_all PostgresMessageStore [(now1, ?e1), (now2, ?e2)] s =
      s\<lparr>pg_tables := delivered_tables m (the (msg_Destination m2)) StatusExecuted (pg_now s) (pg_tables s)\<rparr>"
    using deliver [OF n1 ok(1) n2 ok(2), of "lz_packet_key g p c1" "the (msg_Destination m2)" StatusExecuted s]
      s mt
    by (simp add: new_result_def correlation_result_def m2_def zero_message_def)
      (simp add: m_def pending_message_def)
  have fr: "t_messages (pg_tables s) (MessageID m) = None"
    using s(3) by (simp add: m_def pending_message_def)
  from deliver_delivered [OF s(1) fr, of zero_metadata "the (msg_Destination m2)" StatusExecuted "pg_now s"]
  show ?thesis unfolding run
    by (simp add: m_def m2_def pending_message_def event_source_def event_destination_def e1 e2
        base_event_def)
qed

definition demo_lz_geth :: geth where
  "demo_lz_geth = ref_geth (\<lambda>_ e _.
     if e = ''PacketSent'' then Inr [AbiBytes (encode_packet demo_packet)]
     else Inr [AbiStruct [(''SrcEid'', AbiUint32 30101), (''Sender'', AbiBytes32 (replicate 32 1)),
                          (''Nonce'', AbiUint64 7)], AbiAddress (replicate 20 2)])"

definition demo_log :: "bytes \<Rightarrow> eth_log" where
  "demo_log topic = \<lparr>log_Address = replicate 20 9, log_Topics = [topic], log_Data = [],
     log_BlockNumber = 100, log_TxHash = replicate 32 7, log_Index = 4\<rparr>"

definition demo_received :: packetReceiveData where
  "demo_received = \<lparr>pr_Origin = \<lparr>po_SrcEid = 30101, po_Sender = replicate 32 1, po_Nonce = 7\<rparr>,
     pr_Receiver = replicate 20 2\<rparr>"

lemma demo_lz_events:
  "lz_event_of demo_lz_geth (str_bytes ''PacketSent'') = Some ''PacketSent''"
  "lz_event_of demo_lz_geth (str_bytes ''PacketDelivered'') = Some ''PacketDelivered''"
  by (simp_all add: lz_event_of_def demo_lz_geth_def ref_geth_def lzABI_names str_bytes_def)

lemma demo_lz_unpack:
  "gUnpack demo_lz_geth lz_ProtocolName ''PacketSent'' b = Inr (AbiBytes (encode_packet demo_packet) # [])"
  "\<exists>ws. gUnpack demo_lz_geth lz_ProtocolName ''PacketDelivered'' b = Inr ws \<and> 2 \<le> length ws \<and>
     gCopyReceived demo_lz_geth ws = Inr demo_received"
  by (simp_all add: demo_lz_geth_def ref_geth_def ref_copy_received_def assert_defs demo_received_def)

lemma demo_lz_decodes:
  "\<exists>e. lz_Decode demo_lz_geth (demo_log (str_bytes ''PacketSent'')) 1 = Inr e"
  "\<exists>e. lz_Decode demo_lz_geth (demo_log (str_bytes ''PacketDelivered'')) 42161 = Inr e"
proof -
  show "\<exists>e. lz_Decode demo_lz_geth (demo_log (str_bytes ''PacketSent'')) 1 = Inr e"
    using length_encode_packet [OF demo_packet_ok]
    by (simp add: lz_Decode_def demo_log_def demo_lz_events lz_decode_sent_def demo_lz_unpack(1)
        as_bytes_def decodeEncodedPayload_def Let_def)
  show "\<exists>e. lz_Decode demo_lz_geth (demo_log (str_bytes ''PacketDelivered'')) 42161 = Inr e"
    using demo_lz_unpack(2) [of "[]"]
    by (auto simp: lz_Decode_def demo_log_def demo_lz_events lz_decode_received_def Let_def)
qed

lemma no_match_empty: "\<not> key_matches empty_tables k j"
  by (simp add: key_matches_def empty_tables_def)

lemma pg_inv_empty [simp]: "pg_inv empty_pg"
  by (simp add: pg_inv_def)

theorem lz_delivery_witness:
  "\<exists>e1 e2 src d.
     lz_Decode demo_lz_geth (demo_log (str_bytes ''PacketSent'')) 1 = Inr e1 \<and>
     lz_Decode demo_lz_geth (demo_log (str_bytes ''PacketDelivered'')) 42161 = Inr e2 \<and>
     delivered (Process_all PostgresMessageStore
        [(0, e1\<lparr>re_Timestamp := 1000\<rparr>), (0, e2\<lparr>re_Timestamp := 1060\<rparr>)] empty_pg)
       (''0x'' @ EncodeToString (pk_guid demo_packet)) StatusExecuted src d"
proof -
  obtain e1 e2 where e1: "lz_Decode demo_lz_geth (demo_log (str_bytes ''PacketSent'')) 1 = Inr e1"
    and e2: "lz_Decode demo_lz_geth (demo_log (str_bytes ''PacketDelivered'')) 42161 = Inr e2"
    using demo_lz_decodes by blast
  obtain ws where ws: "gUnpack demo_lz_geth lz_ProtocolName ''PacketDelivered'' [] = Inr ws"
    "gCopyReceived demo_lz_geth ws = Inr demo_received"
    using demo_lz_unpack(2) [of "[]"] by blast
  have eid: "EndpointToChainID (pk_srcEid demo_packet) = Some 1"
    by (simp add: EndpointToChainID_def EndpointToChainID_entries_def demo_packet_def)
  have lib: "address_crops demo_lz_geth" "hex_nonempty demo_lz_geth"
    by (simp_all add: demo_lz_geth_def)
  have n1: "lz_event_of demo_lz_geth (hd (log_Topics (demo_log (str_bytes ''PacketSent'')))) = Some ''PacketSent''"
    and n2: "lz_event_of demo_lz_geth (hd (log_Topics (demo_log (str_bytes ''PacketDelivered'')))) =
      Some ''PacketDelivered''"
    by (simp_all add: demo_log_def demo_lz_events)
  have u2: "gUnpack demo_lz_geth lz_ProtocolName ''PacketDelivered''
      (log_Data (demo_log (str_bytes ''PacketDelivered''))) = Inr ws"
    using ws by (simp add: demo_log_def)
  have org: "pr_Origin demo_received = \<lparr>po_SrcEid = pk_srcEid demo_packet,
      po_Sender = pk_sender demo_packet, po_Nonce = pk_nonce demo_packet\<rparr>"
    by (simp add: demo_received_def demo_packet_def)
  have no: "\<forall>j. \<not> key_matches (pg_tables empty_pg) (lz_packet_key demo_lz_geth demo_packet 1) j"
    and fresh: "t_messages (pg_tables empty_pg) (''0x'' @ EncodeToString (pk_guid demo_packet)) = None"
    by (simp_all add: no_match_empty) (simp add: empty_tables_def)
  have "''PacketDelivered'' \<in> {''PacketReceived'', ''PacketDelivered''}" by simp
  from lz_delivery [OF lib demo_packet_ok eid e1 n1 demo_lz_unpack(1) e2 n2 this u2 ws(2) org
      pg_inv_empty demo_pg_simps(1) fresh no, of 0 1000 0 1060] e1 e2
  show ?thesis by blast
qed

section \<open>Axelar and CCIP: completion by message id\<close>

lemma Process_all_two:
  "Process_all store [a, b] s = Process_all store [b] (Process_all store [a] s)"
  by (cases a; cases b) simp

lemma deliver_by_id:
  assumes n1: "Normalize now1 (Some ev1) = Inr ra" "re_EventType ev1 \<in> set source_events"
    and n2: "Normalize now2 (Some ev2) = Inr rb" "re_EventType ev2 \<in> set destination_events"
      "res_CorrelationKey rb = Some k" "msg_Destination (res_Message rb) = Some d"
    and st: "st = (if msg_Status (res_Message rb) = [] then StatusExecuted
                   else msg_Status (res_Message rb))"
    and id: "ck_MessageID k = MessageID (res_Message ra)" "ck_Protocol k = re_Protocol ev1"
    and s: "pg_inv s" "pg_faults s = []" "t_messages (pg_tables s) (MessageID (res_Message ra)) = None"
  shows "delivered (Process_all PostgresMessageStore [(now1, ev1), (now2, ev2)] s)
     (MessageID (res_Message ra)) st (msg_Source (res_Message ra)) d"
proof -
  let ?m = "res_Message ra"
  have ok: "new_result_ok now1 ev1 ra" "correlation_result_ok ev2 rb"
    using Normalize_new [OF n1(2,1)] Normalize_correlation [OF n2(2,1)] .
  then obtain p md where m: "MessageID ?m \<noteq> []" "msg_Protocol ?m = re_Protocol ev1"
    "msg_Status ?m = StatusPending" "msg_Payload ?m = Some p" "msg_Metadata ?m = Some md"
    by (auto simp: new_result_ok_def new_message_ok_def)
  have un: "\<not> key_matches (pg_tables s) k j" for j
    using s(3) id(1) m(1) by (auto simp: key_matches_def split: option.splits)
  have mt: "key_matches (upsert_spec ?m (pg_tables s)) k (MessageID ?m)"
    using s key_matches_fresh [OF _ s(3) m(3,4)] m id by (simp add: pg_inv_def)
  have run: "Process_all PostgresMessageStore [(now1, ev1), (now2, ev2)] s =
      s\<lparr>pg_tables := delivered_tables ?m d st (pg_now s) (pg_tables s)\<rparr>"
    using n1(1) ok(1) n2(1) ok(2) n2(3,4) st s(2,1,3) mt un by (rule deliver)
  show ?thesis unfolding run by (rule deliver_delivered [OF s(1,3) m(5)])
qed

lemma ax_event_data:
  assumes "ax_Decode g l c = Inr e"
  shows "re_EventType e = ''ContractCallApproved'' \<Longrightarrow>
      decodeContractCallApproved g l (base_event g ax_ProtocolName l c ''ContractCallApproved'' Map.empty) = Inr e"
    and "re_EventType e = ''Executed'' \<Longrightarrow>
      e = decodeExecuted g l (base_event g ax_ProtocolName l c ''Executed'' Map.empty)"
proof -
  have ty: "decodeContractCall g l b = Inr e' \<Longrightarrow> re_EventType e' = re_EventType b"
    "decodeContractCallApproved g l b = Inr e' \<Longrightarrow> re_EventType e' = re_EventType b"
    "re_EventType (decodeExecuted g l b) = re_EventType b" for b e'
    by (auto simp: decodeContractCall_def decodeContractCallApproved_def decodeExecuted_def Let_def
      split: sum.splits option.splits if_splits)
  show "re_EventType e = ''ContractCallApproved'' \<Longrightarrow>
      decodeContractCallApproved g l (base_event g ax_ProtocolName l c ''ContractCallApproved'' Map.empty) = Inr e"
    "re_EventType e = ''Executed'' \<Longrightarrow>
      e = decodeExecuted g l (base_event g ax_ProtocolName l c ''Executed'' Map.empty)"
    using assms
    by (auto simp: ax_Decode_def Let_def ty dest: ty(1,2) split: list.splits option.splits if_splits)
qed

lemma ax_approved_data:
  assumes "decodeContractCallApproved g l b = Inr e" and "4 \<le> length (log_Topics l)"
    and "gUnpack g ax_ProtocolName ''ContractCallApproved'' (log_Data l) = Inr (AbiString chain # AbiString addr # vs)"
  shows "event_data e ''command_id'' = gHashHex g (log_Topics l ! 1)"
    and "event_data e ''source_tx_hash'' = gHashHex g (log_Topics l ! 3)"
    and "event_data e ''src_chain_id'' = ax_chain_text g chain"
    and "event_data e ''source_address'' = addr" and "e = b\<lparr>re_Data := re_Data e\<rparr>"
  using assms
  by (auto simp: decodeContractCallApproved_def ax_approved_indexed_def as_string_def Let_def
      split: option.splits if_splits)

lemma parse_unknown: "parseUint64_value ''unknown'' = 0"
  by (simp add: parseUint64_value_def parseUint64_def ParseUint10_def digit_val_def ErrSyntax_def
      ErrRange_def)

lemma parse_dec: "parseUint64_value (dec_word (w :: u64)) = w"
  by (simp add: parseUint64_value_def)

text \<open>
  C6: an Axelar call is followed from its approval to its execution. Processing the log of a
  \<open>ContractCallApproved\<close> with its three indexed topics, then the log of an \<open>Executed\<close> with the
  same command id, in a database without that id, leaves the message executed; its source has the
  transaction hash and address of the originating chain and that chain's EVM id, which is 0 when
  the chain's name is not in the table.
\<close>

theorem axelar_delivery:
  assumes lib: "hex_nonempty g"
    and e1: "ax_Decode g l1 c1 = Inr e1" "re_EventType e1 = ''ContractCallApproved''"
      "4 \<le> length (log_Topics l1)"
      "gUnpack g ax_ProtocolName ''ContractCallApproved'' (log_Data l1) = Inr (AbiString chain # AbiString addr # vs)"
    and e2: "ax_Decode g l2 c2 = Inr e2" "re_EventType e2 = ''Executed''"
      "2 \<le> length (log_Topics l2)" "log_Topics l2 ! 1 = log_Topics l1 ! 1"
    and s: "pg_inv s" "pg_faults s = []" "t_messages (pg_tables s) (gHashHex g (log_Topics l1 ! 1)) = None"
  shows "delivered
      (Process_all PostgresMessageStore
        [(now1, e1\<lparr>re_Timestamp := t1\<rparr>), (now2, e2\<lparr>re_Timestamp := t2\<rparr>)] s)
      (gHashHex g (log_Topics l1 ! 1)) StatusExecuted
      \<lparr>src_ChainID = (case ChainNameToID (ToLower g chain) of None \<Rightarrow> 0 | Some cid \<Rightarrow> cid),
       src_TxHash = gHashHex g (log_Topics l1 ! 3), src_BlockNumber = log_BlockNumber l1,
       src_Timestamp = t1, src_Sender = addr, src_LogIndex = log_Index l1\<rparr>
      \<lparr>dst_ChainID = c2, dst_TxHash = gHashHex g (log_TxHash l2), dst_BlockNumber = log_BlockNumber l2,
       dst_Timestamp = t2, dst_Receiver = [], dst_LogIndex = log_Index l2\<rparr>"
proof -
  let ?e1 = "e1\<lparr>re_Timestamp := t1\<rparr>" and ?e2 = "e2\<lparr>re_Timestamp := t2\<rparr>"
  let ?id = "gHashHex g (log_Topics l1 ! 1)"
  have b1: "decodeContractCallApproved g l1 (base_event g ax_ProtocolName l1 c1 ''ContractCallApproved'' Map.empty) = Inr e1"
    using ax_event_data(1) [OF e1(1,2)] .
  note d1 = ax_approved_data [OF b1 e1(3,4)]
  have d2: "e2 = base_event g ax_ProtocolName l2 c2 ''Executed'' [''command_id'' \<mapsto> ?id]"
    using ax_event_data(2) [OF e2(1,2)] e2(3,4) by (simp add: decodeExecuted_def base_event_def)
  have cid: "parseUint64_value (ax_chain_text g chain) =
      (case ChainNameToID (ToLower g chain) of None \<Rightarrow> 0 | Some cid \<Rightarrow> cid)"
    by (simp add: ax_chain_text_def parse_unknown parse_dec split: option.splits)
  have ne: "?id \<noteq> []" using lib by (simp add: hex_nonempty_def)
  define m where "m = pending_message ?id ax_ProtocolName TypeContractCall
     (event_source ?e1 (case ChainNameToID (ToLower g chain) of None \<Rightarrow> 0 | Some cid \<Rightarrow> cid)
        (gHashHex g (log_Topics l1 ! 3)) addr) zero_payload zero_metadata now1"
  have p1: "re_Protocol e1 = ax_ProtocolName"
    by (subst d1(5)) (simp add: base_event_def)
  have n1: "Normalize now1 (Some ?e1) = Inr (new_result m)"
    using ne d1 e1(2) p1 unfolding m_def
    by (simp add: Normalize_simps normalizeAxelarContractCallApproved_def Let_def cid)
  define k where "k = \<lparr>ck_Protocol = ax_ProtocolName, ck_MessageID = ?id, ck_Nonce = 0, ck_Sender = [],
      ck_SrcChainID = 0\<rparr>"
  define m2 where "m2 = zero_message\<lparr>msg_Destination := Some (event_destination ?e2 [])\<rparr>"
  have n2: "Normalize now2 (Some ?e2) = Inr (correlation_result m2 k)"
    using ne unfolding m2_def k_def
    by (simp add: Normalize_simps normalizeAxelarExecuted_def Let_def d2 base_event_def)
  have "delivered (Process_all PostgresMessageStore [(now1, ?e1), (now2, ?e2)] s)
      (MessageID (res_Message (new_result m))) StatusExecuted (msg_Source (res_Message (new_result m)))
      (event_destination ?e2 [])"
    using s e1(2) e2(2) n1 n2 p1
    by (intro deliver_by_id [where k = k and rb = "correlation_result m2 k"])
       (simp_all add: source_events_def destination_events_def new_result_def correlation_result_def
         m_def m2_def k_def pending_message_def zero_message_def)
  moreover have "re_BlockNumber e1 = log_BlockNumber l1 \<and> re_LogIndex e1 = log_Index l1"
    by (subst d1(5), subst (2) d1(5)) (simp add: base_event_def)
  ultimately show ?thesis
    by (simp add: m_def new_result_def pending_message_def event_source_def event_destination_def d2
        base_event_def)
qed

definition demo_ax_geth :: geth where
  "demo_ax_geth = ref_geth (\<lambda>_ e _.
     Inr [AbiString ''Avalanche'', AbiString ''0xabc'', AbiBytes32 (replicate 32 5), AbiBigInt (Some 0)])"

definition demo_approved :: eth_log where
  "demo_approved = (demo_log [])\<lparr>log_Topics :=
     [str_bytes ''ContractCallApproved'', replicate 32 1, replicate 32 2, replicate 32 3]\<rparr>"

definition demo_executed :: eth_log where
  "demo_executed = (demo_log [])\<lparr>log_Topics := [str_bytes ''Executed'', replicate 32 1]\<rparr>"

lemma demo_ax_decodes:
  "\<exists>e. ax_Decode demo_ax_geth demo_approved 10 = Inr e \<and> re_EventType e = ''ContractCallApproved''"
  "\<exists>e. ax_Decode demo_ax_geth demo_executed 10 = Inr e \<and> re_EventType e = ''Executed''"
proof -
  have ev: "eventsByTopic demo_ax_geth ax_ProtocolName axelarABI_events (str_bytes ''ContractCallApproved'')
      = Some ''ContractCallApproved''"
    "eventsByTopic demo_ax_geth ax_ProtocolName axelarABI_events (str_bytes ''Executed'') = Some ''Executed''"
    by (simp_all add: eventsByTopic_def demo_ax_geth_def ref_geth_def axelarABI_names str_bytes_def)
  show "\<exists>e. ax_Decode demo_ax_geth demo_executed 10 = Inr e \<and> re_EventType e = ''Executed''"
    by (simp add: ax_Decode_def demo_executed_def ev decodeExecuted_def base_event_def Let_def)
  show "\<exists>e. ax_Decode demo_ax_geth demo_approved 10 = Inr e \<and> re_EventType e = ''ContractCallApproved''"
    by (simp add: ax_Decode_def demo_approved_def ev decodeContractCallApproved_def Let_def)
       (simp add: demo_ax_geth_def ref_geth_def assert_defs base_event_def)
qed

theorem axelar_delivery_witness:
  "\<exists>e1 e2 src d. ax_Decode demo_ax_geth demo_approved 10 = Inr e1 \<and>
     ax_Decode demo_ax_geth demo_executed 10 = Inr e2 \<and>
     delivered (Process_all PostgresMessageStore
        [(0, e1\<lparr>re_Timestamp := 5\<rparr>), (0, e2\<lparr>re_Timestamp := 6\<rparr>)] empty_pg)
       (gHashHex demo_ax_geth (replicate 32 1)) StatusExecuted src d"
proof -
  obtain e1 e2 where e1: "ax_Decode demo_ax_geth demo_approved 10 = Inr e1"
      "re_EventType e1 = ''ContractCallApproved''"
    and e2: "ax_Decode demo_ax_geth demo_executed 10 = Inr e2" "re_EventType e2 = ''Executed''"
    using demo_ax_decodes by blast
  have lib: "hex_nonempty demo_ax_geth" by (simp add: demo_ax_geth_def)
  have l1: "4 \<le> length (log_Topics demo_approved)" by (simp add: demo_approved_def)
  have l2: "2 \<le> length (log_Topics demo_executed)"
    "log_Topics demo_executed ! 1 = log_Topics demo_approved ! 1"
    "log_Topics demo_approved ! 1 = replicate 32 1"
    by (simp_all add: demo_approved_def demo_executed_def)
  have u: "gUnpack demo_ax_geth ax_ProtocolName ''ContractCallApproved'' (log_Data demo_approved) =
      Inr (AbiString ''Avalanche'' # AbiString ''0xabc'' # [AbiBytes32 (replicate 32 5), AbiBigInt (Some 0)])"
    by (simp add: demo_ax_geth_def ref_geth_def)
  have fresh: "t_messages (pg_tables empty_pg) (gHashHex demo_ax_geth (log_Topics demo_approved ! 1)) = None"
    by (simp add: empty_tables_def)
  from axelar_delivery [OF lib e1 l1 u e2 l2(1,2) pg_inv_empty demo_pg_simps(1) fresh, of 0 5 0 6] e1(1) e2(1)
  show ?thesis unfolding l2(3) by blast
qed

text \<open>
  C7: a CCIP message is followed to its outcome, once. Processing the send event of a message
  without a record, then an execution event of state 2 (success) or 3 (failure) with the same
  message id, records it as executed, respectively failed; and this first outcome stands whatever
  is processed later, so that a failed message executed again with success stays failed.
\<close>

theorem ccip_delivery:
  assumes n1: "Normalize now1 (Some e1) = Inr r1" "re_EventType e1 = ''CCIPSendRequested''"
    and e2: "re_EventType e2 = ''ExecutionStateChanged''" "re_Protocol e2 = re_Protocol e1"
      "event_data e2 ''message_id'' = event_data e1 ''message_id''"
      "event_data e2 ''state'' = dec_word (n :: u64)" "n \<in> {2, 3}"
    and s: "pg_inv s" "pg_faults s = []" "t_messages (pg_tables s) (event_data e1 ''message_id'') = None"
  shows "let s' = Process_all PostgresMessageStore [(now1, e1), (now2, e2)] s;
             st = (if n = 2 then StatusExecuted else StatusFailed) in
     delivered s' (event_data e1 ''message_id'') st (msg_Source (res_Message r1)) (event_destination e2 [])
     \<and> (\<forall>evs. pg_status (Process_all PostgresMessageStore evs s') (event_data e1 ''message_id'') = Some st)"
proof -
  let ?id = "event_data e1 ''message_id''"
  let ?st = "if n = 2 then StatusExecuted else StatusFailed"
  let ?s = "Process_all PostgresMessageStore [(now1, e1), (now2, e2)] s"
  have r1: "MessageID (res_Message r1) = ?id" and ne: "?id \<noteq> []"
    using n1 by (auto simp: Normalize_simps normalizeCCIPSendRequested_def Let_def new_result_def
        pending_message_def split: sum.splits if_splits)
  define m2 where "m2 = zero_message\<lparr>msg_Status := ?st, msg_Destination := Some (event_destination e2 [])\<rparr>"
  define k where "k = \<lparr>ck_Protocol = re_Protocol e1, ck_MessageID = ?id, ck_Nonce = 0, ck_Sender = [],
      ck_SrcChainID = 0\<rparr>"
  have n2: "Normalize now2 (Some e2) = Inr (correlation_result m2 k)"
    using e2 ne unfolding m2_def k_def
    by (auto simp: Normalize_simps normalizeCCIPExecutionStateChanged_def Let_def)
  have del: "delivered ?s (MessageID (res_Message r1)) ?st (msg_Source (res_Message r1)) (event_destination e2 [])"
    using s n1 n2 e2 r1
    by (intro deliver_by_id [where k = k and rb = "correlation_result m2 k"])
       (simp_all add: source_events_def destination_events_def correlation_result_def m2_def k_def
         status_defs)
  then have "pg_status ?s ?id = Some ?st" by (simp add: delivered_def r1)
  moreover have "pg_inv ?s" using s(1) by (rule pgstore.Process_all_inv)
  moreover have "?st \<noteq> StatusPending" by (simp add: status_defs)
  ultimately have "\<forall>evs. pg_status (Process_all PostgresMessageStore evs ?s) ?id = Some ?st"
    by (blast intro: pgstore.run_final)
  with del show ?thesis unfolding Let_def r1 by blast
qed

definition demo_send :: raw_event where
  "demo_send = demo_event ''ccip'' ''CCIPSendRequested'' [''message_id'' \<mapsto> ''0x01'', ''sender'' \<mapsto> ''0x02'',
     ''src_chain_id'' \<mapsto> dec_word (1 :: u64), ''nonce'' \<mapsto> dec_word (4 :: u64)]"

definition demo_state :: "u64 \<Rightarrow> raw_event" where
  "demo_state n = demo_event ''ccip'' ''ExecutionStateChanged''
     [''message_id'' \<mapsto> ''0x01'', ''state'' \<mapsto> dec_word n]"

lemma demo_send_normalizes: "\<exists>r. Normalize 0 (Some demo_send) = Inr r"
  by (simp add: Normalize_simps demo_send_def demo_event_def normalizeCCIPSendRequested_def Let_def)

theorem ccip_delivery_witness:
  "pg_status (Process_all PostgresMessageStore [(9, demo_state 2)]
     (Process_all PostgresMessageStore [(0, demo_send), (0, demo_state 3)] empty_pg)) ''0x01'' = Some StatusFailed"
proof -
  obtain r where r: "Normalize 0 (Some demo_send) = Inr r" using demo_send_normalizes by blast
  have "re_EventType demo_send = ''CCIPSendRequested''" "re_EventType (demo_state 3) = ''ExecutionStateChanged''"
    "re_Protocol (demo_state 3) = re_Protocol demo_send"
    "event_data (demo_state 3) ''message_id'' = event_data demo_send ''message_id''"
    "event_data (demo_state 3) ''state'' = dec_word (3 :: u64)" "(3 :: u64) \<in> {2, 3}"
    "t_messages (pg_tables empty_pg) (event_data demo_send ''message_id'') = None"
    and id: "event_data demo_send ''message_id'' = ''0x01''"
    by (simp_all add: demo_send_def demo_state_def demo_event_def empty_tables_def)
  from ccip_delivery [OF r this(1-6) pg_inv_empty demo_pg_simps(1) this(7), of 0]
  have "\<forall>evs. pg_status (Process_all PostgresMessageStore evs
     (Process_all PostgresMessageStore [(0, demo_send), (0, demo_state 3)] empty_pg)) ''0x01'' =
     Some (if (3 :: u64) = 2 then StatusExecuted else StatusFailed)"
    unfolding Let_def id by (rule conjunct2)
  then show ?thesis by (simp del: Process_all.simps)
qed

section \<open>Where messages are not completed\<close>

text \<open>
  C15: a destination event that comes first is lost. When a destination event is processed and no
  stored message matches its key, nothing is reported and nothing is stored; the source event of
  its message, processed after it, then records the message as pending without a destination.
\<close>

theorem early_destination_lost:
  assumes n2: "Normalize now2 (Some e2) = Inr r2" "res_CorrelationKey r2 = Some k"
    and n1: "Normalize now1 (Some e1) = Inr r1" "re_EventType e1 \<in> set source_events"
    and s: "pg_inv s" "pg_faults s = []" "t_messages (pg_tables s) (MessageID (res_Message r1)) = None"
    and no: "\<forall>j. \<not> key_matches (pg_tables s) k j"
  shows "let s' = Process_all PostgresMessageStore [(now2, e2), (now1, e1)] s;
             mid = MessageID (res_Message r1) in
     Process PostgresMessageStore now2 e2 s = (s, None) \<and>
     pg_status s' mid = Some StatusPending \<and> pg_dest s' mid = None"
proof -
  have "re_EventType e2 \<in> set destination_events"
    using Normalize_supported [OF n2(1)] Normalize_new [OF _ n2(1)] n2(2)
    by (auto simp: new_result_ok_def)
  from Normalize_correlation [OF this n2(1)] have "res_IsCorrelation r2"
    by (simp add: correlation_result_ok_def)
  with n2 s(2) no have 1: "Process PostgresMessageStore now2 e2 s = (s, None)"
    by (intro Process_correlation_miss) auto
  have ok: "new_result_ok now1 e1 r1" using Normalize_new [OF n1(2,1)] .
  then have st: "msg_Status (res_Message r1) = StatusPending"
    by (simp add: new_result_ok_def new_message_ok_def)
  have 2: "Process PostgresMessageStore now1 e1 s =
      (s\<lparr>pg_tables := upsert_spec (res_Message r1) (pg_tables s)\<rparr>, None)"
    using n1(1) ok s(2) new_message_storable [OF ok]
    by (intro Process_new_event) (simp_all add: new_result_ok_def)
  have "t_destinations (pg_tables s) (MessageID (res_Message r1)) = None"
    using s by (intro schema_fresh) (simp_all add: pg_inv_def)
  then show ?thesis
    using st s(3) upsert_spec_status [of "res_Message r1" "pg_tables s" "MessageID (res_Message r1)"]
    by (simp add: 1 2 Let_def pg_status_def pg_dest_def)
qed

theorem early_destination_lost_witness:
  "pg_status (Process_all PostgresMessageStore [(0, demo_state 2), (0, demo_send)] empty_pg) ''0x01'' =
     Some StatusPending"
proof -
  obtain r1 where r1: "Normalize 0 (Some demo_send) = Inr r1" "MessageID (res_Message r1) = ''0x01''"
    by (simp add: Normalize_simps demo_send_def demo_event_def normalizeCCIPSendRequested_def Let_def
        new_result_def pending_message_def)
  obtain r2 k where r2: "Normalize 0 (Some (demo_state 2)) = Inr r2" "res_CorrelationKey r2 = Some k"
    by (simp add: Normalize_simps demo_state_def demo_event_def normalizeCCIPExecutionStateChanged_def
        Let_def correlation_result_def)
  have src: "re_EventType demo_send \<in> set source_events"
    by (simp add: demo_send_def demo_event_def source_events_def)
  have fresh: "t_messages (pg_tables empty_pg) (MessageID (res_Message r1)) = None"
    and no: "\<forall>j. \<not> key_matches (pg_tables empty_pg) k j"
    by (simp_all add: no_match_empty) (simp add: empty_tables_def)
  from early_destination_lost [OF r2 r1(1) src pg_inv_empty demo_pg_simps(1) fresh no] r1(2)
  show ?thesis by (simp add: Let_def del: Process_all.simps)
qed

subsection \<open>Wormhole\<close>

text \<open>
  A Wormhole message is stored with nonce 0, since \<open>normalizeLogMessagePublished\<close> does not set it;
  the key of a redemption has the sequence number as nonce.
\<close>

definition wh_rows :: "tables \<Rightarrow> bool" where
  "wh_rows t \<longleftrightarrow> (\<forall>mid m. t_messages t mid = Some m \<and> mr_protocol m = wh_ProtocolName \<longrightarrow>
     (\<exists>p. t_payloads t mid = Some p \<and> pr_nonce p = Some 0))"

definition wh_typed :: "raw_event \<Rightarrow> bool" where
  "wh_typed ev \<longleftrightarrow> (re_Protocol ev = wh_ProtocolName \<longrightarrow> re_EventType ev \<in> set wh_event_types)"

lemma wh_message_nonce:
  assumes "Normalize now (Some ev) = Inr r" and "re_EventType ev \<in> set source_events"
    and "wh_typed ev" and "re_Protocol ev = wh_ProtocolName"
  shows "\<exists>p. msg_Payload (res_Message r) = Some p \<and> pl_Nonce p = 0"
proof -
  have "re_EventType ev = ''LogMessagePublished''"
    using assms(2-4) by (auto simp: wh_typed_def wh_event_types_def source_events_def)
  with assms(1) show ?thesis
    by (auto simp: Normalize_simps normalizeLogMessagePublished_def Let_def new_result_def
        pending_message_def zero_payload_def split: if_splits)
qed

lemma wh_rows_upsert:
  assumes "schema_ok t" and "wh_rows t"
    and "msg_Protocol m = wh_ProtocolName \<Longrightarrow> \<exists>p. msg_Payload m = Some p \<and> pl_Nonce p = 0"
  shows "wh_rows (upsert_spec m t)"
  unfolding wh_rows_def
proof (intro allI impI)
  fix mid row assume r: "t_messages (upsert_spec m t) mid = Some row \<and> mr_protocol row = wh_ProtocolName"
  show "\<exists>p. t_payloads (upsert_spec m t) mid = Some p \<and> pr_nonce p = Some 0"
  proof (cases "mid = MessageID m \<and> t_messages t mid = None")
    case True
    then have "msg_Protocol m = wh_ProtocolName"
      using r by (auto simp: upsert_spec_def Let_def upserted_message_def)
    with assms(3) obtain p where "msg_Payload m = Some p" "pl_Nonce p = 0" by blast
    with True schema_fresh(2) [OF assms(1), of mid] show ?thesis
      by (auto simp: upsert_spec_def Let_def upserted_payload_def)
  next
    case False
    then obtain old where "t_messages t mid = Some old" "mr_protocol old = wh_ProtocolName"
      using r by (auto simp: upsert_spec_def Let_def upserted_message_def split: if_splits option.splits)
    with assms(2) obtain p where "t_payloads t mid = Some p" "pr_nonce p = Some 0"
      unfolding wh_rows_def by blast
    then show ?thesis
      by (auto simp: upsert_spec_def Let_def upserted_payload_def split: option.splits)
  qed
qed

lemma wh_rows_destination: "wh_rows t \<Longrightarrow> wh_rows (destination_spec mid d st now t)"
  by (auto simp: wh_rows_def destination_spec_def)

lemma Process_wh_rows:
  assumes inv: "pg_inv s" and old: "wh_rows (pg_tables s)" and ty: "wh_typed ev"
  shows "wh_rows (pg_tables (fst (Process PostgresMessageStore now ev s)))"
proof (cases "Normalize now (Some ev)")
  case (Inl e)
  with old show ?thesis by (simp add: Process_def)
next
  case (Inr r)
  from Normalize_supported [OF Inr] consider
    "re_EventType ev \<in> set source_events" | "re_EventType ev \<in> set destination_events" by blast
  then show ?thesis
  proof cases
    case 1
    then have n: "new_result_ok now ev r" using Inr by (rule Normalize_new)
    obtain s' x where u: "UpsertMessage (res_Message r) s = (s', x)"
      by (cases "UpsertMessage (res_Message r) s")
    have "wh_rows (upsert_spec (res_Message r) (pg_tables s))"
      using inv old n wh_message_nonce [OF Inr 1 ty]
      by (intro wh_rows_upsert) (auto simp: pg_inv_def new_result_ok_def new_message_ok_def)
    with UpsertMessage_effect [OF u] old n Inr u show ?thesis
      by (auto simp: Process_def PostgresMessageStore_def new_result_ok_def)
  next
    case 2
    then have n: "correlation_result_ok ev r" using Inr by (rule Normalize_correlation)
    then obtain k d where k: "res_IsCorrelation r" "res_CorrelationKey r = Some k"
      "msg_Destination (res_Message r) = Some d"
      and st: "msg_Status (res_Message r) \<in> {[], StatusExecuted, StatusFailed}"
      by (auto simp: correlation_result_ok_def correlation_ok_def)
    let ?st = "if msg_Status (res_Message r) = [] then StatusExecuted else msg_Status (res_Message r)"
    have ms: "?st \<in> message_statuses" using st by (auto simp: message_statuses_def)
    obtain s1 q where f: "FindByCorrelationKey k s = (s1, q)" by (cases "FindByCorrelationKey k s")
    then have t1: "pg_tables s1 = pg_tables s" by (auto dest: FindByCorrelationKey_frame)
    show ?thesis
    proof (cases "\<exists>m. q = Inr (Some m)")
      case False
      with f k Inr t1 old show ?thesis
        by (auto simp: Process_def correlate_def PostgresMessageStore_def split: sum.splits option.splits)
    next
      case True
      then obtain m where q: "q = Inr (Some m)" by blast
      obtain s2 x where u: "UpdateDestination (MessageID m) d ?st s1 = (s2, x)"
        by (cases "UpdateDestination (MessageID m) d ?st s1")
      have "wh_rows (pg_tables s2)"
        using UpdateDestination_effect [OF u ms] old t1 wh_rows_destination by auto
      with f k Inr q u show ?thesis
        by (auto simp: Process_def correlate_def PostgresMessageStore_def Let_def
            split: option.splits if_splits)
    qed
  qed
qed

lemma Process_all_wh_rows:
  "pg_inv s \<Longrightarrow> wh_rows (pg_tables s) \<Longrightarrow> \<forall>(now, ev) \<in> set evs. wh_typed ev \<Longrightarrow>
     wh_rows (pg_tables (Process_all PostgresMessageStore evs s))"
proof (induction evs arbitrary: s)
  case (Cons x evs)
  obtain now ev where x: "x = (now, ev)" by (cases x)
  have "pg_inv (fst (Process PostgresMessageStore now ev s))"
    using pgstore.Process_life [OF Cons.prems(1), of now ev] by (cases "Process PostgresMessageStore now ev s") auto
  moreover have "wh_rows (pg_tables (fst (Process PostgresMessageStore now ev s)))"
    using Cons.prems by (intro Process_wh_rows) (auto simp: x)
  ultimately show ?case using Cons by (simp add: x)
qed simp

text \<open>
  C14: Wormhole transfers are never completed. After any run over events whose Wormhole ones come
  from the Wormhole decoder, from a database without Wormhole messages, processing the redemption
  of a transfer whose sequence number is not 0 changes no table: the message it belongs to, if it
  was recorded, stays pending.
\<close>

theorem wormhole_never_completes:
  assumes s: "pg_inv s" "\<forall>mid m. t_messages (pg_tables s) mid = Some m \<longrightarrow> mr_protocol m \<noteq> wh_ProtocolName"
    and evs: "\<forall>(now, ev) \<in> set evs. wh_typed ev"
    and e: "re_EventType e = ''TransferRedeemed''" "re_Protocol e = wh_ProtocolName"
      "event_data e ''sequence'' = dec_word (q :: u64)" "q \<noteq> 0"
  shows "pg_tables (fst (Process PostgresMessageStore now e (Process_all PostgresMessageStore evs s))) =
     pg_tables (Process_all PostgresMessageStore evs s)"
proof -
  let ?s = "Process_all PostgresMessageStore evs s"
  have rows: "wh_rows (pg_tables ?s)"
    using s evs by (intro Process_all_wh_rows) (auto simp: wh_rows_def)
  show ?thesis
  proof (cases "Normalize now (Some e)")
    case (Inl x)
    then show ?thesis by (simp add: Process_def)
  next
    case (Inr r)
    then obtain k where k: "res_IsCorrelation r" "res_CorrelationKey r = Some k"
      and kk: "ck_Protocol k = wh_ProtocolName" "ck_MessageID k = []" "ck_Nonce k = q"
      using e by (auto simp: Normalize_simps normalizeTransferRedeemed_def Let_def
          correlation_result_def split: sum.splits if_splits)
    have no: "\<not> key_matches (pg_tables ?s) k j" for j
      using rows kk e(4) by (fastforce simp: key_matches_def wh_rows_def split: option.splits)
    obtain s1 x where f: "FindByCorrelationKey k ?s = (s1, x)" by (cases "FindByCorrelationKey k ?s")
    have "\<nexists>m. x = Inr (Some m)" using FindByCorrelationKey_Some [of k ?s s1] f no by blast
    moreover have "pg_tables s1 = pg_tables ?s" using f by (auto dest: FindByCorrelationKey_frame)
    ultimately show ?thesis
      using f k Inr by (auto simp: Process_def correlate_def PostgresMessageStore_def
          split: sum.splits option.splits)
  qed
qed

definition demo_wh_event :: "string \<Rightarrow> raw_event" where
  "demo_wh_event ty = demo_event ''wormhole'' ty [''message_id'' \<mapsto> ''2/0x01/5'', ''sender'' \<mapsto> ''0x01'',
     ''src_chain_id'' \<mapsto> dec_word (1 :: u64), ''sequence'' \<mapsto> dec_word (5 :: u64)]"

theorem wormhole_never_completes_witness:
  "let s = Process_all PostgresMessageStore [(0, demo_wh_event ''LogMessagePublished'')] empty_pg in
   pg_status s ''2/0x01/5'' = Some StatusPending \<and>
   pg_tables (fst (Process PostgresMessageStore 1 (demo_wh_event ''TransferRedeemed'') s)) = pg_tables s"
proof -
  let ?ev = "demo_wh_event ''LogMessagePublished''" and ?e = "demo_wh_event ''TransferRedeemed''"
  have none: "\<forall>mid m. t_messages (pg_tables empty_pg) mid = Some m \<longrightarrow> mr_protocol m \<noteq> wh_ProtocolName"
    by (simp add: empty_tables_def)
  have ty: "\<forall>(now, ev) \<in> set [(0 :: int, ?ev)]. wh_typed ev"
    by (simp add: wh_typed_def wh_event_types_def demo_wh_event_def demo_event_def)
  have e: "re_EventType ?e = ''TransferRedeemed''" "re_Protocol ?e = wh_ProtocolName"
    "event_data ?e ''sequence'' = dec_word (5 :: u64)" "(5 :: u64) \<noteq> 0"
    by (simp_all add: demo_wh_event_def demo_event_def wh_ProtocolName_def)
  obtain r where r: "Normalize 0 (Some ?ev) = Inr r" "MessageID (res_Message r) = ''2/0x01/5''"
    by (simp add: Normalize_simps demo_wh_event_def demo_event_def normalizeLogMessagePublished_def
        Let_def new_result_def pending_message_def)
  have ok: "new_result_ok 0 ?ev r"
    using r(1) by (intro Normalize_new) (simp_all add: demo_wh_event_def demo_event_def source_events_def)
  have "Process PostgresMessageStore 0 ?ev empty_pg =
      (empty_pg\<lparr>pg_tables := upsert_spec (res_Message r) (pg_tables empty_pg)\<rparr>, None)"
    using r(1) ok new_message_storable [OF ok]
    by (intro Process_new_event) (simp_all add: new_result_ok_def)
  then have "pg_status (Process_all PostgresMessageStore [(0, ?ev)] empty_pg) ''2/0x01/5'' = Some StatusPending"
    using ok r(2) by (simp add: pg_status_def upsert_spec_status empty_tables_def new_result_ok_def
        new_message_ok_def)
  with wormhole_never_completes [OF pg_inv_empty none ty e, of 1] show ?thesis unfolding Let_def by blast
qed

section \<open>Witnesses for the run properties\<close>

text \<open>
  The CCIP message of the examples is executed in any database without it; \<open>demo_run\<close> is the result
  in the empty one.
\<close>

abbreviation executed_run :: "pg \<Rightarrow> pg" where
  "executed_run s \<equiv> Process_all PostgresMessageStore [(0, demo_send), (0, demo_state 2)] s"

definition demo_run :: pg where
  "demo_run = executed_run empty_pg"

lemma executed_run_status:
  assumes "pg_inv s" and "pg_faults s = []" and "t_messages (pg_tables s) ''0x01'' = None"
  shows "pg_status (executed_run s) ''0x01'' = Some StatusExecuted"
proof -
  obtain r1 where r1: "Normalize 0 (Some demo_send) = Inr r1" "MessageID (res_Message r1) = ''0x01''"
    by (simp add: Normalize_simps demo_send_def demo_event_def normalizeCCIPSendRequested_def Let_def
        new_result_def pending_message_def)
  have n2: "Normalize 0 (Some (demo_state 2)) = Inr (correlation_result
      (zero_message\<lparr>msg_Status := StatusExecuted,
         msg_Destination := Some (event_destination (demo_state 2) [])\<rparr>)
      \<lparr>ck_Protocol = ''ccip'', ck_MessageID = ''0x01'', ck_Nonce = 0, ck_Sender = [], ck_SrcChainID = 0\<rparr>)"
    by (simp add: Normalize_simps demo_state_def demo_event_def normalizeCCIPExecutionStateChanged_def
        Let_def)
  have "delivered (executed_run s) (MessageID (res_Message r1)) StatusExecuted
      (msg_Source (res_Message r1)) (event_destination (demo_state 2) [])"
    by (rule deliver_by_id [OF r1(1) _ n2, where
          k = "\<lparr>ck_Protocol = ''ccip'', ck_MessageID = ''0x01'', ck_Nonce = 0, ck_Sender = [],
            ck_SrcChainID = 0\<rparr>"])
       (simp_all add: assms demo_send_def demo_state_def demo_event_def source_events_def status_defs
         destination_events_def correlation_result_def r1(2) [unfolded demo_send_def demo_event_def])
  then show ?thesis by (simp add: delivered_def r1(2))
qed

lemma demo_run_status: "pg_inv demo_run" "pg_status demo_run ''0x01'' = Some StatusExecuted"
proof -
  show "pg_inv demo_run" unfolding demo_run_def by (rule pgstore.Process_all_inv) simp
  show "pg_status demo_run ''0x01'' = Some StatusExecuted"
    unfolding demo_run_def by (rule executed_run_status) (simp_all add: empty_tables_def)
qed

theorem final_status_absorbing_witness:
  "pg_status (Process_all PostgresMessageStore [(7, demo_send), (8, demo_state 3)] demo_run) ''0x01'' =
     Some StatusExecuted"
  by (rule final_status_absorbing [OF demo_run_status]) (simp add: status_defs)

text \<open>
  The same run in a database that holds another message \<open>''m1''\<close>, still pending: the absent message
  ends with status and destination, and the pending one keeps the two in step.
\<close>

theorem run_settled_witness:
  "pg_status (executed_run demo_pg) ''0x01'' = Some StatusExecuted \<and>
   pg_dest (executed_run demo_pg) ''0x01'' \<noteq> None \<and>
   pg_status demo_pg ''m1'' = Some StatusPending \<and>
   (pg_dest (executed_run demo_pg) ''m1'' \<noteq> None \<longleftrightarrow>
    pg_status (executed_run demo_pg) ''m1'' \<in> {Some StatusExecuted, Some StatusFailed})"
proof -
  have inv: "pg_inv demo_pg" by (simp add: pg_inv_def)
  have none: "t_messages (pg_tables demo_pg) ''0x01'' = None"
    by (simp add: upsert_spec_def Let_def demo_message_def empty_tables_def)
  have m1: "pg_status demo_pg ''m1'' = Some StatusPending" "pg_dest demo_pg ''m1'' = None"
    by (simp_all add: pg_status_def pg_dest_def upsert_spec_def Let_def demo_message_def
        empty_tables_def upserted_message_def status_defs)
  have "pg_status (executed_run demo_pg) ''0x01'' = Some StatusExecuted"
    using executed_run_status [OF inv _ none] by simp
  moreover have "pg_dest (executed_run demo_pg) ''0x01'' \<noteq> None"
    using run_settled [OF inv, of "''0x01''" "[(0, demo_send), (0, demo_state 2)]"] none calculation
    by (simp add: Let_def pg_status_def del: Process_all.simps)
  moreover have "pg_dest (executed_run demo_pg) ''m1'' \<noteq> None \<longleftrightarrow>
      pg_status (executed_run demo_pg) ''m1'' \<in> {Some StatusExecuted, Some StatusFailed}"
    using run_settled [OF inv, of "''m1''" "[(0, demo_send), (0, demo_state 2)]"] m1
    by (simp add: Let_def status_defs del: Process_all.simps)
  ultimately show ?thesis using m1 by blast
qed

end
