(* ===== verification/Indexing.thy ===== *)
theory Indexing
  imports Processor Delivery
begin

text \<open>
  What the indexing loop does: its cursor and the stored one, the handling of reorganisations, and
  the messages it stores, compared with processing the events of the chain one after the other.
\<close>

section \<open>Message processing and the other tables\<close>

text \<open>A statement that neither reads nor writes cursors and block hashes.\<close>

definition core :: "tables \<Rightarrow> tables" where
  "core t = t\<lparr>t_cursors := Map.empty, t_block_hashes := Map.empty\<rparr>"

lemma core_simps [simp]:
  "t_ids (core t) = t_ids t" "t_messages (core t) = t_messages t" "t_sources (core t) = t_sources t"
  "t_destinations (core t) = t_destinations t" "t_payloads (core t) = t_payloads t"
  "t_metadata (core t) = t_metadata t"
  by (simp_all add: core_def)

lemma erase_core: "erase s = s\<lparr>pg_tables := core (pg_tables s)\<rparr>"
  by (simp add: erase_def core_def)

definition messages_only :: "stmt \<Rightarrow> bool" where
  "messages_only f \<longleftrightarrow> (\<forall>t. f (core t) = map_sum id core (f t) \<and>
     (\<forall>u. f t = Inr u \<longrightarrow> t_cursors u = t_cursors t \<and> t_block_hashes u = t_block_hashes t))"

lemma upsert_messages_only: "(c, f) \<in> set (upsert_stmts m) \<Longrightarrow> messages_only f"
  by (erule upsert_stmts_cases)
     (auto simp: messages_only_def upsert_row_defs Let_def core_def split: option.splits)

lemma destination_messages_only: "(c, f) \<in> set (destination_stmts mid d st now) \<Longrightarrow> messages_only f"
  by (erule destination_stmts_cases)
     (auto simp: messages_only_def destination_row_defs core_def split: option.splits)

lemma apply_stmts_core:
  assumes "\<And>c f. (c, f) \<in> set ss \<Longrightarrow> messages_only f"
  shows "apply_stmts ss (core t) = map_sum id core (apply_stmts ss t)"
  using assms
proof (induction ss arbitrary: t)
  case (Cons x ss)
  obtain c f where x: "x = (c, f)" by (cases x)
  have "messages_only f" using Cons.prems [of c f] x by simp
  then have "f (core t) = map_sum id core (f t)" by (simp add: messages_only_def)
  with Cons show ?case by (auto simp: x split: sum.splits)
qed simp

lemma in_tx_erase:
  assumes "\<And>c f. (c, f) \<in> set ss \<Longrightarrow> messages_only f" and "pg_faults s = []"
  shows "in_tx ss (erase s) = (case in_tx ss s of (s', r) \<Rightarrow> (erase s', r))"
  using apply_stmts_core [OF assms(1), where t = "pg_tables s"] assms(2)
  by (simp add: in_tx_fault_free erase_core split: sum.splits)

lemma in_tx_other_tables:
  assumes "\<And>c f. (c, f) \<in> set ss \<Longrightarrow> messages_only f" and "in_tx ss s = (s', r)"
  shows "t_cursors (pg_tables s') = t_cursors (pg_tables s) \<and>
     t_block_hashes (pg_tables s') = t_block_hashes (pg_tables s)"
  using _ _ assms(2)
proof (rule in_tx_invariant)
  fix c f t t'
  assume "(c, f) \<in> set ss" "t_cursors t = t_cursors (pg_tables s) \<and>
      t_block_hashes t = t_block_hashes (pg_tables s)" "f t = Inr t'"
  with assms(1) show "t_cursors t' = t_cursors (pg_tables s) \<and>
      t_block_hashes t' = t_block_hashes (pg_tables s)"
    by (metis messages_only_def)
qed simp

lemma find_erase:
  assumes "pg_faults s = []"
  shows "FindByCorrelationKey k (erase s) = (case FindByCorrelationKey k s of (s', r) \<Rightarrow> (erase s', r))"
proof -
  have "key_matches (core t) k = key_matches t k" "scan_message (core t) = scan_message t" for t
    by (auto simp: key_matches_def scan_message_def fun_eq_iff)
  then have "find_row pl k (core t) = find_row pl k t" for pl t by (simp add: find_row_def)
  with assms \<open>\<And>t. scan_message (core t) = scan_message t\<close> show ?thesis
    by (simp add: FindByCorrelationKey_def query_one_def tick_fault_free erase_core
        split: sum.splits option.splits)
qed

lemma Process_erase:
  assumes "pg_faults s = []"
  shows "Process PostgresMessageStore now ev (erase s) =
      (case Process PostgresMessageStore now ev s of (s', r) \<Rightarrow> (erase s', r))"
    and "pg_faults (fst (Process PostgresMessageStore now ev s)) = []"
proof -
  have up: "UpsertMessage m (erase s) = (case UpsertMessage m s of (s', r) \<Rightarrow> (erase s', r))" for m
    unfolding UpsertMessage_def using assms by (intro in_tx_erase upsert_messages_only)
  have de: "UpdateDestination mid d st (erase s) =
      (case UpdateDestination mid d st s of (s', r) \<Rightarrow> (erase s', r))" for mid d st
    unfolding UpdateDestination_def using assms
    by (simp add: in_tx_erase destination_messages_only)
  have fi: "fst (FindByCorrelationKey k s) = s" for k
    using FindByCorrelationKey_frame [of k s] assms
    by (cases "FindByCorrelationKey k s") (simp add: tick_fault_free)
  define q where "q k = snd (FindByCorrelationKey k s)" for k
  have q: "FindByCorrelationKey k (erase s) = (erase s, q k)" "FindByCorrelationKey k s = (s, q k)" for k
    using find_erase [OF assms, of k] fi [of k] by (cases "FindByCorrelationKey k s"; simp add: q_def)+
  show "Process PostgresMessageStore now ev (erase s) =
      (case Process PostgresMessageStore now ev s of (s', r) \<Rightarrow> (erase s', r))"
    by (simp add: Process_def correlate_def PostgresMessageStore_def q up de Let_def
        split: sum.split option.split prod.split)
  let ?R = "\<lambda>s s'. pg_faults s = [] \<longrightarrow> pg_faults s' = []"
  have "?R s (fst (Process PostgresMessageStore now ev s))"
  proof (rule Process_relation [where R = ?R])
    fix m s
    show "?R s (fst (ms_UpsertMessage PostgresMessageStore m s))"
      by (cases "UpsertMessage m s")
         (auto simp: PostgresMessageStore_def UpsertMessage_def dest!: in_tx_frame)
  next
    fix k s
    show "?R s (fst (ms_FindByCorrelationKey PostgresMessageStore k s))"
      using FindByCorrelationKey_frame [of k s]
      by (cases "FindByCorrelationKey k s") (simp add: PostgresMessageStore_def tick_fault_free)
  next
    fix mid d st s
    show "?R s (fst (ms_UpdateDestination PostgresMessageStore mid d st s))"
      by (cases "UpdateDestination mid d st s")
         (auto simp: PostgresMessageStore_def UpdateDestination_def dest!: in_tx_frame)
  qed simp_all
  with assms show "pg_faults (fst (Process PostgresMessageStore now ev s)) = []" by simp
qed

lemma Process_other_tables:
  "t_cursors (pg_tables (fst (Process PostgresMessageStore now ev s))) = t_cursors (pg_tables s)"
  "t_block_hashes (pg_tables (fst (Process PostgresMessageStore now ev s))) = t_block_hashes (pg_tables s)"
proof -
  let ?R = "\<lambda>s s'. t_cursors (pg_tables s') = t_cursors (pg_tables s) \<and>
     t_block_hashes (pg_tables s') = t_block_hashes (pg_tables s)"
  have "?R s (fst (Process PostgresMessageStore now ev s))"
  proof (rule Process_relation [where R = ?R])
    fix m s
    show "?R s (fst (ms_UpsertMessage PostgresMessageStore m s))"
      using in_tx_other_tables [OF upsert_messages_only, where s = s]
      by (cases "UpsertMessage m s") (simp add: PostgresMessageStore_def UpsertMessage_def)
  next
    fix k s
    show "?R s (fst (ms_FindByCorrelationKey PostgresMessageStore k s))"
      using FindByCorrelationKey_frame [of k s]
      by (cases "FindByCorrelationKey k s") (simp add: PostgresMessageStore_def)
  next
    fix mid d st s
    show "?R s (fst (ms_UpdateDestination PostgresMessageStore mid d st s))"
      using in_tx_other_tables [OF destination_messages_only, where s = s]
      by (cases "UpdateDestination mid d st s") (simp add: PostgresMessageStore_def UpdateDestination_def)
  qed simp_all
  then show "t_cursors (pg_tables (fst (Process PostgresMessageStore now ev s))) = t_cursors (pg_tables s)"
    "t_block_hashes (pg_tables (fst (Process PostgresMessageStore now ev s))) = t_block_hashes (pg_tables s)"
    by simp_all
qed


section \<open>The cursor\<close>

text \<open>
  The loop over any stores of one state: what it relies on of the cursor store and the block hash
  store, and that block hashes and message processing leave the cursors alone.
\<close>

locale loop_stores = cursor_store store cursor + hash_frame bh R
  for store :: "'s CursorStore" and cursor :: "'s \<Rightarrow> u64 \<times> string \<Rightarrow> u64 option"
    and bh :: "'s BlockHashStore" and R :: "'s \<Rightarrow> 's \<Rightarrow> bool" +
  fixes ms :: "'s MessageStore"
  assumes R_cursor: "R s s' \<Longrightarrow> cursor s' = cursor s"
    and process_cursor: "cursor (fst (Process ms now ev s)) = cursor s"
begin

definition env_ok :: "('w, 's) env \<Rightarrow> bool" where
  "env_ok e \<longleftrightarrow> ev_cursors e = store \<and> ev_blockHashes e \<in> {None, Some bh} \<and> ev_messages e = ms"

text \<open>The loop's cursor variable and the recorded cursor are the same.\<close>

definition synced :: "('w, 's) env \<Rightarrow> ('w, 's) proc \<Rightarrow> bool" where
  "synced e p \<longleftrightarrow> position (ev_chainID e) (ev_protocol e) (pc_store p) = pc_cursor p"

lemma F_cursor: "F p p' \<Longrightarrow> cursor (pc_store p') = cursor (pc_store p) \<and> pc_cursor p' = pc_cursor p"
  by (auto simp: F_def R_cursor)

lemma rewind_result:
  assumes "env_ok e" and "rewind e bh n p = (p', r)"
  shows "pc_cursor p' = pc_cursor p \<and> client_same (pc_client p) (pc_client p') \<and>
     (case r of Inl _ \<Rightarrow> cursor (pc_store p') = cursor (pc_store p)
      | Inr b \<Rightarrow> b \<and> (\<exists>m \<le> n - 1.
          cursor (pc_store p') = (cursor (pc_store p))((ev_chainID e, ev_protocol e) \<mapsto> m)))"
proof -
  obtain p1 m where w: "walk_back e bh (n - 1) p = (p1, m)" by (cases "walk_back e bh (n - 1) p")
  obtain p2 x where u: "on_store (cs_UpdateCursor store (ev_chainID e) (ev_protocol e) m) p1 = (p2, x)"
    by (cases "on_store (cs_UpdateCursor store (ev_chainID e) (ev_protocol e) m) p1")
  obtain p3 y where d: "on_store (bs_DeleteBlockHashesFrom bh (ev_chainID e) (m + 1)) p2 = (p3, y)"
    by (cases "on_store (bs_DeleteBlockHashesFrom bh (ev_chainID e) (m + 1)) p2")
  have F1: "F p p1" and m: "m \<le> n - 1" using walk_back_F [OF w] by simp_all
  have F3: "F p2 p3" using d by (rule F_store(4))
  note fr = on_store_frame [OF u] F_cursor [OF F1] F_cursor [OF F3]
  have u2: "cursor (pc_store p2) =
      (if x = None then (cursor (pc_store p))((ev_chainID e, ev_protocol e) \<mapsto> m) else cursor (pc_store p))"
    using fr update by metis
  have cl: "client_same (pc_client p) (pc_client p2)" "client_same (pc_client p) (pc_client p3)"
    using F1 F3 fr by (auto simp: F_def intro: client_same_trans)
  show ?thesis
    using assms w u d fr u2 m cl by (auto simp: rewind_def env_ok_def split: option.splits)
qed

lemma reorg_result:
  assumes "env_ok e" and "checkAndHandleReorg e n p = (p', r)"
  shows "pc_cursor p' = pc_cursor p \<and> client_same (pc_client p) (pc_client p') \<and>
     (if r = Inr True
      then \<exists>m \<le> n - 1. cursor (pc_store p') = (cursor (pc_store p))((ev_chainID e, ev_protocol e) \<mapsto> m)
      else cursor (pc_store p') = cursor (pc_store p))"
proof (cases "ev_blockHashes e = None \<or> n = 0")
  case True
  with assms(2) show ?thesis by (auto simp: checkAndHandleReorg_def split: option.splits)
next
  case False
  with assms(1) have bh: "ev_blockHashes e = Some bh" and n: "n \<noteq> 0" by (auto simp: env_ok_def)
  obtain p1 q where g: "on_store (bs_GetBlockHash bh (ev_chainID e) (n - 1)) p = (p1, q)"
    by (cases "on_store (bs_GetBlockHash bh (ev_chainID e) (n - 1)) p")
  obtain p2 h where hd: "on_client (BlockHeader (ev_rt e) n) p1 = (p2, h)"
    by (cases "on_client (BlockHeader (ev_rt e) n) p1")
  note F1 = F_store(1) [OF g]
  note F2 = F_trans [OF F1 F_header [OF hd]]
  have quiet: ?thesis if "p' \<in> {p1, p2}" "r \<noteq> Inr True"
    using that F_cursor [OF F1] F_cursor [OF F2] F1 F2 by (auto simp: F_def)
  show ?thesis
  proof (cases "p' \<in> {p1, p2} \<and> r \<noteq> Inr True")
    case True
    with quiet show ?thesis by blast
  next
    case False
    then have "rewind e bh n p2 = (p', r)"
      using assms(2) bh n g hd
      by (auto simp: checkAndHandleReorg_def split: sum.splits prod.splits if_splits)
    from rewind_result [OF assms(1) this] F_cursor [OF F2] F2 show ?thesis
      by (auto simp: F_def split: sum.splits intro: client_same_trans)
  qed
qed


lemma process_log_frame:
  assumes "env_ok e" and "process_log e l ts p = (ts', p')"
  shows "cursor (pc_store p') = cursor (pc_store p) \<and> pc_cursor p' = pc_cursor p \<and>
     client_same (pc_client p) (pc_client p')"
proof (cases "dDecode (ev_dec e) l (ev_chainID e)")
  case (Inl err)
  with assms show ?thesis by (simp add: process_log_def)
next
  case (Inr ev)
  let ?b = "re_BlockNumber ev"
  obtain p1 r where b: "on_client (BlockTimestamp (ev_rt e) ?b) p = (p1, r)"
    by (cases "on_client (BlockTimestamp (ev_rt e) ?b) p")
  have p1: "pc_store p1 = pc_store p" "pc_cursor p1 = pc_cursor p" "client_same (pc_client p) (pc_client p1)"
    using on_client_frame [OF b] by (auto intro: client_ops_same(3))
  have pr: "ms = ev_messages e" using assms(1) by (simp add: env_ok_def)
  show ?thesis
    using assms(2) Inr b p1 process_cursor [unfolded pr]
    by (auto simp: process_log_def on_store_def Let_def split: option.splits sum.splits prod.splits
        dest!: arg_cong [where f = fst])
qed

lemma process_logs_frame:
  assumes "env_ok e"
  shows "cursor (pc_store (process_logs e ls ts p)) = cursor (pc_store p) \<and>
     pc_cursor (process_logs e ls ts p) = pc_cursor p \<and>
     client_same (pc_client p) (pc_client (process_logs e ls ts p))"
proof (induction ls arbitrary: ts p)
  case (Cons l ls)
  obtain ts' p' where "process_log e l ts p = (ts', p')" by (cases "process_log e l ts p")
  with process_log_frame [OF assms this] Cons [of ts' p'] show ?case
    by (auto intro: client_same_trans)
qed simp

lemma advance_result:
  assumes "env_ok e" and "advance e n p = (p', Continue)"
  shows "cursor (pc_store p') = (cursor (pc_store p))((ev_chainID e, ev_protocol e) \<mapsto> n) \<and>
     pc_cursor p' = n \<and> pc_client p' = pc_client p"
proof -
  obtain p1 x where u: "on_store (cs_UpdateCursor store (ev_chainID e) (ev_protocol e) n)
      (p\<lparr>pc_cursor := n\<rparr>) = (p1, x)"
    by (cases "on_store (cs_UpdateCursor store (ev_chainID e) (ev_protocol e) n) (p\<lparr>pc_cursor := n\<rparr>)")
  with assms have "x = None" "p' = p1" by (auto simp: advance_def env_ok_def split: option.splits)
  with on_store_frame [OF u] update [of "ev_chainID e" "ev_protocol e" n "pc_store p" "pc_store p1" x]
  show ?thesis by simp
qed

lemma run_batch_result:
  assumes "env_ok e" and "run_batch e a b p = (p', Continue)"
  shows "client_same (pc_client p) (pc_client p') \<and>
     (cursor (pc_store p') = cursor (pc_store p) \<and> pc_cursor p' = pc_cursor p \<or>
      cursor (pc_store p') = (cursor (pc_store p))((ev_chainID e, ev_protocol e) \<mapsto> b) \<and> pc_cursor p' = b)"
proof (cases "length (dContractAddresses (ev_dec e) (ev_chainID e)) = 0")
  case True
  with assms(2) have "advance e b p = (p', Continue)" by (simp add: run_batch_def)
  with advance_result [OF assms(1) this] show ?thesis by simp
next
  case False
  let ?f = "FetchLogs (ev_rt e) a b (dContractAddresses (ev_dec e) (ev_chainID e))
      [dEventTopics (ev_dec e)] (pc_client p) (pc_world p)"
  from assms(2) False obtain c w r where f: "?f = Some ((c, w), r)"
    by (auto simp: run_batch_def split: option.splits)
  note c = FetchLogs_same [OF f]
  show ?thesis
  proof (cases r)
    case (Inl err)
    with assms(2) False f c show ?thesis by (auto simp: run_batch_def)
  next
    case (Inr logs)
    let ?p1 = "process_logs e logs Map.empty (p\<lparr>pc_client := c, pc_world := w\<rparr>)"
    have F: "F ?p1 (record_hashes e a b ?p1)"
      using assms(1) by (intro record_hashes_F) (simp add: env_ok_def)
    have adv: "advance e b (record_hashes e a b ?p1) = (p', Continue)"
      using assms(2) False f Inr by (simp add: run_batch_def Let_def)
    from advance_result [OF assms(1) adv] F_cursor [OF F] F c
      process_logs_frame [OF assms(1), of logs Map.empty "p\<lparr>pc_client := c, pc_world := w\<rparr>"]
    show ?thesis by (auto simp: F_def intro: client_same_trans)
  qed
qed


text \<open>
  One iteration: the cursor stays, is rewound, or moves to the end of the batch, which is bounded
  by the confirmed height; the recorded cursor follows, and no other cursor changes.
\<close>

lemma iterate_result:
  assumes ok: "env_ok e" and sync: "synced e p" and it: "iterate e p = (p', Continue)"
    and ne: "cl_endpoints (pc_client p) \<noteq> []"
  shows "synced e p' \<and> client_same (pc_client p) (pc_client p') \<and>
     (\<forall>k. k \<noteq> (ev_chainID e, ev_protocol e) \<longrightarrow> cursor (pc_store p') k = cursor (pc_store p) k) \<and>
     (pc_cursor p' \<le> pc_cursor p \<or>
      (\<exists>ec \<in> set (cl_endpoints (pc_client p)). \<exists>w w' head. ec_BlockNumber ec w = (w', Inr head) \<and>
         unat (pc_cursor p') \<le> unat head - unat (cl_confirmationDepth (pc_client p)) \<and>
         unat (pc_cursor p') \<le> unat (pc_cursor p) + unat (ev_batchSize e)))"
proof -
  obtain p1 q where l: "on_client (LatestConfirmedBlock (ev_rt e)) p = (p1, q)"
    by (cases "on_client (LatestConfirmedBlock (ev_rt e)) p")
  note f1 = on_client_frame [OF l]
  have c1: "client_same (pc_client p) (pc_client p1)" using f1 by (auto intro: client_ops_same(1))
  have stay: ?thesis if "cursor (pc_store p') = cursor (pc_store p)" "pc_cursor p' = pc_cursor p"
    "client_same (pc_client p) (pc_client p')"
    using that sync by (simp add: synced_def position_def)
  show ?thesis
  proof (cases "\<exists>b. q = Inr b \<and> pc_cursor p < b")
    case False
    with it l f1 c1 show ?thesis
      by (intro stay) (auto simp: iterate_def split: option.splits sum.splits if_splits)
  next
    case True
    then obtain b where b: "q = Inr b" "pc_cursor p < b" by blast
    let ?n = "pc_cursor p + 1" and ?to = "min_u64 (pc_cursor p + ev_batchSize e) b"
    have n: "?n - 1 = pc_cursor p" by simp
    obtain p2 r where r: "checkAndHandleReorg e ?n p1 = (p2, r)" by (cases "checkAndHandleReorg e ?n p1")
    note rr = reorg_result [OF ok r]
    have c2: "client_same (pc_client p) (pc_client p2)" using c1 rr client_same_trans by blast
    have it2: "iterate e p = (case r of Inl err \<Rightarrow> (sleep e p2, Continue)
        | Inr True \<Rightarrow>
            (case on_store (cs_LoadCursor (ev_cursors e) (ev_chainID e) (ev_protocol e)) p2 of
               (p, Inl err) \<Rightarrow> (p\<lparr>pc_cursor := 0\<rparr>, Return (Wrapf ''reloading cursor after reorg rewind'' err))
             | (p, Inr cursor) \<Rightarrow> (p\<lparr>pc_cursor := cursor\<rparr>, Continue))
        | Inr False \<Rightarrow> run_batch e ?n ?to p2)"
    proof -
      have e0: "rt_Err (ev_rt e) (pc_world p) = None"
        using it by (auto simp: iterate_def split: option.splits)
      have nb: "\<not> b \<le> pc_cursor p1" and pc1: "pc_cursor p1 = pc_cursor p" using b f1 by auto
      show ?thesis
        by (simp add: iterate_def l [unfolded b(1)] e0 nb [unfolded pc1] pc1 r Let_def)
    qed
    show ?thesis
    proof (cases r)
      case (Inl err)
      with it it2 rr f1 c2 show ?thesis by (intro stay) auto
    next
      case (Inr rewound)
      show ?thesis
      proof (cases rewound)
        case True
        then obtain m where m: "m \<le> pc_cursor p" and
          cu: "cursor (pc_store p2) = (cursor (pc_store p))((ev_chainID e, ev_protocol e) \<mapsto> m)"
          using rr Inr f1 n by auto
        obtain p3 x where ld: "on_store (cs_LoadCursor store (ev_chainID e) (ev_protocol e)) p2 = (p3, x)"
          by (cases "on_store (cs_LoadCursor store (ev_chainID e) (ev_protocol e)) p2")
        have st: "cs_LoadCursor store (ev_chainID e) (ev_protocol e) (pc_store p2) = (pc_store p3, x)"
          and cl: "pc_client p3 = pc_client p2"
          using on_store_frame [OF ld] by simp_all
        have x: "x = Inr m \<and> p' = p3\<lparr>pc_cursor := m\<rparr>"
          using it it2 Inr True ld ok load [OF st] cu
          by (auto simp: env_ok_def split: sum.splits)
        with load [OF st] cu m c2 cl show ?thesis by (auto simp: synced_def position_def)
      next
        case False
        with it it2 Inr have rb: "run_batch e ?n ?to p2 = (p', Continue)" by simp
        note res = run_batch_result [OF ok rb]
        have c3: "client_same (pc_client p) (pc_client p')" using res c2 client_same_trans by blast
        have head: "\<exists>ec \<in> set (cl_endpoints (pc_client p)). \<exists>w w' head. ec_BlockNumber ec w = (w', Inr head) \<and>
            unat b = unat head - unat (cl_confirmationDepth (pc_client p))"
          using LatestConfirmedBlock_Inr [OF _ ne] f1 b by metis
        have to: "unat ?to \<le> unat b" "unat ?to \<le> unat (pc_cursor p) + unat (ev_batchSize e)"
          using unat_word_ariths(1) [of "pc_cursor p" "ev_batchSize e"]
          by (auto simp: min_u64_def word_less_nat_alt intro: mod_less_eq_dividend order_trans)
        show ?thesis
          using res
        proof (elim conjE disjE)
          assume "cursor (pc_store p') = cursor (pc_store p2)" "pc_cursor p' = pc_cursor p2"
          with rr f1 c3 Inr False show ?thesis by (intro stay) auto
        next
          assume cu: "cursor (pc_store p') = (cursor (pc_store p2))((ev_chainID e, ev_protocol e) \<mapsto> ?to)"
            "pc_cursor p' = ?to"
          have cp: "cursor (pc_store p2) = cursor (pc_store p)" using rr f1 Inr False by simp
          from head to cu(2) have "\<exists>ec \<in> set (cl_endpoints (pc_client p)). \<exists>w w' head.
              ec_BlockNumber ec w = (w', Inr head) \<and>
              unat (pc_cursor p') \<le> unat head - unat (cl_confirmationDepth (pc_client p)) \<and>
              unat (pc_cursor p') \<le> unat (pc_cursor p) + unat (ev_batchSize e)"
            by metis
          with cu cp c3 show ?thesis by (simp add: synced_def position_def)
        qed
      qed
    qed
  qed
qed

lemma start_synced:
  assumes "env_ok e" and "start e c w s = Inr p"
  shows "synced e p \<and> pc_client p = c"
  using assms load_position
  by (auto simp: start_def env_ok_def synced_def split: prod.splits sum.splits if_splits)

lemma steps_synced:
  assumes "env_ok e" and "(step e)\<^sup>*\<^sup>* p p'" and "synced e p" and "cl_endpoints (pc_client p) \<noteq> []"
  shows "synced e p' \<and> client_same (pc_client p) (pc_client p') \<and>
     (\<forall>k. k \<noteq> (ev_chainID e, ev_protocol e) \<longrightarrow> cursor (pc_store p') k = cursor (pc_store p) k)"
  using assms(2)
proof (induction rule: rtranclp_induct)
  case base
  with assms(3) show ?case by simp
next
  case (step y z)
  then have "cl_endpoints (pc_client y) \<noteq> []"
    using assms(4) client_same_simps(4) [of "pc_client p" "pc_client y"] by auto
  with step iterate_result [OF assms(1), of y z] show ?case
    by (auto simp: step_iff intro: client_same_trans)
qed

end

interpretation pgloop: loop_stores PostgresCursorStore "\<lambda>s. t_cursors (pg_tables s)"
  PostgresBlockHashStore hash_only PostgresMessageStore
proof
  show "hash_only s s' \<Longrightarrow> t_cursors (pg_tables s') = t_cursors (pg_tables s)" for s s'
    by (simp add: hash_only_def)
  show "t_cursors (pg_tables (fst (Process PostgresMessageStore now ev s))) = t_cursors (pg_tables s)"
    for now ev s
    by (rule Process_other_tables)
qed

text \<open>The processor as \<open>NewIndexer\<close> wires it: the PostgreSQL stores.\<close>

definition pg_env :: "('w, pg) env \<Rightarrow> bool" where
  "pg_env e \<longleftrightarrow> ev_cursors e = PostgresCursorStore \<and>
     ev_blockHashes e \<in> {None, Some PostgresBlockHashStore} \<and> ev_messages e = PostgresMessageStore"

lemma pg_env_ok: "pg_env e \<Longrightarrow> pgloop.env_ok e"
  by (simp add: pg_env_def pgloop.env_ok_def)

definition recorded_cursor :: "('w, pg) env \<Rightarrow> pg \<Rightarrow> u64" where
  "recorded_cursor e s =
     (case t_cursors (pg_tables s) (ev_chainID e, ev_protocol e) of None \<Rightarrow> 0 | Some b \<Rightarrow> b)"

lemma synced_recorded: "pgloop.synced e p \<longleftrightarrow> recorded_cursor e (pc_store p) = pc_cursor p"
  by (simp add: pgloop.synced_def pgcursor.position_def recorded_cursor_def)

text \<open>
  C23: a restart resumes where the loop was. However many iterations have run, with whatever failing
  statements, requests and reorganisations on the way, the cursor recorded in the database is the
  loop's own cursor, and the loop has touched the cursor of no other chain or protocol.
\<close>

theorem cursor_synced:
  assumes "pg_env e" and "cl_endpoints c \<noteq> []"
    and "start e c w s = Inr p0" and "(step e)\<^sup>*\<^sup>* p0 p"
  shows "recorded_cursor e (pc_store p) = pc_cursor p \<and>
     (\<forall>k. k \<noteq> (ev_chainID e, ev_protocol e) \<longrightarrow>
        t_cursors (pg_tables (pc_store p)) k = t_cursors (pg_tables s) k)"
proof -
  note ok = pg_env_ok [OF assms(1)]
  note st = pgloop.start_synced [OF ok assms(3)]
  have "t_cursors (pg_tables (pc_store p0)) = t_cursors (pg_tables s)"
    using assms(1,3) pgcursor.load
    by (auto simp: start_def pg_env_def split: prod.splits sum.splits if_splits)
  with pgloop.steps_synced [OF ok assms(4)] st assms(2) show ?thesis
    by (simp add: synced_recorded)
qed

text \<open>
  C24: the loop never indexes an unconfirmed block. In every reachable state, an iteration that moves
  the cursor forward moves it to a block that some endpoint of the client reported to be at least
  the confirmation depth below its head, and by at most one batch.
\<close>

theorem never_past_confirmed:
  assumes "pg_env e" and "cl_endpoints c \<noteq> []"
    and "start e c w s = Inr p0" and "(step e)\<^sup>*\<^sup>* p0 p" and "step e p p'" and "pc_cursor p < pc_cursor p'"
  shows "\<exists>ec \<in> set (cl_endpoints c). \<exists>w w' head. ec_BlockNumber ec w = (w', Inr head) \<and>
     unat (pc_cursor p') \<le> unat head - unat (cl_confirmationDepth c) \<and>
     unat (pc_cursor p') \<le> unat (pc_cursor p) + unat (ev_batchSize e)"
proof -
  note ok = pg_env_ok [OF assms(1)]
  have ne: "cl_endpoints (pc_client p0) \<noteq> []" and c: "pc_client p0 = c"
    using pgloop.start_synced [OF ok assms(3)] assms(2) by simp_all
  note sy = pgloop.steps_synced [OF ok assms(4) _ ne]
  have sync: "pgloop.synced e p" and same: "client_same c (pc_client p)"
    using sy pgloop.start_synced [OF ok assms(3)] by simp_all
  have "cl_endpoints (pc_client p) \<noteq> []"
    using client_same_simps(4) [OF same] assms(2) by auto
  with pgloop.iterate_result [OF ok sync] assms(5,6) client_same_simps [OF same] show ?thesis
    by (auto simp: step_iff not_le)
qed

end
