(* ===== verification/Equivalence.thy ===== *)
theory Equivalence
  imports Indexing
begin

text \<open>
  The indexing loop on one chain that does not reorganise, over endpoints that may fail but do not
  lie: what it has stored at a cursor is what processing the chain's events up to the cursor
  stores, each once and in chain order; and it gets to the confirmed height.
\<close>

lemma succ_le_iff:
  fixes m :: u64
  assumes "m < k"
  shows "m + 1 \<le> x \<longleftrightarrow> m < x"
proof -
  have "unat m + 1 < 2 ^ 64" using assms unat_less_p2 [of k] by (simp add: word_less_nat_alt)
  then have "unat (m + 1) = unat m + 1" by (simp add: unat_word_ariths)
  then show ?thesis by (simp add: word_le_nat_alt word_less_nat_alt Suc_le_eq)
qed

section \<open>Endpoints of one chain\<close>

text \<open>The endpoint's answers are those of the chain with headers \<open>H\<close> and logs \<open>ls\<close>.\<close>

definition serves ::
    "(u64 \<Rightarrow> header) \<Rightarrow> (bytes list \<Rightarrow> bytes list list \<Rightarrow> eth_log \<Rightarrow> bool) \<Rightarrow> eth_log list \<Rightarrow> u64
      \<Rightarrow> 'w EthClient \<Rightarrow> bool" where
  "serves H match ls maxH ec \<longleftrightarrow> honest match ls ec \<and>
     (\<forall>n w w' h. ec_HeaderByNumber ec n w = (w', Inr h) \<longrightarrow> h = H n) \<and>
     (\<forall>w w' head. ec_BlockNumber ec w = (w', Inr head) \<longrightarrow> head \<le> maxH)"

definition linked :: "(u64 \<Rightarrow> header) \<Rightarrow> bool" where
  "linked H \<longleftrightarrow> (\<forall>n. n \<noteq> 0 \<longrightarrow> hd_ParentHash (H n) = hd_Hash (H (n - 1)))"

text \<open>
  The client's endpoints serve the chain, and heights stay clear of the end of the \<open>uint64\<close> range by
  one batch and one chunk.
\<close>

definition chain_ok ::
    "(u64 \<Rightarrow> header) \<Rightarrow> (bytes list \<Rightarrow> bytes list list \<Rightarrow> eth_log \<Rightarrow> bool) \<Rightarrow> eth_log list \<Rightarrow> u64
      \<Rightarrow> u64 \<Rightarrow> 'w Client \<Rightarrow> bool" where
  "chain_ok H match ls maxH batch c \<longleftrightarrow> linked H \<and> sorted (map log_BlockNumber ls) \<and>
     cl_endpoints c \<noteq> [] \<and> (\<forall>ec \<in> set (cl_endpoints c). serves H match ls maxH ec) \<and>
     cl_maxBlockRange c \<noteq> 0 \<and> unat maxH + unat (cl_maxBlockRange c) < 2 ^ 64 \<and>
     unat maxH + unat batch < 2 ^ 64"

lemma chain_ok_same: "client_same c c' \<Longrightarrow> chain_ok H match ls maxH batch c' = chain_ok H match ls maxH batch c"
  using client_same_simps [of c c'] by (auto simp: chain_ok_def)

lemma header_served:
  assumes "BlockHeader rt n c w = (s, Inr h)" and "chain_ok H match ls maxH batch c"
  shows "h = H n"
proof -
  obtain c' w' where "withRetry rt (limited rt (\<lambda>ec. ec_HeaderByNumber ec n)) c w = ((c', w'), Inr h)"
    using assms(1) by (auto simp: BlockHeader_def split: prod.splits sum.splits)
  from withRetry_limited_Inr [OF this] assms(2) show ?thesis
    by (fastforce simp: chain_ok_def serves_def)
qed

lemma on_header_served:
  "on_client (BlockHeader rt n) p = (p', Inr h) \<Longrightarrow> chain_ok H match ls maxH batch (pc_client p) \<Longrightarrow> h = H n"
  by (auto dest!: on_client_frame intro: header_served)

lemma latest_served:
  assumes "LatestConfirmedBlock rt c w = ((c', w'), Inr b)" and "chain_ok H match ls maxH batch c"
  shows "b \<le> maxH"
proof -
  from assms(2) have ne: "cl_endpoints c \<noteq> []" by (simp add: chain_ok_def)
  from LatestConfirmedBlock_Inr [OF assms(1) ne] obtain ec w0 head where
    "ec \<in> set (cl_endpoints c)" "ec_BlockNumber ec w0 = (w', Inr head)"
    and b: "unat b = unat head - unat (cl_confirmationDepth c)" by blast
  with assms(2) have "head \<le> maxH" unfolding chain_ok_def serves_def by blast
  with b show ?thesis by (simp add: word_le_nat_alt)
qed

section \<open>Recorded hashes\<close>

text \<open>No statement fails, and the recorded hashes of the chain are those of \<open>H\<close>.\<close>

definition hashes_of :: "(u64 \<Rightarrow> header) \<Rightarrow> u64 \<Rightarrow> pg \<Rightarrow> bool" where
  "hashes_of H cid s \<longleftrightarrow> pg_faults s = [] \<and> (\<forall>b h. pg_hash s cid b = Some h \<longrightarrow> fst h = hd_Hash (H b))"

lemma hashes_ofD: "hashes_of H cid s \<Longrightarrow> pg_hash s cid b = Some h \<Longrightarrow> fst h = hd_Hash (H b)"
  unfolding hashes_of_def by blast

lemma hash_only_faults: "hash_only s s' \<Longrightarrow> pg_faults s = [] \<Longrightarrow> pg_faults s' = [] \<and> erase s' = erase s"
  by (simp add: hash_only_def)

lemma get_hash_fault_free:
  assumes "pg_faults s = []" and "on_store (bs_GetBlockHash PostgresBlockHashStore i b) p = (p', q)"
    and "pc_store p = s"
  shows "p' = p \<and> q = Inr (case pg_hash s i b of None \<Rightarrow> ([], []) | Some h \<Rightarrow> h)"
  using assms
  by (auto simp: on_store_def PostgresBlockHashStore_def GetBlockHash_def query_one_def select_hash_def
      tick_fault_free pg_hash_def split: option.splits prod.splits)

lemma reorg_none:
  assumes "pg_env e" and "hashes_of H (ev_chainID e) (pc_store p)"
    and "chain_ok H match ls maxH batch (pc_client p)"
    and "checkAndHandleReorg e n p = (p', r)"
  shows "r \<noteq> Inr True \<and> pc_store p' = pc_store p \<and> pc_cursor p' = pc_cursor p \<and>
     client_same (pc_client p) (pc_client p')"
proof (cases "ev_blockHashes e = None \<or> n = 0")
  case True
  with assms(4) show ?thesis by (auto simp: checkAndHandleReorg_def split: option.splits)
next
  case False
  with assms(1) have bh: "ev_blockHashes e = Some PostgresBlockHashStore" and n: "n \<noteq> 0"
    by (auto simp: pg_env_def)
  obtain p1 q where g: "on_store (bs_GetBlockHash PostgresBlockHashStore (ev_chainID e) (n - 1)) p = (p1, q)"
    by (cases "on_store (bs_GetBlockHash PostgresBlockHashStore (ev_chainID e) (n - 1)) p")
  have ff: "pg_faults (pc_store p) = []" using assms(2) by (simp add: hashes_of_def)
  from get_hash_fault_free [OF ff g refl] have p1: "p1 = p" and
    q: "q = Inr (case pg_hash (pc_store p) (ev_chainID e) (n - 1) of None \<Rightarrow> ([], []) | Some h \<Rightarrow> h)"
    by simp_all
  obtain p2 h where hd: "on_client (BlockHeader (ev_rt e) n) p = (p2, h)"
    by (cases "on_client (BlockHeader (ev_rt e) n) p")
  have p2: "pc_store p2 = pc_store p" "pc_cursor p2 = pc_cursor p" "client_same (pc_client p) (pc_client p2)"
    using on_client_frame [OF hd] by (auto intro: client_ops_same(2))
  show ?thesis
  proof (cases "pg_hash (pc_store p) (ev_chainID e) (n - 1)")
    case None
    with assms(4) bh n g p1 q show ?thesis by (auto simp: checkAndHandleReorg_def)
  next
    case (Some st)
    have st: "fst st = hd_Hash (H (n - 1))" using assms(2) Some by (rule hashes_ofD)
    have par: "hd_ParentHash (H n) = hd_Hash (H (n - 1))"
      using assms(3) n by (simp add: chain_ok_def linked_def)
    show ?thesis
    proof (cases h)
      case (Inl err)
      with assms(4) bh n g p1 q Some hd p2 show ?thesis
        by (auto simp: checkAndHandleReorg_def split: prod.splits if_splits)
    next
      case (Inr hdr)
      with on_header_served [OF _ assms(3)] hd have "hdr = H n" by blast
      with assms(4) bh n g p1 q Some hd p2 Inr st par show ?thesis
        by (auto simp: checkAndHandleReorg_def split: prod.splits if_splits)
    qed
  qed
qed


lemma hashes_of_save:
  assumes "hashes_of H i s" and "bs_SaveBlockHash PostgresBlockHashStore r s = (s', x)"
    and "bhr_BlockHash r = hd_Hash (H (bhr_BlockNumber r))"
  shows "hashes_of H i s'"
proof -
  have "hash_only s s'"
    using assms(2) by (rule pgframe.R_save)
  then have ff: "pg_faults s' = []" using assms(1) by (simp add: hashes_of_def hash_only_def)
  moreover have "fst h = hd_Hash (H b)" if h: "pg_hash s' i b = Some h" for b h
  proof (cases "x = None \<and> i = bhr_ChainID r \<and> b = bhr_BlockNumber r")
    case True
    with h pghash.save [OF assms(2), of i b] have "h = (bhr_BlockHash r, bhr_ParentHash r)" by simp
    with True assms(3) show ?thesis by simp
  next
    case False
    with h pghash.save [OF assms(2), of i b] have "pg_hash s i b = Some h" by (auto split: if_splits)
    with assms(1) show ?thesis by (rule hashes_ofD)
  qed
  ultimately show ?thesis by (simp add: hashes_of_def)
qed

lemma hashes_of_prune:
  assumes "hashes_of H i s" and "bs_PruneBlockHashes PostgresBlockHashStore c n s = (s', x)"
  shows "hashes_of H i s'"
proof -
  have "hash_only s s'" using assms(2) by (rule pgframe.R_prune)
  then have "pg_faults s' = []" using assms(1) by (simp add: hashes_of_def hash_only_def)
  with assms(1) pghash.prune [OF assms(2), of i] show ?thesis
    by (auto simp: hashes_of_def split: if_splits)
qed

lemma store_hashes_of:
  assumes "hashes_of H i (pc_store p)" and "chain_ok H match ls maxH batch (pc_client p)"
    and "store_hashes e PostgresBlockHashStore seen bs p = (p', x)"
  shows "hashes_of H i (pc_store p')"
  using assms
proof (induction bs arbitrary: seen p)
  case (Cons b bs)
  show ?case
  proof (cases "b \<in> seen")
    case True
    with Cons show ?thesis by simp
  next
    case False
    obtain p1 h where hd: "on_client (BlockHeader (ev_rt e) b) p = (p1, h)"
      by (cases "on_client (BlockHeader (ev_rt e) b) p")
    have p1: "hashes_of H i (pc_store p1)" "chain_ok H match ls maxH batch (pc_client p1)"
      using on_client_frame [OF hd] Cons.prems(1,2) client_ops_same(2) chain_ok_same by (fastforce, metis)
    show ?thesis
    proof (cases h)
      case (Inl err)
      with Cons.prems(3) False hd p1 show ?thesis by simp
    next
      case (Inr hdr)
      let ?r = "\<lparr>bhr_ChainID = ev_chainID e, bhr_BlockNumber = b, bhr_BlockHash = hd_Hash hdr,
        bhr_ParentHash = hd_ParentHash hdr\<rparr>"
      obtain p2 y where sv: "on_store (bs_SaveBlockHash PostgresBlockHashStore ?r) p1 = (p2, y)"
        by (cases "on_store (bs_SaveBlockHash PostgresBlockHashStore ?r) p1")
      have H: "hdr = H b" using on_header_served [OF _ Cons.prems(2)] hd Inr by blast
      note fr = on_store_frame [OF sv]
      have p2: "hashes_of H i (pc_store p2)"
        by (rule hashes_of_save [OF p1(1)]) (use fr H in auto)
      have c2: "chain_ok H match ls maxH batch (pc_client p2)" using p1 fr by simp
      show ?thesis
      proof (cases y)
        case None
        with Cons.prems(3) False hd Inr sv have
          "store_hashes e PostgresBlockHashStore (insert b seen) bs p2 = (p', x)" by simp
        then show ?thesis by (rule Cons.IH [OF p2 c2])
      next
        case (Some err)
        with Cons.prems(3) False hd Inr sv p2 show ?thesis by simp
      qed
    qed
  qed
qed simp

lemma record_hashes_of:
  assumes "pg_env e" and "hashes_of H i (pc_store p)" and "chain_ok H match ls maxH batch (pc_client p)"
  shows "hashes_of H i (pc_store (record_hashes e a b p))"
proof (cases "ev_blockHashes e")
  case None
  with assms(2) show ?thesis by (simp add: record_hashes_def)
next
  case (Some bh)
  with assms(1) have bh: "ev_blockHashes e = Some PostgresBlockHashStore" by (simp add: pg_env_def)
  obtain p1 x where s: "storeBlockHashes e PostgresBlockHashStore a b p = (p1, x)"
    by (cases "storeBlockHashes e PostgresBlockHashStore a b p")
  have h1: "hashes_of H i (pc_store p1)"
    using s store_hashes_of [OF assms(2,3)] unfolding storeBlockHashes_def by blast
  obtain p2 y where pr: "on_store (bs_PruneBlockHashes PostgresBlockHashStore (ev_chainID e)
      (b - reorgPruneDepth)) p1 = (p2, y)"
    by (metis prod.exhaust_sel)
  then have "hashes_of H i (pc_store p2)"
    using on_store_frame [OF pr] hashes_of_prune [OF h1] by blast
  with h1 show ?thesis by (simp add: record_hashes_def bh s pr)
qed

section \<open>A batch of logs\<close>

definition decoded :: "decoder \<Rightarrow> u64 \<Rightarrow> eth_log list \<Rightarrow> raw_event list" where
  "decoded d cid ls = List.map_filter (\<lambda>l. case dDecode d l cid of Inl _ \<Rightarrow> None | Inr e \<Rightarrow> Some e) ls"

lemma decoded_simps [simp]:
  "decoded d cid [] = []"
  "decoded d cid (l # ls) = (case dDecode d l cid of Inl _ \<Rightarrow> [] | Inr e \<Rightarrow> [e]) @ decoded d cid ls"
  "decoded d cid (ks @ ls) = decoded d cid ks @ decoded d cid ls"
  by (auto simp: decoded_def List.map_filter_def split: sum.split)

text \<open>
  The processed events are the decoded ones, each with a time of processing and with the timestamp
  of its block, or 0 where that could not be fetched.
\<close>

definition stamped_event :: "(u64 \<Rightarrow> header) \<Rightarrow> raw_event \<Rightarrow> int \<times> raw_event \<Rightarrow> bool" where
  "stamped_event H ev x \<longleftrightarrow>
     (\<exists>t \<in> {0, sint (hd_Time (H (re_BlockNumber ev)))}. snd x = ev\<lparr>re_Timestamp := t\<rparr>)"

definition stamped :: "(u64 \<Rightarrow> header) \<Rightarrow> raw_event list \<Rightarrow> (int \<times> raw_event) list \<Rightarrow> bool" where
  "stamped H raws evs \<longleftrightarrow> list_all2 (stamped_event H) raws evs"

lemma stamped_append: "stamped H as xs \<Longrightarrow> stamped H bs ys \<Longrightarrow> stamped H (as @ bs) (xs @ ys)"
  by (auto simp: stamped_def intro: list_all2_appendI)

definition times_of :: "(u64 \<Rightarrow> header) \<Rightarrow> (u64 \<rightharpoonup> int) \<Rightarrow> bool" where
  "times_of H ts \<longleftrightarrow> (\<forall>b t. ts b = Some t \<longrightarrow> t = sint (hd_Time (H b)))"

lemma timestamp_served:
  assumes "on_client (BlockTimestamp rt n) p = (p', Inr t)" and "chain_ok H match ls maxH batch (pc_client p)"
  shows "t = sint (hd_Time (H n))"
proof -
  obtain s h where "BlockHeader rt n (pc_client p) (pc_world p) = (s, Inr h)" "t = sint (hd_Time h)"
    using on_client_frame [OF assms(1)]
    by (auto simp: BlockTimestamp_def split: prod.splits sum.splits)
  with header_served [OF _ assms(2)] show ?thesis by blast
qed

lemma process_log_event:
  assumes "chain_ok H match ls maxH batch (pc_client p)" and "times_of H ts"
    and "process_log e l ts p = (ts', p')"
  shows "times_of H ts' \<and> client_same (pc_client p) (pc_client p') \<and> pc_cursor p' = pc_cursor p \<and>
     (\<exists>evs. stamped H (decoded (ev_dec e) (ev_chainID e) [l]) evs \<and>
        pc_store p' = Process_all (ev_messages e) evs (pc_store p))"
proof (cases "dDecode (ev_dec e) l (ev_chainID e)")
  case (Inl err)
  with assms show ?thesis
    by (auto simp: process_log_def stamped_def intro: exI [of _ "[]"])
next
  case (Inr ev)
  let ?b = "re_BlockNumber ev"
  define r where "r = (case ts ?b of
      Some _ \<Rightarrow> (ts, p)
    | None \<Rightarrow>
        (case on_client (BlockTimestamp (ev_rt e) ?b) p of
           (p, Inl err) \<Rightarrow> (ts, p)
         | (p, Inr t) \<Rightarrow> (ts(?b \<mapsto> t), p)))"
  obtain ts1 p1 where r1: "r = (ts1, p1)" by (cases r)
  have A: "times_of H ts1 \<and> client_same (pc_client p) (pc_client p1) \<and>
      pc_store p1 = pc_store p \<and> pc_cursor p1 = pc_cursor p"
  proof (cases "ts ?b")
    case (Some t)
    with r1 assms(2) show ?thesis by (simp add: r_def)
  next
    case None
    obtain p2 q where b: "on_client (BlockTimestamp (ev_rt e) ?b) p = (p2, q)"
      by (cases "on_client (BlockTimestamp (ev_rt e) ?b) p")
    have "client_same (pc_client p) (pc_client p2)" "pc_store p2 = pc_store p" "pc_cursor p2 = pc_cursor p"
      using on_client_frame [OF b] by (auto intro: client_ops_same(3))
    moreover have "times_of H (ts(?b \<mapsto> t))" if "q = Inr t" for t
      using assms(2) timestamp_served [OF b [unfolded that] assms(1)] by (simp add: times_of_def)
    ultimately show ?thesis using r1 None b assms(2) by (cases q) (auto simp: r_def)
  qed
  let ?ev = "ev\<lparr>re_Timestamp := (case ts1 ?b of None \<Rightarrow> 0 | Some t \<Rightarrow> t)\<rparr>"
  let ?now = "rt_Now (ev_rt e) (pc_world p1)"
  obtain p3 x where pr: "on_store (Process (ev_messages e) ?now ?ev) p1 = (p3, x)"
    by (cases "on_store (Process (ev_messages e) ?now ?ev) p1")
  have run: "process_log e l ts p = (ts1, p3)"
    using Inr pr r1 by (simp add: process_log_def Let_def flip: r_def)
  have st: "stamped H [ev] [(?now, ?ev)]"
    using A by (auto simp: stamped_def stamped_event_def times_of_def split: option.splits)
  have "pc_store p3 = Process_all (ev_messages e) [(?now, ?ev)] (pc_store p)"
    using on_store_frame [OF pr] A by simp
  with st run assms(3) A on_store_frame [OF pr] Inr show ?thesis by auto
qed

lemma process_logs_events:
  assumes "chain_ok H match ls maxH batch (pc_client p)" and "times_of H ts"
  shows "client_same (pc_client p) (pc_client (process_logs e logs ts p)) \<and>
     pc_cursor (process_logs e logs ts p) = pc_cursor p \<and>
     (\<exists>evs. stamped H (decoded (ev_dec e) (ev_chainID e) logs) evs \<and>
        pc_store (process_logs e logs ts p) = Process_all (ev_messages e) evs (pc_store p))"
  using assms
proof (induction logs arbitrary: ts p)
  case Nil
  show ?case by (auto simp: stamped_def intro: exI [of _ "[]"])
next
  case (Cons l logs)
  obtain ts1 p1 where l: "process_log e l ts p = (ts1, p1)" by (cases "process_log e l ts p")
  from process_log_event [OF Cons.prems l] obtain es where
    one: "times_of H ts1" "client_same (pc_client p) (pc_client p1)" "pc_cursor p1 = pc_cursor p"
    "stamped H (decoded (ev_dec e) (ev_chainID e) [l]) es"
    "pc_store p1 = Process_all (ev_messages e) es (pc_store p)" by blast
  have "chain_ok H match ls maxH batch (pc_client p1)" using one(2) Cons.prems(1) chain_ok_same by blast
  from Cons.IH [OF this one(1)] obtain fs where
    rest: "client_same (pc_client p1) (pc_client (process_logs e logs ts1 p1))"
    "pc_cursor (process_logs e logs ts1 p1) = pc_cursor p1"
    "stamped H (decoded (ev_dec e) (ev_chainID e) logs) fs"
    "pc_store (process_logs e logs ts1 p1) = Process_all (ev_messages e) fs (pc_store p1)" by blast
  have "stamped H (decoded (ev_dec e) (ev_chainID e) (l # logs)) (es @ fs)"
    using stamped_append [OF one(4) rest(3)] by simp
  moreover have "pc_store (process_logs e (l # logs) ts p) = Process_all (ev_messages e) (es @ fs) (pc_store p)"
    using l rest(4) one(5) by (simp add: Process_all_append)
  ultimately show ?case
    using l one rest by (auto intro: client_same_trans)
qed


section \<open>Message processing on the message tables\<close>

lemma Process_all_erase:
  "pg_faults s = [] \<Longrightarrow> pg_faults (Process_all PostgresMessageStore evs s) = [] \<and>
     Process_all PostgresMessageStore evs (erase s) = erase (Process_all PostgresMessageStore evs s)"
proof (induction evs arbitrary: s)
  case (Cons x evs)
  obtain now ev where x: "x = (now, ev)" by (cases x)
  obtain s1 r where p: "Process PostgresMessageStore now ev s = (s1, r)"
    by (cases "Process PostgresMessageStore now ev s")
  with Process_erase [OF Cons.prems, of now ev] have
    "Process PostgresMessageStore now ev (erase s) = (erase s1, r)" "pg_faults s1 = []" by simp_all
  with Cons.IH [of s1] p show ?case by (simp add: x)
qed simp

lemma Process_all_erase_cong:
  assumes "pg_faults s = []" and "pg_faults t = []" and "erase s = erase t"
  shows "erase (Process_all PostgresMessageStore evs s) = erase (Process_all PostgresMessageStore evs t)"
  using Process_all_erase [OF assms(1), of evs] Process_all_erase [OF assms(2), of evs] assms(3) by simp

lemma Process_all_other_tables:
  "t_block_hashes (pg_tables (Process_all PostgresMessageStore evs s)) = t_block_hashes (pg_tables s)"
  "t_cursors (pg_tables (Process_all PostgresMessageStore evs s)) = t_cursors (pg_tables s)"
proof (induction evs arbitrary: s)
  case (Cons x evs)
  {
    case 1
    show ?case using Cons(1) by (cases x) (simp add: Process_other_tables(2))
  next
    case 2
    show ?case using Cons(2) by (cases x) (simp add: Process_other_tables(1))
  }
qed simp_all

lemma Process_all_hashes:
  assumes "hashes_of H i s"
  shows "hashes_of H i (Process_all PostgresMessageStore evs s)"
  using assms Process_all_erase [of s evs] Process_all_other_tables(1) [of evs s]
  by (simp add: hashes_of_def pg_hash_def)

lemma advance_fault_free:
  assumes "pg_env e" and "hashes_of H i (pc_store p)" and "advance e n p = (p', out)"
  shows "out = Continue \<and> hashes_of H i (pc_store p') \<and> erase (pc_store p') = erase (pc_store p) \<and>
     pc_cursor p' = n \<and> pc_client p' = pc_client p"
  using assms
  by (auto simp: advance_def pg_env_def on_store_def PostgresCursorStore_def UpdateCursor_def
      exec_one_fault_free hashes_of_def pg_hash_def erase_def)

section \<open>One iteration\<close>

text \<open>The events of the blocks after \<open>a\<close> up to \<open>b\<close>, in chain order.\<close>

definition chain_events ::
    "('w, 's) env \<Rightarrow> (bytes list \<Rightarrow> bytes list list \<Rightarrow> eth_log \<Rightarrow> bool) \<Rightarrow> eth_log list \<Rightarrow> u64 \<Rightarrow> u64
      \<Rightarrow> raw_event list" where
  "chain_events e match ls a b =
     (let addresses = dContractAddresses (ev_dec e) (ev_chainID e) in
      if addresses = [] then []
      else decoded (ev_dec e) (ev_chainID e)
        (filter (\<lambda>l. a < log_BlockNumber l \<and> log_BlockNumber l \<le> b \<and>
                     match addresses [dEventTopics (ev_dec e)] l) ls))"

lemma chain_events_empty [simp]: "chain_events e match ls a a = []"
proof -
  have "filter (\<lambda>l. a < log_BlockNumber l \<and> log_BlockNumber l \<le> a \<and> P l) ls = []" for P
    by (auto simp: filter_empty_conv)
  then show ?thesis by (simp add: chain_events_def Let_def)
qed

lemma filter_upto_sorted:
  assumes "sorted (map (f :: 'a \<Rightarrow> 'b :: linorder) xs)"
  shows "filter (\<lambda>x. f x \<le> m \<and> P x) xs @ filter (\<lambda>x. m < f x \<and> P x) xs = filter P xs"
  using assms
proof (induction xs)
  case (Cons x xs)
  show ?case
  proof (cases "f x \<le> m")
    case True
    with Cons show ?thesis by auto
  next
    case False
    with Cons.prems have "\<forall>y \<in> set xs. \<not> f y \<le> m" by auto
    then have "filter (\<lambda>y. f y \<le> m \<and> P y) xs = []" "filter (\<lambda>y. m < f y \<and> P y) xs = filter P xs"
      by (auto simp: filter_empty_conv intro!: filter_cong)
    with False show ?thesis by auto
  qed
qed simp

lemma filter_split_range:
  fixes f :: "'a \<Rightarrow> 'b :: linorder"
  assumes "sorted (map f xs)" and "a \<le> m" and "m \<le> b"
  shows "filter (\<lambda>x. a < f x \<and> f x \<le> m \<and> P x) xs @ filter (\<lambda>x. m < f x \<and> f x \<le> b \<and> P x) xs =
     filter (\<lambda>x. a < f x \<and> f x \<le> b \<and> P x) xs"
proof -
  have "(f x \<le> m \<and> a < f x \<and> f x \<le> b \<and> P x) = (a < f x \<and> f x \<le> m \<and> P x)"
    "(m < f x \<and> a < f x \<and> f x \<le> b \<and> P x) = (m < f x \<and> f x \<le> b \<and> P x)" for x
    using assms(2,3) by auto
  with filter_upto_sorted [OF assms(1), of m "\<lambda>x. a < f x \<and> f x \<le> b \<and> P x"] show ?thesis by simp
qed

lemma chain_events_append:
  assumes "sorted (map log_BlockNumber ls)" and "a \<le> m" and "m \<le> b"
  shows "chain_events e match ls a m @ chain_events e match ls m b = chain_events e match ls a b"
  unfolding chain_events_def Let_def filter_split_range [OF assms, symmetric] by simp

text \<open>A batch that is processed: everything a query of its range returns, and nothing else.\<close>

definition batch_done ::
    "(u64 \<Rightarrow> header) \<Rightarrow> raw_event list \<Rightarrow> ('w, pg) proc \<Rightarrow> ('w, pg) proc \<Rightarrow> bool" where
  "batch_done H raws p p' \<longleftrightarrow>
     (\<exists>evs. stamped H raws evs \<and>
        erase (pc_store p') = erase (Process_all PostgresMessageStore evs (pc_store p)))"

lemma batch_done_none: "erase (pc_store p') = erase (pc_store p) \<Longrightarrow> batch_done H [] p p'"
  by (auto simp: batch_done_def stamped_def intro: exI [of _ "[]"])

lemma run_batch_done:
  assumes env: "pg_env e" and hs: "hashes_of H (ev_chainID e) (pc_store p)"
    and ok: "chain_ok H match ls maxH batch (pc_client p)"
    and b: "b \<le> maxH" and c: "pc_cursor p < maxH"
    and run: "run_batch e (pc_cursor p + 1) b p = (p', out)"
  shows "out = Continue \<and> client_same (pc_client p) (pc_client p') \<and>
     hashes_of H (ev_chainID e) (pc_store p') \<and>
     (pc_store p' = pc_store p \<and> pc_cursor p' = pc_cursor p \<or>
      pc_cursor p' = b \<and> batch_done H (chain_events e match ls (pc_cursor p) b) p p')"
proof (cases "dContractAddresses (ev_dec e) (ev_chainID e) = []")
  case True
  with run have "advance e b p = (p', out)" by (simp add: run_batch_def)
  from advance_fault_free [OF env hs this] True batch_done_none show ?thesis
    by (auto simp: chain_events_def)
next
  case False
  let ?as = "dContractAddresses (ev_dec e) (ev_chainID e)" and ?ts = "[dEventTopics (ev_dec e)]"
  let ?a = "pc_cursor p + 1"
  have wrap: "unat b + unat (cl_maxBlockRange (pc_client p)) < 2 ^ 64"
    using ok b by (auto simp: chain_ok_def word_le_nat_alt)
  have "\<exists>s r. FetchLogs (ev_rt e) ?a b ?as ?ts (pc_client p) (pc_world p) = Some (s, r) \<and>
     (case r of Inl _ \<Rightarrow> True | Inr logs \<Rightarrow> logs = filter (in_range ?a b (match ?as ?ts)) ls)"
    by (rule FetchLogs_complete [OF _ _ _ _ wrap]) (use ok in \<open>auto simp: chain_ok_def serves_def\<close>)
  then obtain cl w r where f: "FetchLogs (ev_rt e) ?a b ?as ?ts (pc_client p) (pc_world p) = Some ((cl, w), r)"
    and logs: "case r of Inl _ \<Rightarrow> True | Inr logs \<Rightarrow> logs = filter (in_range ?a b (match ?as ?ts)) ls"
    by auto
  note same = FetchLogs_same [OF f]
  show ?thesis
  proof (cases r)
    case (Inl err)
    with run False f same hs show ?thesis by (auto simp: run_batch_def)
  next
    case (Inr ll)
    let ?p0 = "p\<lparr>pc_client := cl, pc_world := w\<rparr>"
    let ?p1 = "process_logs e ll Map.empty ?p0"
    let ?p2 = "record_hashes e ?a b ?p1"
    have ok0: "chain_ok H match ls maxH batch (pc_client ?p0)" using ok chain_ok_same [OF same] by simp
    have "times_of H Map.empty" by (simp add: times_of_def)
    from process_logs_events [OF ok0 this, of e ll] env obtain evs where
      p1: "client_same cl (pc_client ?p1)" "pc_cursor ?p1 = pc_cursor p"
      "stamped H (decoded (ev_dec e) (ev_chainID e) ll) evs"
      "pc_store ?p1 = Process_all PostgresMessageStore evs (pc_store p)"
      by (auto simp: pg_env_def)
    have h1: "hashes_of H (ev_chainID e) (pc_store ?p1)" unfolding p1(4) by (rule Process_all_hashes [OF hs])
    have ok1: "chain_ok H match ls maxH batch (pc_client ?p1)" using ok0 chain_ok_same [OF p1(1)] by simp
    note h2 = record_hashes_of [OF env h1 ok1, of ?a b]
    have F: "pgframe.F ?p1 ?p2" using env by (intro pgframe.record_hashes_F) (simp add: pg_env_def)
    then have e2: "erase (pc_store ?p2) = erase (pc_store ?p1)" "client_same (pc_client ?p1) (pc_client ?p2)"
      using h1 by (auto simp: pgframe.F_def hash_only_def hashes_of_def)
    have adv: "advance e b ?p2 = (p', out)" using run False f Inr by (simp add: run_batch_def Let_def)
    note ad = advance_fault_free [OF env h2 adv]
    have "chain_events e match ls (pc_cursor p) b = decoded (ev_dec e) (ev_chainID e) ll"
    proof -
      note succ_le_iff [OF c]
      then have "in_range ?a b P = (\<lambda>l. pc_cursor p < log_BlockNumber l \<and> log_BlockNumber l \<le> b \<and> P l)" for P
        by (auto simp: in_range_def fun_eq_iff)
      with logs Inr False show ?thesis by (simp add: chain_events_def)
    qed
    with p1(3,4) e2(1) ad have "batch_done H (chain_events e match ls (pc_cursor p) b) p p'"
      by (auto simp: batch_done_def)
    with ad e2(2) p1(1) same show ?thesis by (auto intro: client_same_trans)
  qed
qed


text \<open>
  What an iteration of an undisturbed loop is: nothing stored and the cursor where it was, or the
  batch up to the new cursor.
\<close>

definition iteration_done ::
    "(u64 \<Rightarrow> header) \<Rightarrow> (bytes list \<Rightarrow> bytes list list \<Rightarrow> eth_log \<Rightarrow> bool) \<Rightarrow> eth_log list
      \<Rightarrow> ('w, pg) env \<Rightarrow> ('w, pg) proc \<Rightarrow> ('w, pg) proc \<Rightarrow> bool" where
  "iteration_done H match ls e p p' \<longleftrightarrow> client_same (pc_client p) (pc_client p') \<and>
     hashes_of H (ev_chainID e) (pc_store p') \<and> pc_cursor p \<le> pc_cursor p' \<and>
     batch_done H (chain_events e match ls (pc_cursor p) (pc_cursor p')) p p'"

lemma iteration_idle:
  assumes "hashes_of H (ev_chainID e) (pc_store p)" and "client_same (pc_client p) (pc_client p')"
    and "pc_store p' = pc_store p" and "pc_cursor p' = pc_cursor p"
  shows "iteration_done H match ls e p p'"
  using assms batch_done_none [of p' p H] by (simp add: iteration_done_def)

lemma to_block:
  fixes c batch b :: u64
  assumes "c < b" and "b \<le> maxH" and "unat maxH + unat batch < 2 ^ 64"
  shows "c \<le> min_u64 (c + batch) b" "min_u64 (c + batch) b \<le> b"
    "unat (min_u64 (c + batch) b) = min (unat c + unat batch) (unat b)"
proof -
  have "unat c + unat batch < 2 ^ 64" using assms by (simp add: word_le_nat_alt word_less_nat_alt)
  then have "unat (c + batch) = unat c + unat batch" by (simp add: unat_word_ariths)
  with assms show "c \<le> min_u64 (c + batch) b" "min_u64 (c + batch) b \<le> b"
    "unat (min_u64 (c + batch) b) = min (unat c + unat batch) (unat b)"
    by (auto simp: min_u64_def word_le_nat_alt word_less_nat_alt)
qed

lemma iterate_batch:
  assumes "rt_Err (ev_rt e) (pc_world p) = None"
    and "on_client (LatestConfirmedBlock (ev_rt e)) p = (p1, Inr b)" and "pc_cursor p < b"
    and "checkAndHandleReorg e (pc_cursor p + 1) p1 = (p2, r)"
  shows "r = Inr False \<Longrightarrow>
      iterate e p = run_batch e (pc_cursor p + 1) (min_u64 (pc_cursor p + ev_batchSize e) b) p2"
    and "r = Inl err \<Longrightarrow> iterate e p = (sleep e p2, Continue)"
proof -
  have "\<not> b \<le> pc_cursor p" "pc_cursor p1 = pc_cursor p"
    using assms(3) on_client_frame [OF assms(2)] by auto
  with assms(1,2,4) show "r = Inr False \<Longrightarrow>
      iterate e p = run_batch e (pc_cursor p + 1) (min_u64 (pc_cursor p + ev_batchSize e) b) p2"
    "r = Inl err \<Longrightarrow> iterate e p = (sleep e p2, Continue)"
    by (simp_all add: iterate_def Let_def)
qed

lemma iterate_done:
  assumes env: "pg_env e" and hs: "hashes_of H (ev_chainID e) (pc_store p)"
    and ok: "chain_ok H match ls maxH (ev_batchSize e) (pc_client p)"
    and it: "iterate e p = (p', Continue)"
  shows "iteration_done H match ls e p p'"
proof -
  have e0: "rt_Err (ev_rt e) (pc_world p) = None"
    using it by (auto simp: iterate_def split: option.splits)
  obtain p1 q where l: "on_client (LatestConfirmedBlock (ev_rt e)) p = (p1, q)"
    by (cases "on_client (LatestConfirmedBlock (ev_rt e)) p")
  note f1 = on_client_frame [OF l]
  have c1: "client_same (pc_client p) (pc_client p1)" using f1 by (auto intro: client_ops_same(1))
  show ?thesis
  proof (cases "\<exists>b. q = Inr b \<and> pc_cursor p < b")
    case False
    with it l f1 c1 e0 have "p' = sleep e p1"
      by (auto simp: iterate_def split: sum.splits if_splits)
    with f1 c1 hs show ?thesis by (intro iteration_idle) simp_all
  next
    case True
    then obtain b where b: "q = Inr b" "pc_cursor p < b" by blast
    let ?n = "pc_cursor p + 1" and ?to = "min_u64 (pc_cursor p + ev_batchSize e) b"
    obtain p2 r where r: "checkAndHandleReorg e ?n p1 = (p2, r)" by (cases "checkAndHandleReorg e ?n p1")
    have hs1: "hashes_of H (ev_chainID e) (pc_store p1)"
      and ok1: "chain_ok H match ls maxH (ev_batchSize e) (pc_client p1)"
      using hs ok f1 chain_ok_same [OF c1] by simp_all
    note rn = reorg_none [OF env hs1 ok1 r]
    have c2: "client_same (pc_client p) (pc_client p2)" using c1 rn client_same_trans by blast
    show ?thesis
    proof (cases r)
      case (Inl err)
      with iterate_batch(2) [OF e0 l [unfolded b(1)] b(2) r] it have "p' = sleep e p2" by simp
      with f1 c2 hs rn show ?thesis by (intro iteration_idle) simp_all
    next
      case (Inr x)
      with rn have "r = Inr False" by (cases x) auto
      with iterate_batch(1) [OF e0 l [unfolded b(1)] b(2) r] it have
        rb: "run_batch e (pc_cursor p2 + 1) ?to p2 = (p', Continue)" using rn f1 by simp
      have bm: "b \<le> maxH" using latest_served [OF _ ok] f1 b(1) by blast
      note tb = to_block [OF b(2) bm, of "ev_batchSize e"]
      have mx: "unat maxH + unat (ev_batchSize e) < 2 ^ 64" using ok by (simp add: chain_ok_def)
      have hs2: "hashes_of H (ev_chainID e) (pc_store p2)"
        and ok2: "chain_ok H match ls maxH (ev_batchSize e) (pc_client p2)"
        using hs1 ok1 rn chain_ok_same [of "pc_client p1" "pc_client p2"] by simp_all
      have "?to \<le> maxH" "pc_cursor p2 < maxH" using tb(2) [OF mx] bm b(2) rn f1 by auto
      note rd = run_batch_done [OF env hs2 ok2 this rb]
      have st: "pc_store p2 = pc_store p" "pc_cursor p2 = pc_cursor p" using rn f1 by simp_all
      have c3: "client_same (pc_client p) (pc_client p')" using rd c2 client_same_trans by blast
      from rd show ?thesis
      proof (elim conjE disjE)
        assume "pc_store p' = pc_store p2" "pc_cursor p' = pc_cursor p2"
        with st hs c3 show ?thesis by (intro iteration_idle) simp_all
      next
        assume "hashes_of H (ev_chainID e) (pc_store p')" "pc_cursor p' = ?to"
          "batch_done H (chain_events e match ls (pc_cursor p2) ?to) p2 p'"
        with st c3 tb(1) [OF mx] show ?thesis by (simp add: iteration_done_def batch_done_def)
      qed
    qed
  qed
qed

section \<open>Every block once and in order\<close>

lemma steps_done:
  assumes env: "pg_env e" and hs: "hashes_of H (ev_chainID e) (pc_store p)"
    and ok: "chain_ok H match ls maxH (ev_batchSize e) (pc_client p)" and run: "(step e)\<^sup>*\<^sup>* p p'"
  shows "iteration_done H match ls e p p'"
  using run
proof (induction rule: rtranclp_induct)
  case base
  show ?case using hs by (rule iteration_idle) simp_all
next
  case (step y z)
  from step.IH obtain evs where y: "client_same (pc_client p) (pc_client y)"
    "hashes_of H (ev_chainID e) (pc_store y)" "pc_cursor p \<le> pc_cursor y"
    "stamped H (chain_events e match ls (pc_cursor p) (pc_cursor y)) evs"
    "erase (pc_store y) = erase (Process_all PostgresMessageStore evs (pc_store p))"
    by (auto simp: iteration_done_def batch_done_def)
  have "iterate e y = (z, Continue)" using step.hyps(2) by (simp add: step_iff)
  moreover have "chain_ok H match ls maxH (ev_batchSize e) (pc_client y)"
    using ok chain_ok_same [OF y(1)] by simp
  ultimately have "iteration_done H match ls e y z" by (intro iterate_done [OF env y(2)])
  then obtain fs where z: "client_same (pc_client y) (pc_client z)"
    "hashes_of H (ev_chainID e) (pc_store z)" "pc_cursor y \<le> pc_cursor z"
    "stamped H (chain_events e match ls (pc_cursor y) (pc_cursor z)) fs"
    "erase (pc_store z) = erase (Process_all PostgresMessageStore fs (pc_store y))"
    by (auto simp: iteration_done_def batch_done_def)
  have so: "sorted (map log_BlockNumber ls)" using ok by (simp add: chain_ok_def)
  have "stamped H (chain_events e match ls (pc_cursor p) (pc_cursor z)) (evs @ fs)"
    using stamped_append [OF y(4) z(4)] by (simp add: chain_events_append [OF so y(3) z(3)])
  moreover have "erase (pc_store z) = erase (Process_all PostgresMessageStore (evs @ fs) (pc_store p))"
  proof -
    have "pg_faults (pc_store y) = []" "pg_faults (pc_store p) = []"
      using y(2) hs by (simp_all add: hashes_of_def)
    from Process_all_erase_cong [OF this(1) _ y(5)] Process_all_erase [OF this(2)] z(5)
    show ?thesis by (simp add: Process_all_append)
  qed
  ultimately show ?case
    using y(1,3) z(1,2,3) by (auto simp: iteration_done_def batch_done_def intro: client_same_trans)
qed

lemma start_state:
  assumes "pg_env e" and "pg_faults s = []" and "start e c w s = Inr p"
  shows "pc_store p = s \<and> pc_client p = c \<and> pc_cursor p = recorded_cursor e s"
  using assms
  by (auto simp: start_def pg_env_def PostgresCursorStore_def LoadCursor_def query_one_def tick_fault_free
      select_cursor_def recorded_cursor_def split: option.splits if_splits prod.splits sum.splits)

text \<open>
  C18: the index is the chain, block by block. Over endpoints that may fail in any way but answer from
  one chain, after any number of iterations the message tables are what the correlator makes of
  exactly the decodable events of the blocks after the initial cursor up to the current one, each
  once and in chain order, stamped with their block's time or, where the header could not be
  fetched, with 0. Batches, chunks, retries, failovers and recorded hashes leave no trace.
\<close>

theorem index_equiv:
  assumes "pg_env e" and "chain_ok H match ls maxH (ev_batchSize e) c"
    and "hashes_of H (ev_chainID e) s"
    and "start e c w s = Inr p0" and "(step e)\<^sup>*\<^sup>* p0 p"
  shows "recorded_cursor e s \<le> pc_cursor p \<and>
     (\<exists>evs. stamped H (chain_events e match ls (recorded_cursor e s) (pc_cursor p)) evs \<and>
        erase (pc_store p) = erase (Process_all PostgresMessageStore evs s))"
proof -
  have "pg_faults s = []" using assms(3) by (simp add: hashes_of_def)
  note st = start_state [OF assms(1) this assms(4)]
  from steps_done [OF assms(1) _ _ assms(5), of H match ls maxH] st assms(2,3) show ?thesis
    by (simp add: iteration_done_def batch_done_def)
qed


section \<open>Progress\<close>

text \<open>
  At most as many endpoints as attempts, one of which answers everything; nothing cancels the
  context.
\<close>

definition responsive :: "'w runtime \<Rightarrow> 'w Client \<Rightarrow> bool" where
  "responsive rt c \<longleftrightarrow> calm rt \<and> length (cl_endpoints c) \<le> maxRetries \<and>
     (\<exists>ec \<in> set (cl_endpoints c). reliable ec)"

lemma responsive_same: "client_same c c' \<Longrightarrow> responsive rt c' = responsive rt c"
  using client_same_simps [of c c'] by (simp add: responsive_def)

lemma responsive_answers:
  assumes "responsive rt c"
  shows "\<exists>s b. LatestConfirmedBlock rt c w = (s, Inr b)" and "\<exists>s h. BlockHeader rt n c w = (s, Inr h)"
proof -
  from assms have r: "calm rt" "length (cl_endpoints c) \<le> maxRetries"
    and "\<exists>ec \<in> set (cl_endpoints c). answers ec_BlockNumber ec"
    "\<exists>ec \<in> set (cl_endpoints c). answers (\<lambda>ec. ec_HeaderByNumber ec n) ec"
    by (auto simp: responsive_def reliable_def)
  then obtain k w1 h k' w2 hd where
    "withRetry rt (limited rt ec_BlockNumber) c w = ((rotated k c, w1), Inr h)"
    "withRetry rt (limited rt (\<lambda>ec. ec_HeaderByNumber ec n)) c w = ((rotated k' c, w2), Inr hd)"
    using withRetry_answered [OF r] by metis
  then show "\<exists>s b. LatestConfirmedBlock rt c w = (s, Inr b)" "\<exists>s h. BlockHeader rt n c w = (s, Inr h)"
    by (simp_all add: LatestConfirmedBlock_def BlockHeader_def)
qed

lemma reorg_continuous:
  assumes env: "pg_env e" and hs: "hashes_of H (ev_chainID e) (pc_store p)"
    and ok: "chain_ok H match ls maxH batch (pc_client p)" and re: "responsive (ev_rt e) (pc_client p)"
  shows "\<exists>p'. checkAndHandleReorg e n p = (p', Inr False)"
proof -
  obtain p' r where c: "checkAndHandleReorg e n p = (p', r)" by (cases "checkAndHandleReorg e n p")
  note rn = reorg_none [OF env hs ok c]
  have ff: "pg_faults (pc_store p) = []" using hs by (simp add: hashes_of_def)
  have "r \<noteq> Inl err" for err
  proof (cases "ev_blockHashes e = None \<or> n = 0")
    case True
    with c show ?thesis by (auto simp: checkAndHandleReorg_def split: option.splits)
  next
    case False
    with env have bh: "ev_blockHashes e = Some PostgresBlockHashStore" "n \<noteq> 0" by (auto simp: pg_env_def)
    obtain p1 q where g: "on_store (bs_GetBlockHash PostgresBlockHashStore (ev_chainID e) (n - 1)) p = (p1, q)"
      by (cases "on_store (bs_GetBlockHash PostgresBlockHashStore (ev_chainID e) (n - 1)) p")
    note p1 = get_hash_fault_free [OF ff g refl]
    obtain p2 h where hd: "on_client (BlockHeader (ev_rt e) n) p = (p2, h)"
      by (cases "on_client (BlockHeader (ev_rt e) n) p")
    have "\<exists>x. h = Inr x"
      using on_client_frame [OF hd] responsive_answers(2) [OF re, of n "pc_world p"] by auto
    then obtain hdr where h: "h = Inr hdr" by blast
    have par: "hd_ParentHash hdr = hd_Hash (H (n - 1))"
      using on_header_served [OF hd [unfolded h] ok] ok bh(2) by (simp add: chain_ok_def linked_def)
    show ?thesis
    proof (cases "pg_hash (pc_store p) (ev_chainID e) (n - 1)")
      case None
      with c bh g p1 show ?thesis by (auto simp: checkAndHandleReorg_def)
    next
      case (Some st)
      have "fst st = hd_ParentHash hdr" using hashes_ofD [OF hs Some] par by simp
      with Some c bh g p1 hd h show ?thesis
        by (cases st) (auto simp: checkAndHandleReorg_def split: if_splits)
    qed
  qed
  with rn c show ?thesis by (cases r) auto
qed

lemma run_batch_moves:
  assumes env: "pg_env e" and hs: "hashes_of H (ev_chainID e) (pc_store p)"
    and ok: "chain_ok H match ls maxH batch (pc_client p)" and re: "responsive (ev_rt e) (pc_client p)"
    and b: "b \<le> maxH" "a \<le> b" and run: "run_batch e a b p = (p', out)"
  shows "out = Continue \<and> pc_cursor p' = b"
proof (cases "dContractAddresses (ev_dec e) (ev_chainID e) = []")
  case True
  with run have "advance e b p = (p', out)" by (simp add: run_batch_def)
  from advance_fault_free [OF env hs this] show ?thesis by simp
next
  case False
  let ?as = "dContractAddresses (ev_dec e) (ev_chainID e)" and ?ts = "[dEventTopics (ev_dec e)]"
  have wrap: "unat b + unat (cl_maxBlockRange (pc_client p)) < 2 ^ 64" "cl_maxBlockRange (pc_client p) \<noteq> 0"
    using ok b by (auto simp: chain_ok_def word_le_nat_alt)
  from fetch_loop_answered [OF _ _ _ wrap(2,1), of "ev_rt e" ?as ?ts a "[]" "pc_world p"] re b(2)
  obtain k w logs where f: "FetchLogs (ev_rt e) a b ?as ?ts (pc_client p) (pc_world p) =
      Some ((rotated k (pc_client p), w), Inr logs)"
    using leD [OF b(2)] by (auto simp: FetchLogs_def responsive_def)
  let ?p0 = "p\<lparr>pc_client := rotated k (pc_client p), pc_world := w\<rparr>"
  let ?p1 = "process_logs e logs Map.empty ?p0"
  have "client_same (pc_client p) (rotated k (pc_client p))" by (auto simp: client_same_def)
  from chain_ok_same [OF this] ok have ok0: "chain_ok H match ls maxH batch (pc_client ?p0)" by simp
  have "times_of H Map.empty" by (simp add: times_of_def)
  note pl = process_logs_events [OF ok0 this, of e logs]
  have h1: "hashes_of H (ev_chainID e) (pc_store ?p1)"
    using pl env Process_all_hashes [OF hs] by (auto simp: pg_env_def)
  have ok1: "chain_ok H match ls maxH batch (pc_client ?p1)"
    using ok0 pl chain_ok_same by blast
  have "advance e b (record_hashes e a b ?p1) = (p', out)"
    using run False f by (simp add: run_batch_def Let_def)
  from advance_fault_free [OF env record_hashes_of [OF env h1 ok1] this] show ?thesis by simp
qed

lemma iterate_moves:
  assumes env: "pg_env e" and hs: "hashes_of H (ev_chainID e) (pc_store p)"
    and ok: "chain_ok H match ls maxH (ev_batchSize e) (pc_client p)"
    and re: "responsive (ev_rt e) (pc_client p)" and batch: "ev_batchSize e \<noteq> 0"
    and heads: "\<forall>ec \<in> set (cl_endpoints (pc_client p)). \<forall>w w' x. ec_BlockNumber ec w = (w', Inr x) \<longrightarrow> h \<le> x"
  shows "\<exists>p'. iterate e p = (p', Continue) \<and>
     min (unat (pc_cursor p) + unat (ev_batchSize e))
         (max (unat h - unat (cl_confirmationDepth (pc_client p))) (unat (pc_cursor p))) \<le> unat (pc_cursor p')"
proof -
  have e0: "rt_Err (ev_rt e) (pc_world p) = None" using re by (simp add: responsive_def calm_def)
  obtain p1 b where l: "on_client (LatestConfirmedBlock (ev_rt e)) p = (p1, Inr b)"
    using responsive_answers(1) [OF re, of "pc_world p"]
    by (auto simp: on_client_def split: prod.splits)
  note f1 = on_client_frame [OF l]
  have ne: "cl_endpoints (pc_client p) \<noteq> []" using ok by (simp add: chain_ok_def)
  obtain ec w0 x where ec: "ec \<in> set (cl_endpoints (pc_client p))" "ec_BlockNumber ec w0 = (pc_world p1, Inr x)"
    and b: "unat b = unat x - unat (cl_confirmationDepth (pc_client p))"
    using LatestConfirmedBlock_Inr [OF _ ne] f1 by blast
  have "h \<le> x" using heads ec by blast
  then have hb: "unat h - unat (cl_confirmationDepth (pc_client p)) \<le> unat b"
    using b by (simp add: word_le_nat_alt diff_le_mono)
  show ?thesis
  proof (cases "pc_cursor p < b")
    case False
    then have "b \<le> pc_cursor p" by simp
    then have "iterate e p = (sleep e p1, Continue)" using l e0 f1 by (simp add: iterate_def)
    with False hb f1 show ?thesis by (auto simp: word_less_nat_alt)
  next
    case True
    have c1: "client_same (pc_client p) (pc_client p1)" using f1 by (auto intro: client_ops_same(1))
    have s1: "hashes_of H (ev_chainID e) (pc_store p1)"
      "chain_ok H match ls maxH (ev_batchSize e) (pc_client p1)" "responsive (ev_rt e) (pc_client p1)"
      using hs ok re f1 chain_ok_same [OF c1] responsive_same [OF c1] by simp_all
    obtain p2 where r: "checkAndHandleReorg e (pc_cursor p + 1) p1 = (p2, Inr False)"
      using reorg_continuous [OF env s1] by blast
    note rn = reorg_none [OF env s1(1,2) r]
    have s2: "hashes_of H (ev_chainID e) (pc_store p2)"
      "chain_ok H match ls maxH (ev_batchSize e) (pc_client p2)" "responsive (ev_rt e) (pc_client p2)"
      using s1 rn chain_ok_same [of "pc_client p1" "pc_client p2"]
        responsive_same [of "pc_client p1" "pc_client p2"] by simp_all
    let ?to = "min_u64 (pc_cursor p + ev_batchSize e) b"
    have bm: "b \<le> maxH" using latest_served [OF _ ok] f1 by blast
    have mx: "unat maxH + unat (ev_batchSize e) < 2 ^ 64" using ok by (simp add: chain_ok_def)
    note tb = to_block [OF True bm mx]
    have "?to \<le> maxH" using tb(2) bm by simp
    moreover have "pc_cursor p + 1 \<le> ?to"
      unfolding succ_le_iff [OF True] word_less_nat_alt tb(3)
      using True batch by (simp add: word_less_nat_alt unat_gt_0)
    moreover obtain p' out where rb: "run_batch e (pc_cursor p + 1) ?to p2 = (p', out)"
      by (cases "run_batch e (pc_cursor p + 1) ?to p2")
    ultimately have "out = Continue \<and> pc_cursor p' = ?to" by (intro run_batch_moves [OF env s2])
    with iterate_batch(1) [OF e0 l True r] rb tb(3) hb True show ?thesis
      by (auto simp: word_less_nat_alt)
  qed
qed

lemma steps_progress:
  assumes "pg_env e" and "chain_ok H match ls maxH (ev_batchSize e) c" and "hashes_of H (ev_chainID e) s"
    and "responsive (ev_rt e) c" and "ev_batchSize e \<noteq> 0" and "start e c w s = Inr p0"
    and "\<forall>ec \<in> set (cl_endpoints c). \<forall>w w' x. ec_BlockNumber ec w = (w', Inr x) \<longrightarrow> h \<le> x"
  shows "\<exists>p. (step e ^^ k) p0 p \<and>
     min (unat (recorded_cursor e s) + k * unat (ev_batchSize e)) (unat h - unat (cl_confirmationDepth c))
       \<le> unat (pc_cursor p)"
proof -
  have "pg_faults s = []" using assms(3) by (simp add: hashes_of_def)
  note st = start_state [OF assms(1) this assms(6)]
  show ?thesis
  proof (induction k)
    case 0
    show ?case using st by simp
  next
    case (Suc k)
    then obtain p where p: "(step e ^^ k) p0 p"
      "min (unat (recorded_cursor e s) + k * unat (ev_batchSize e)) (unat h - unat (cl_confirmationDepth c))
        \<le> unat (pc_cursor p)" by blast
    have "(step e)\<^sup>*\<^sup>* p0 p" using p(1) by (rule relpowp_imp_rtranclp)
    from steps_done [OF assms(1) _ _ this] st assms(2,3)
    have inv: "client_same c (pc_client p)" "hashes_of H (ev_chainID e) (pc_store p)"
      by (auto simp: iteration_done_def)
    from client_same_simps [OF inv(1)] assms(7) have
      hh: "\<forall>ec \<in> set (cl_endpoints (pc_client p)). \<forall>w w' x. ec_BlockNumber ec w = (w', Inr x) \<longrightarrow> h \<le> x"
      and d: "cl_confirmationDepth (pc_client p) = cl_confirmationDepth c" by simp_all
    have "chain_ok H match ls maxH (ev_batchSize e) (pc_client p)" "responsive (ev_rt e) (pc_client p)"
      using assms(2,4) chain_ok_same [OF inv(1)] responsive_same [OF inv(1)] by simp_all
    from iterate_moves [OF assms(1) inv(2) this assms(5) hh] obtain p' where
      "iterate e p = (p', Continue)"
      "min (unat (pc_cursor p) + unat (ev_batchSize e))
         (max (unat h - unat (cl_confirmationDepth c)) (unat (pc_cursor p))) \<le> unat (pc_cursor p')"
      unfolding d by blast
    with p have "(step e ^^ Suc k) p0 p'"
      "min (unat (recorded_cursor e s) + Suc k * unat (ev_batchSize e)) (unat h - unat (cl_confirmationDepth c))
        \<le> unat (pc_cursor p')"
      by (auto simp: step_iff)
    then show ?case by blast
  qed
qed

text \<open>
  C19: the loop catches up. On an undisturbed chain, with one endpoint that answers everything among
  at most as many endpoints as attempts, and with heads of at least \<open>h\<close>, every \<open>k\<close> iterations take
  the cursor \<open>k\<close> batches further or to the confirmed height: no iteration stops, is stuck or ends the
  loop.
\<close>

theorem catches_up:
  assumes "pg_env e" and "chain_ok H match ls maxH (ev_batchSize e) c" and "hashes_of H (ev_chainID e) s"
    and "responsive (ev_rt e) c" and "ev_batchSize e \<noteq> 0" and "start e c w s = Inr p0"
    and "\<forall>ec \<in> set (cl_endpoints c). \<forall>w w' x. ec_BlockNumber ec w = (w', Inr x) \<longrightarrow> h \<le> x"
  shows "\<exists>p. (step e ^^ k) p0 p \<and>
     min (unat (recorded_cursor e s) + k * unat (ev_batchSize e)) (unat h - unat (cl_confirmationDepth c))
       \<le> unat (pc_cursor p)"
  using assms by (rule steps_progress)

section \<open>Examples\<close>

text \<open>
  One LayerZero log in block 100 of a chain of 200 blocks, behind two endpoints, the first of which
  always fails; batches of 60 blocks, chunks of 50.
\<close>

definition demo_headers :: "u64 \<Rightarrow> header" where
  "demo_headers n = \<lparr>hd_Hash = dec_word n, hd_ParentHash = dec_word (n - 1), hd_Time = 1000 + n\<rparr>"

definition demo_logs :: "eth_log list" where
  "demo_logs = [demo_log (str_bytes ''PacketSent'')]"

definition demo_rpc :: "nat EthClient" where
  "demo_rpc = \<lparr>ec_BlockNumber = (\<lambda>w. (w + 1, Inr 200)),
     ec_FilterLogs = (\<lambda>q w. (w + 1, Inr (filter (in_range (fq_FromBlock q) (fq_ToBlock q) (\<lambda>_. True)) demo_logs))),
     ec_HeaderByNumber = (\<lambda>n w. (w + 1, Inr (demo_headers n))), ec_Close = (\<lambda>w. w)\<rparr>"

definition demo_chain_client :: "nat Client" where
  "demo_chain_client = \<lparr>cl_endpoints = [broken_endpoint, demo_rpc], cl_chainID = 1, cl_name = ''demo'',
     cl_confirmationDepth = 12, cl_maxBlockRange = 50, cl_rateLimit = 10\<rparr>"

definition demo_env :: "(nat, pg) env" where
  "demo_env = \<lparr>ev_rt = demo_runtime, ev_chainID = 1, ev_protocol = lz_ProtocolName,
     ev_dec = NewLayerZeroDecoder demo_lz_geth, ev_cursors = PostgresCursorStore,
     ev_blockHashes = Some PostgresBlockHashStore, ev_messages = PostgresMessageStore,
     ev_batchSize = 60, ev_pollInterval = 5\<rparr>"

lemma demo_client_ok [simp]:
  "cl_endpoints demo_chain_client = [broken_endpoint, demo_rpc]"
  "cl_confirmationDepth demo_chain_client = 12"
  by (simp_all add: demo_chain_client_def)

lemma demo_env_ok: "pg_env demo_env"
  "chain_ok demo_headers (\<lambda>_ _ _. True) demo_logs 200 (ev_batchSize demo_env) demo_chain_client"
  "hashes_of demo_headers (ev_chainID demo_env) empty_pg"
  "responsive (ev_rt demo_env) demo_chain_client"
  "ev_batchSize demo_env \<noteq> 0"
  by (auto simp: pg_env_def demo_env_def chain_ok_def linked_def demo_headers_def demo_logs_def serves_def
      honest_def demo_rpc_def broken_endpoint_def demo_chain_client_def hashes_of_def pg_hash_def
      empty_tables_def responsive_def calm_def demo_runtime_def reliable_def answers_def maxRetries_def)

lemma demo_heads:
  "\<forall>ec \<in> set (cl_endpoints demo_chain_client). \<forall>w w' x. ec_BlockNumber ec w = (w', Inr x) \<longrightarrow> 200 \<le> x"
  by (simp add: demo_rpc_def broken_endpoint_def)

lemma demo_recorded [simp]: "recorded_cursor demo_env empty_pg = 0" "ev_batchSize demo_env = 60"
  by (simp_all add: recorded_cursor_def empty_tables_def demo_env_def)

definition demo_start :: "(nat, pg) proc" where
  "demo_start = \<lparr>pc_cursor = 0, pc_client = demo_chain_client, pc_world = 0, pc_store = empty_pg\<rparr>"

lemma demo_starts: "start demo_env demo_chain_client 0 empty_pg = Inr demo_start"
  by (simp add: start_def demo_env_def PostgresCursorStore_def LoadCursor_def query_one_def
      tick_fault_free select_cursor_def empty_tables_def NewLayerZeroDecoder_def lz_EventTopics_def
      lzABI_events_def demo_start_def)

lemma demo_reaches:
  "\<exists>p. (step demo_env ^^ k) demo_start p \<and> min (k * 60) 188 \<le> unat (pc_cursor p)"
  using steps_progress [OF demo_env_ok demo_starts demo_heads, of k] by simp

theorem catches_up_witness:
  "\<exists>p. (step demo_env ^^ 4) demo_start p \<and> 188 \<le> unat (pc_cursor p)"
  using catches_up [OF demo_env_ok demo_starts demo_heads, of 4] by simp

text \<open>Without using the theorems: a run that has indexed the whole chain.\<close>

lemma demo_indexed:
  "\<exists>p. (step demo_env)\<^sup>*\<^sup>* demo_start p \<and> 188 \<le> unat (pc_cursor p)"
  using demo_reaches [of 4] by (auto dest: relpowp_imp_rtranclp)

lemma demo_events:
  assumes "100 \<le> unat b"
  shows "\<exists>ev. lz_Decode demo_lz_geth (demo_log (str_bytes ''PacketSent'')) 1 = Inr ev \<and>
     chain_events demo_env (\<lambda>_ _ _. True) demo_logs 0 b = [ev]"
proof -
  obtain ev where ev: "lz_Decode demo_lz_geth (demo_log (str_bytes ''PacketSent'')) 1 = Inr ev"
    using demo_lz_decodes by blast
  have "100 \<le> b" using assms by (simp add: word_le_nat_alt)
  moreover have "dContractAddresses (ev_dec demo_env) (ev_chainID demo_env) \<noteq> []"
    by (simp add: demo_env_def NewLayerZeroDecoder_def lz_ContractAddresses_def EndpointAddresses_def
        EndpointAddresses_entries_def)
  ultimately have "chain_events demo_env (\<lambda>_ _ _. True) demo_logs 0 b = [ev]"
    using ev by (simp add: chain_events_def demo_logs_def demo_log_def demo_env_def NewLayerZeroDecoder_def)
  with ev show ?thesis by blast
qed

theorem index_equiv_witness:
  "\<exists>ev p t now. lz_Decode demo_lz_geth (demo_log (str_bytes ''PacketSent'')) 1 = Inr ev \<and>
     (step demo_env)\<^sup>*\<^sup>* demo_start p \<and> 188 \<le> unat (pc_cursor p) \<and>
     erase (pc_store p) =
       erase (Process_all PostgresMessageStore [(now, ev\<lparr>re_Timestamp := t\<rparr>)] empty_pg)"
proof -
  obtain p where p: "(step demo_env)\<^sup>*\<^sup>* demo_start p" "188 \<le> unat (pc_cursor p)"
    using demo_indexed by blast
  then obtain ev where ev: "lz_Decode demo_lz_geth (demo_log (str_bytes ''PacketSent'')) 1 = Inr ev"
    "chain_events demo_env (\<lambda>_ _ _. True) demo_logs 0 (pc_cursor p) = [ev]"
    using demo_events [of "pc_cursor p"] by fastforce
  from index_equiv [OF demo_env_ok(1-3) demo_starts p(1)] ev obtain evs where
    "stamped demo_headers [ev] evs"
    "erase (pc_store p) = erase (Process_all PostgresMessageStore evs empty_pg)" by auto
  with p ev(1) show ?thesis
    by (fastforce simp: stamped_def stamped_event_def list_all2_Cons1)
qed

theorem cursor_synced_witness:
  "\<exists>p. (step demo_env)\<^sup>*\<^sup>* demo_start p \<and> 188 \<le> unat (pc_cursor p) \<and>
     t_cursors (pg_tables (pc_store p)) (1, lz_ProtocolName) = Some (pc_cursor p) \<and>
     t_cursors (pg_tables (pc_store p)) (2, lz_ProtocolName) = None"
proof -
  obtain p where p: "(step demo_env)\<^sup>*\<^sup>* demo_start p" "188 \<le> unat (pc_cursor p)"
    using demo_indexed by blast
  have "recorded_cursor demo_env (pc_store p) = pc_cursor p \<and>
     (\<forall>k. k \<noteq> (ev_chainID demo_env, ev_protocol demo_env) \<longrightarrow>
        t_cursors (pg_tables (pc_store p)) k = t_cursors (pg_tables empty_pg) k)"
    by (rule cursor_synced [OF demo_env_ok(1) _ demo_starts p(1)]) simp
  with p show ?thesis
    by (auto simp: recorded_cursor_def demo_env_def empty_tables_def split: option.splits)
qed

theorem never_past_confirmed_witness:
  "\<exists>p. step demo_env demo_start p \<and> 0 < unat (pc_cursor p) \<and> unat (pc_cursor p) \<le> 60"
proof -
  obtain p where p: "step demo_env demo_start p" "60 \<le> unat (pc_cursor p)"
    using demo_reaches [of 1] by auto
  then have "pc_cursor demo_start < pc_cursor p" by (simp add: demo_start_def word_less_nat_alt)
  from never_past_confirmed [OF demo_env_ok(1) _ demo_starts _ p(1) this] p show ?thesis
    by (auto simp: demo_start_def)
qed

end
