(* ===== verification/Backfill.thy ===== *)
theory Backfill
  imports Equivalence Config Wormhole Axelar Ccip
begin

text \<open>
  The backfill command, \<open>cmd/backfill/main.go\<close>: the cursor store that starts at a given block and
  stops the indexing loop after another, the run of the command, what it indexes, where it leaves
  the live cursor, and how it exits.
\<close>

section \<open>The ranged cursor store\<close>

text \<open>
  What the command changes: the database, and the fields \<open>started\<close> and \<open>done\<close> of the store (\<open>done\<close> is
  a channel, closed or not).
\<close>

record ranged =
  rg_pg :: pg
  rg_started :: bool
  rg_done :: bool

definition on_inner :: "(pg \<Rightarrow> pg \<times> 'r) \<Rightarrow> ranged \<Rightarrow> ranged \<times> 'r" where
  "on_inner f s = (case f (rg_pg s) of (g, r) \<Rightarrow> (s\<lparr>rg_pg := g\<rparr>, r))"

record rangedCursorStore =
  rc_start :: u64
  rc_stop :: u64
  rc_chainID :: u64
  rc_protocol :: string

definition ranged_LoadCursor ::
    "rangedCursorStore \<Rightarrow> u64 \<Rightarrow> string \<Rightarrow> ranged \<Rightarrow> ranged \<times> (error + u64)" where
  "ranged_LoadCursor r chainID protocol s =
     (if \<not> rg_started s \<and> chainID = rc_chainID r \<and> protocol = rc_protocol r
      then (s\<lparr>rg_started := True\<rparr>, Inr (rc_start r))
      else on_inner (LoadCursor chainID protocol) s)"

definition ranged_UpdateCursor ::
    "rangedCursorStore \<Rightarrow> u64 \<Rightarrow> string \<Rightarrow> u64 \<Rightarrow> ranged \<Rightarrow> ranged \<times> error option" where
  "ranged_UpdateCursor r chainID protocol blockNumber s =
     (if chainID = rc_chainID r \<and> protocol = rc_protocol r \<and> blockNumber \<ge> rc_stop r then
        (case on_inner (UpdateCursor chainID protocol blockNumber) s of
           (s, _) \<Rightarrow> (s\<lparr>rg_done := True\<rparr>, Some Canceled))
      else on_inner (UpdateCursor chainID protocol blockNumber) s)"

definition ranged_store :: "rangedCursorStore \<Rightarrow> ranged CursorStore" where
  "ranged_store r = \<lparr>cs_LoadCursor = ranged_LoadCursor r, cs_UpdateCursor = ranged_UpdateCursor r\<rparr>"

text \<open>The message store of the command works on the same database.\<close>

definition inner_messages :: "ranged MessageStore" where
  "inner_messages = \<lparr>ms_UpsertMessage = (\<lambda>m. on_inner (UpsertMessage m)),
     ms_FindByCorrelationKey = (\<lambda>k. on_inner (FindByCorrelationKey k)),
     ms_UpdateDestination = (\<lambda>mid d st. on_inner (UpdateDestination mid d st))\<rparr>"

section \<open>The command\<close>

record flags =
  fl_chain :: u64
  fl_protocol :: string
  fl_from :: u64
  fl_to :: u64

definition backfill_env ::
    "'w runtime \<Rightarrow> decoder \<Rightarrow> u64 \<Rightarrow> int \<Rightarrow> flags \<Rightarrow> ('w, ranged) env" where
  "backfill_env rt decd batchSize pollInterval fl =
     \<lparr>ev_rt = rt, ev_chainID = fl_chain fl, ev_protocol = fl_protocol fl, ev_dec = decd,
      ev_cursors = ranged_store \<lparr>rc_start = fl_from fl - 1, rc_stop = fl_to fl,
        rc_chainID = fl_chain fl, rc_protocol = fl_protocol fl\<rparr>,
      ev_blockHashes = None, ev_messages = inner_messages, ev_batchSize = batchSize,
      ev_pollInterval = pollInterval\<rparr>"

text \<open>
  The decoders both commands register, and the command: the outcome \<open>conf\<close> of reading the
  configuration, the error \<open>pool\<close> of connecting to the database if it has one, and the run. It gives
  the exit status and the database it leaves, \<open>None\<close> when it has not finished within \<open>n\<close> iterations. A
  fatal error exits with status 1.
\<close>

definition command_decoders :: "geth \<Rightarrow> decoder list" where
  "command_decoders g = [NewLayerZeroDecoder g, NewAxelarDecoder g, NewWormholeDecoder g, NewCCIPDecoder g]"

definition backfill_status :: "error \<Rightarrow> int" where
  "backfill_status err = (if err \<noteq> Canceled then 1 else 0)"

definition backfill_main ::
    "nat \<Rightarrow> 'w runtime \<Rightarrow> geth \<Rightarrow> (string \<Rightarrow> 'w \<Rightarrow> 'w \<times> (error + 'w EthClient)) \<Rightarrow> error + Config
      \<Rightarrow> error option \<Rightarrow> flags \<Rightarrow> 'w \<Rightarrow> pg \<Rightarrow> (int \<times> pg) option" where
  "backfill_main n rt g dial conf pool fl w db =
     (if fl_chain fl = 0 \<or> fl_protocol fl = [] \<or> fl_from fl = 0 \<or> fl_to fl = 0 then Some (1, db)
      else if fl_from fl > fl_to fl then Some (1, db)
      else
        (case conf of
           Inl err \<Rightarrow> Some (1, db)
         | Inr cfg \<Rightarrow>
             if pool \<noteq> None then Some (1, db)
             else
               (case NewManager rt dial (cf_Chains cfg) w of
                  (w, Inl err) \<Rightarrow> Some (1, db)
                | (w, Inr mgr) \<Rightarrow>
                    (case GetClient mgr (fl_chain fl) of
                       Inl err \<Rightarrow> Some (1, db)
                     | Inr client \<Rightarrow>
                         (case register_all NewRegistry (command_decoders g) of
                            Inl err \<Rightarrow> Some (1, db)
                          | Inr registry \<Rightarrow>
                              (case Get registry (fl_protocol fl) of
                                 None \<Rightarrow> Some (1, db)
                               | Some decd \<Rightarrow>
                                   (case ProcessChain n
                                           (backfill_env rt decd (word_of_int (ic_BatchSize (cf_Indexer cfg)))
                                              (ic_PollInterval (cf_Indexer cfg)) fl) client w
                                           \<lparr>rg_pg = db, rg_started = False, rg_done = False\<rparr> of
                                      Some (Inl err) \<Rightarrow> Some (backfill_status err, db)
                                    | Some (Inr (p, Return err)) \<Rightarrow> Some (backfill_status err, rg_pg (pc_store p))
                                    | _ \<Rightarrow> None)))))))"

section \<open>The loop on the ranged store and on the database\<close>

text \<open>The same run with the database's own cursor store.\<close>

definition plain_env :: "('w, ranged) env \<Rightarrow> ('w, pg) env" where
  "plain_env e = \<lparr>ev_rt = ev_rt e, ev_chainID = ev_chainID e, ev_protocol = ev_protocol e, ev_dec = ev_dec e,
     ev_cursors = PostgresCursorStore, ev_blockHashes = None, ev_messages = PostgresMessageStore,
     ev_batchSize = ev_batchSize e, ev_pollInterval = ev_pollInterval e\<rparr>"

definition plain :: "('w, ranged) proc \<Rightarrow> ('w, pg) proc" where
  "plain p = \<lparr>pc_cursor = pc_cursor p, pc_client = pc_client p, pc_world = pc_world p,
     pc_store = rg_pg (pc_store p)\<rparr>"

lemma plain_simps [simp]:
  "pc_cursor (plain p) = pc_cursor p" "pc_client (plain p) = pc_client p"
  "pc_world (plain p) = pc_world p" "pc_store (plain p) = rg_pg (pc_store p)"
  "ev_rt (plain_env e) = ev_rt e" "ev_chainID (plain_env e) = ev_chainID e"
  "ev_protocol (plain_env e) = ev_protocol e" "ev_dec (plain_env e) = ev_dec e"
  "ev_cursors (plain_env e) = PostgresCursorStore" "ev_blockHashes (plain_env e) = None"
  "ev_messages (plain_env e) = PostgresMessageStore" "ev_batchSize (plain_env e) = ev_batchSize e"
  "ev_pollInterval (plain_env e) = ev_pollInterval e"
  by (simp_all add: plain_def plain_env_def)

lemma chain_events_plain: "chain_events (plain_env e) match ls a b = chain_events e match ls a b"
  by (simp only: chain_events_def plain_simps)

lemma plain_env_ok: "pg_env (plain_env e)"
  by (simp add: pg_env_def)

lemma plain_on_client:
  "on_client f (plain p) = (case on_client f p of (p, r) \<Rightarrow> (plain p, r))"
  by (simp add: on_client_def plain_def split: prod.split)

lemma plain_on_inner:
  "on_store f (plain p) = (case on_store (on_inner f) p of (p, r) \<Rightarrow> (plain p, r))"
  by (simp add: on_store_def on_inner_def plain_def split: prod.split)

lemma plain_sleep: "sleep (plain_env e) (plain p) = plain (sleep e p)"
  by (simp add: sleep_def plain_def)

lemma Process_inner: "Process inner_messages now ev = on_inner (Process PostgresMessageStore now ev)"
proof -
  have "correlate inner_messages r = on_inner (correlate PostgresMessageStore r)" for r
    by (rule ext) (simp add: correlate_def inner_messages_def PostgresMessageStore_def on_inner_def Let_def
        split: option.split prod.split sum.split)
  then show ?thesis
    by (intro ext) (simp add: Process_def inner_messages_def PostgresMessageStore_def on_inner_def Let_def
        split: option.split prod.split sum.split)
qed


definition ranged_env :: "rangedCursorStore \<Rightarrow> ('w, ranged) env \<Rightarrow> bool" where
  "ranged_env r e \<longleftrightarrow> ev_cursors e = ranged_store r \<and> rc_chainID r = ev_chainID e \<and>
     rc_protocol r = ev_protocol e \<and> ev_blockHashes e = None \<and> ev_messages e = inner_messages"

definition finished :: error where "finished = Wrapf ''updating cursor'' Canceled"

text \<open>
  The two runs agree, except that the ranged store ends the loop at a cursor from the last block of
  the range on. \<open>c\<close> is the cursor before, \<open>n\<close> the most an iteration can move it to.
\<close>

definition follows ::
    "u64 \<Rightarrow> u64 \<Rightarrow> u64 \<Rightarrow> ('w, ranged) proc \<times> outcome \<Rightarrow> ('w, pg) proc \<times> outcome \<Rightarrow> bool" where
  "follows stop c n x y \<longleftrightarrow> fst y = plain (fst x) \<and>
     (pc_cursor (fst x) = c \<or> pc_cursor (fst x) \<le> n) \<and>
     (snd x = snd y \<and> (pc_cursor (fst x) = c \<or> pc_cursor (fst x) < stop) \<or>
      snd x = Return finished \<and> stop \<le> pc_cursor (fst x))"

lemma plain_process_log:
  assumes "ranged_env r e"
  shows "process_log (plain_env e) l ts (plain p) = (case process_log e l ts p of (ts, p) \<Rightarrow> (ts, plain p))"
proof (cases "dDecode (ev_dec e) l (ev_chainID e)")
  case (Inr ev)
  show ?thesis
    using assms
    by (auto simp: process_log_def Inr plain_on_client plain_on_inner ranged_env_def Process_inner Let_def
        split: option.split prod.split sum.split)
qed (simp add: process_log_def)

lemma plain_process_logs:
  "ranged_env r e \<Longrightarrow> process_logs (plain_env e) ls ts (plain p) = plain (process_logs e ls ts p)"
  by (induction ls arbitrary: ts p) (auto simp: plain_process_log split: prod.split)

lemma process_logs_cursor: "pc_cursor (process_logs e ls ts p) = pc_cursor p"
proof -
  have "pc_cursor (snd (process_log e l ts p)) = pc_cursor p" for l ts p
    by (auto simp: process_log_def Let_def on_client_def on_store_def
        split: sum.split prod.split option.split)
  then show ?thesis
    by (induction ls arbitrary: ts p) (auto split: prod.split dest: arg_cong [of _ _ "\<lambda>x. pc_cursor (snd x)"])
qed

lemma advance_follows:
  assumes "ranged_env r e"
  shows "follows (rc_stop r) c b (advance e b p) (advance (plain_env e) b (plain p))"
proof (cases "rc_stop r \<le> b")
  case True
  with assms show ?thesis
    by (auto simp: advance_def follows_def ranged_env_def ranged_store_def ranged_UpdateCursor_def on_store_def
        on_inner_def PostgresCursorStore_def plain_def finished_def split: prod.split option.split)
next
  case False
  with assms show ?thesis
    by (auto simp: advance_def follows_def ranged_env_def ranged_store_def ranged_UpdateCursor_def on_store_def
        on_inner_def PostgresCursorStore_def plain_def not_le split: prod.split option.split)
qed

lemma run_batch_follows:
  assumes "ranged_env r e"
  shows "follows (rc_stop r) (pc_cursor p) b (run_batch e a b p) (run_batch (plain_env e) a b (plain p))"
proof -
  have same: "plain p\<lparr>pc_client := c, pc_world := w\<rparr> = plain (p\<lparr>pc_client := c, pc_world := w\<rparr>)" for c w
    by (simp add: plain_def)
  have nh: "ev_blockHashes e = None" using assms by (simp add: ranged_env_def)
  let ?as = "dContractAddresses (ev_dec e) (ev_chainID e)" and ?ts = "[dEventTopics (ev_dec e)]"
  show ?thesis
  proof (cases "length ?as = 0")
    case True
    with advance_follows [OF assms] show ?thesis by (simp add: run_batch_def)
  next
    case addrs: False
    show ?thesis
    proof (cases "FetchLogs (ev_rt e) a b ?as ?ts (pc_client p) (pc_world p)")
      case None
      with addrs show ?thesis by (simp add: run_batch_def follows_def)
    next
      case (Some x)
      obtain cl w q where x: "x = ((cl, w), q)" by (metis prod.exhaust)
      show ?thesis
      proof (cases q)
        case (Inl err)
        with addrs Some x show ?thesis by (simp add: run_batch_def follows_def same plain_sleep)
      next
        case (Inr logs)
        with addrs Some x nh advance_follows [OF assms] show ?thesis
          by (simp add: run_batch_def Let_def record_hashes_def same plain_process_logs [OF assms])
      qed
    qed
  qed
qed

lemma iterate_unhashed:
  assumes "ev_blockHashes e = None" and "rt_Err (ev_rt e) (pc_world p) = None"
    and "on_client (LatestConfirmedBlock (ev_rt e)) p = (p1, q)"
  shows "iterate e p =
     (case q of Inl err \<Rightarrow> (sleep e p1, Continue)
      | Inr b \<Rightarrow>
          if pc_cursor p \<ge> b then (sleep e p1, Continue)
          else run_batch e (pc_cursor p + 1) (min_u64 (pc_cursor p + ev_batchSize e) b) p1)"
proof -
  have "pc_cursor p1 = pc_cursor p" using on_client_frame [OF assms(3)] by simp
  with assms show ?thesis
    by (cases q) (simp_all add: iterate_def checkAndHandleReorg_def Let_def)
qed

lemma iterate_follows:
  assumes "ranged_env r e"
  shows "follows (rc_stop r) (pc_cursor p) (pc_cursor p + ev_batchSize e) (iterate e p)
     (iterate (plain_env e) (plain p))"
proof (cases "rt_Err (ev_rt e) (pc_world p)")
  case (Some err)
  then show ?thesis by (simp add: iterate_def follows_def)
next
  case None
  have nh: "ev_blockHashes e = None" using assms by (simp add: ranged_env_def)
  obtain p1 q where l: "on_client (LatestConfirmedBlock (ev_rt e)) p = (p1, q)"
    by (cases "on_client (LatestConfirmedBlock (ev_rt e)) p")
  then have l': "on_client (LatestConfirmedBlock (ev_rt (plain_env e))) (plain p) = (plain p1, q)"
    by (simp add: plain_on_client)
  have c1: "pc_cursor p1 = pc_cursor p" using on_client_frame [OF l] by simp
  note it = iterate_unhashed [OF nh None l]
  have it': "iterate (plain_env e) (plain p) =
     (case q of Inl err \<Rightarrow> (sleep (plain_env e) (plain p1), Continue)
      | Inr b \<Rightarrow>
          if pc_cursor p \<ge> b then (sleep (plain_env e) (plain p1), Continue)
          else run_batch (plain_env e) (pc_cursor p + 1) (min_u64 (pc_cursor p + ev_batchSize e) b) (plain p1))"
    using iterate_unhashed [OF _ _ l'] None unfolding plain_simps by simp
  have to: "min_u64 (pc_cursor p + ev_batchSize e) b \<le> pc_cursor p + ev_batchSize e" for b
    by (simp add: min_u64_def not_less)
  show ?thesis
  proof (cases "\<exists>b. q = Inr b \<and> \<not> pc_cursor p \<ge> b")
    case False
    with it it' c1 show ?thesis by (auto simp: follows_def plain_sleep split: sum.split)
  next
    case True
    then obtain b where b: "q = Inr b" "\<not> pc_cursor p \<ge> b" by blast
    with it it' run_batch_follows [OF assms, of p1 "min_u64 (pc_cursor p + ev_batchSize e) b" "pc_cursor p + 1"]
      c1 to [of b]
    show ?thesis by (auto simp: follows_def)
  qed
qed

text \<open>An iteration on the database's own cursor store records the cursor it moves to.\<close>

lemma iterate_records:
  assumes "pg_env e" and "ev_blockHashes e = None" and "iterate e p = (p', Continue)"
  shows "pc_cursor p' = pc_cursor p \<or>
     t_cursors (pg_tables (pc_store p')) (ev_chainID e, ev_protocol e) = Some (pc_cursor p')"
proof -
  have e0: "rt_Err (ev_rt e) (pc_world p) = None"
    using assms(3) by (auto simp: iterate_def split: option.splits)
  obtain p1 q where l: "on_client (LatestConfirmedBlock (ev_rt e)) p = (p1, q)"
    by (cases "on_client (LatestConfirmedBlock (ev_rt e)) p")
  then have c1: "pc_cursor p1 = pc_cursor p" using on_client_frame [OF l] by simp
  note it = iterate_unhashed [OF assms(2) e0 l]
  show ?thesis
  proof (cases "\<exists>b. q = Inr b \<and> \<not> pc_cursor p \<ge> b")
    case False
    with it assms(3) c1 show ?thesis by (auto split: sum.splits if_splits)
  next
    case True
    then obtain b where "run_batch e (pc_cursor p + 1) (min_u64 (pc_cursor p + ev_batchSize e) b) p1 = (p', Continue)"
      using it assms(3) by auto
    from pgloop.run_batch_result [OF pg_env_ok [OF assms(1)] this] c1 show ?thesis by auto
  qed
qed

section \<open>The whole range\<close>

lemma ranged_loop:
  assumes env: "ranged_env r e" and batch: "ev_batchSize e \<noteq> 0"
    and stop: "unat (rc_stop r) \<le> unat h - unat (cl_confirmationDepth (pc_client p))"
    and hs: "hashes_of H (ev_chainID e) (rg_pg (pc_store p))"
    and ok: "chain_ok H match ls maxH (ev_batchSize e) (pc_client p)"
    and re: "responsive (ev_rt e) (pc_client p)"
    and heads: "\<forall>ec \<in> set (cl_endpoints (pc_client p)). \<forall>w w' x. ec_BlockNumber ec w = (w', Inr x) \<longrightarrow> h \<le> x"
    and c: "pc_cursor p < rc_stop r" and mx: "h \<le> maxH"
  shows "\<exists>n p'. loop n e p = Some (p', Return finished) \<and>
     rc_stop r \<le> pc_cursor p' \<and> unat (pc_cursor p') < unat (rc_stop r) + unat (ev_batchSize e) \<and>
     t_cursors (pg_tables (rg_pg (pc_store p'))) (ev_chainID e, ev_protocol e) = Some (pc_cursor p') \<and>
     (step (plain_env e))\<^sup>*\<^sup>* (plain p) (plain p') \<and>
     (unat (pc_cursor p') < unat h - unat (cl_confirmationDepth (pc_client p)) \<longrightarrow>
        unat (ev_batchSize e) dvd unat (pc_cursor p') - unat (pc_cursor p))"
  using stop hs ok re heads c
proof (induction "unat (rc_stop r) - unat (pc_cursor p)" arbitrary: p rule: less_induct)
  case less
  let ?e = "plain_env e"
  have pe: "pg_env ?e" by (rule plain_env_ok)
  obtain q where q: "iterate ?e (plain p) = (q, Continue)"
    and moved: "min (unat (pc_cursor p) + unat (ev_batchSize e))
         (max (unat h - unat (cl_confirmationDepth (pc_client p))) (unat (pc_cursor p))) \<le> unat (pc_cursor q)"
    using iterate_moves [OF pe, of H "plain p" match ls maxH h] less.prems batch by auto
  obtain p' out where it: "iterate e p = (p', out)" by (cases "iterate e p")
  from iterate_follows [OF env, of p] q it have f: "q = plain p'"
    "out = Continue \<and> (pc_cursor p' = pc_cursor p \<or> pc_cursor p' < rc_stop r) \<or>
     out = Return finished \<and> rc_stop r \<le> pc_cursor p'"
    "pc_cursor p' = pc_cursor p \<or> pc_cursor p' \<le> pc_cursor p + ev_batchSize e"
    by (simp_all add: follows_def)
  have st: "step ?e (plain p) (plain p')" using q f(1) by (simp add: step_iff)
  have lt: "unat (pc_cursor p) < unat (rc_stop r)" using less.prems by (simp add: word_less_nat_alt)
  have b0: "0 < unat (ev_batchSize e)" using batch by (simp add: unat_gt_0)
  have adv: "unat (pc_cursor p) < unat (pc_cursor p')"
    using moved f(1) lt b0 less.prems(1) by simp
  then have ne: "pc_cursor p' \<noteq> pc_cursor p" by auto
  have upper: "unat (pc_cursor p') \<le> unat (pc_cursor p) + unat (ev_batchSize e)"
  proof -
    have "unat (pc_cursor p') \<le> unat (pc_cursor p + ev_batchSize e)"
      using f(3) ne by (simp add: word_le_nat_alt)
    also have "\<dots> \<le> unat (pc_cursor p) + unat (ev_batchSize e)"
      by (simp add: unat_word_ariths mod_less_eq_dividend)
    finally show ?thesis .
  qed
  have full: "unat (pc_cursor p') = unat (pc_cursor p) + unat (ev_batchSize e)"
    if "unat (pc_cursor p') < unat h - unat (cl_confirmationDepth (pc_client p))"
    using that moved f(1) upper by simp
  have rec: "t_cursors (pg_tables (rg_pg (pc_store p'))) (ev_chainID e, ev_protocol e) = Some (pc_cursor p')"
    using iterate_records [OF pe _ q] ne f(1) by simp
  from f(2) show ?case
  proof (elim disjE conjE)
    assume o: "out = Return finished" "rc_stop r \<le> pc_cursor p'"
    then have "loop (Suc 0) e p = Some (p', Return finished)" using it by simp
    moreover have "unat (pc_cursor p') < unat (rc_stop r) + unat (ev_batchSize e)" using upper lt by simp
    moreover have "unat (ev_batchSize e) dvd unat (pc_cursor p') - unat (pc_cursor p)"
      if "unat (pc_cursor p') < unat h - unat (cl_confirmationDepth (pc_client p))"
      using full [OF that] by simp
    ultimately show ?thesis using o(2) rec st by blast
  next
    assume o: "out = Continue" "pc_cursor p' < rc_stop r"
    have dn: "iteration_done H match ls ?e (plain p) (plain p')"
      by (rule iterate_done [OF pe]) (use less.prems q f(1) in simp_all)
    then have same: "client_same (pc_client p) (pc_client p')" and hs': "hashes_of H (ev_chainID e) (rg_pg (pc_store p'))"
      by (simp_all add: iteration_done_def)
    have "unat (rc_stop r) - unat (pc_cursor p') < unat (rc_stop r) - unat (pc_cursor p)"
      using adv lt by simp
    from less.hyps [OF this _ hs' _ _ _ o(2)] less.prems client_same_simps [OF same]
      chain_ok_same [OF same] responsive_same [OF same]
    obtain n z where z: "loop n e p' = Some (z, Return finished)" "rc_stop r \<le> pc_cursor z"
      "unat (pc_cursor z) < unat (rc_stop r) + unat (ev_batchSize e)"
      "t_cursors (pg_tables (rg_pg (pc_store z))) (ev_chainID e, ev_protocol e) = Some (pc_cursor z)"
      "(step ?e)\<^sup>*\<^sup>* (plain p') (plain z)"
      "unat (pc_cursor z) < unat h - unat (cl_confirmationDepth (pc_client p)) \<Longrightarrow>
        unat (ev_batchSize e) dvd unat (pc_cursor z) - unat (pc_cursor p')" by auto
    have "loop (Suc n) e p = Some (z, Return finished)" using it o(1) z(1) by simp
    moreover have "(step ?e)\<^sup>*\<^sup>* (plain p) (plain z)"
      using st z(5) by (rule converse_rtranclp_into_rtranclp)
    moreover have "unat (ev_batchSize e) dvd unat (pc_cursor z) - unat (pc_cursor p)"
      if l: "unat (pc_cursor z) < unat h - unat (cl_confirmationDepth (pc_client p))"
    proof -
      have "unat (pc_cursor p') < unat (pc_cursor z)"
        using o(2) z(2) by (simp add: word_less_nat_alt word_le_nat_alt)
      then have "unat (pc_cursor z) - unat (pc_cursor p) =
          (unat (pc_cursor z) - unat (pc_cursor p')) + unat (ev_batchSize e)"
        using full l by simp
      then show ?thesis using z(6) [OF l] by simp
    qed
    ultimately show ?thesis using z(2-4) by blast
  qed (use ne in simp)
qed

lemma command_registry:
  "register_all NewRegistry (command_decoders g) = Inr (map (\<lambda>d. (dProtocol d, d)) (command_decoders g))"
proof -
  have "distinct (map dProtocol (command_decoders g))"
    by (simp add: command_decoders_def NewLayerZeroDecoder_def NewAxelarDecoder_def NewWormholeDecoder_def
        NewCCIPDecoder_def lz_ProtocolName_def ax_ProtocolName_def wh_ProtocolName_def ccip_ProtocolName_def)
  then show ?thesis by (simp add: register_all_iff) (simp add: NewRegistry_def)
qed

lemma command_get:
  assumes "d \<in> set (command_decoders g)"
  shows "Get (map (\<lambda>d. (dProtocol d, d)) (command_decoders g)) (dProtocol d) = Some d"
  using assms
  by (auto simp: Get_def command_decoders_def NewLayerZeroDecoder_def NewAxelarDecoder_def NewWormholeDecoder_def
        NewCCIPDecoder_def lz_ProtocolName_def ax_ProtocolName_def wh_ProtocolName_def ccip_ProtocolName_def)

lemma command_topics: "d \<in> set (command_decoders g) \<Longrightarrow> dEventTopics d \<noteq> []"
  by (auto simp: command_decoders_def NewLayerZeroDecoder_def NewAxelarDecoder_def
      NewWormholeDecoder_def NewCCIPDecoder_def lz_EventTopics_def ax_EventTopics_def wh_EventTopics_def
      ccip_EventTopics_def)

text \<open>
  C34: a backfill indexes its range, and exits with status 1. On an undisturbed chain confirmed up to
  the last block of the range, with one endpoint that answers everything, the command ends after
  finitely many iterations. The message tables are then what the correlator makes of exactly the
  events from the first block of the range up to a block \<open>b\<close> at or, by less than one batch, after the
  last; the cursor of the live indexer has been overwritten with \<open>b\<close>; and although the whole range
  was indexed the exit status is that of a failure, for the loop wraps the \<open>context.Canceled\<close> of the
  cursor store that the command compares with. The range is not cut off at \<open>--to\<close>, as the
  architecture document and the help text of the flag say: whenever \<open>b\<close> is below the confirmed
  height, a whole number of batches has been indexed.
\<close>

theorem backfill_complete:
  assumes "fl_chain fl \<noteq> 0" and "0 < fl_from fl" and "fl_from fl \<le> fl_to fl"
    and "NewManager rt dial (cf_Chains cfg) w = (w1, Inr mgr)" and "GetClient mgr (fl_chain fl) = Inr c"
    and "d \<in> set (command_decoders g)" and "dProtocol d = fl_protocol fl" and "fl_protocol fl \<noteq> []"
    and "batch = word_of_int (ic_BatchSize (cf_Indexer cfg))" and "batch \<noteq> 0"
    and "chain_ok H match ls maxH batch c" and "responsive rt c" and "hashes_of H (fl_chain fl) db"
    and "\<forall>ec \<in> set (cl_endpoints c). \<forall>w w' x. ec_BlockNumber ec w = (w', Inr x) \<longrightarrow> h \<le> x"
    and "h \<le> maxH" and "unat (fl_to fl) \<le> unat h - unat (cl_confirmationDepth c)"
  shows "\<exists>n db' b evs. backfill_main n rt g dial (Inr cfg) None fl w db = Some (1, db') \<and>
     fl_to fl \<le> b \<and> unat b < unat (fl_to fl) + unat batch \<and>
     (unat b < unat h - unat (cl_confirmationDepth c) \<longrightarrow>
        unat batch dvd unat b - unat (fl_from fl - 1)) \<and>
     stamped H (chain_events (backfill_env rt d batch (ic_PollInterval (cf_Indexer cfg)) fl) match ls
       (fl_from fl - 1) b) evs \<and>
     erase db' = erase (Process_all PostgresMessageStore evs db) \<and>
     t_cursors (pg_tables db') (fl_chain fl, fl_protocol fl) = Some b"
proof -
  let ?e = "backfill_env rt d batch (ic_PollInterval (cf_Indexer cfg)) fl"
  let ?s = "\<lparr>rg_pg = db, rg_started = False, rg_done = False\<rparr>"
  define r where "r = \<lparr>rc_start = fl_from fl - 1, rc_stop = fl_to fl, rc_chainID = fl_chain fl,
    rc_protocol = fl_protocol fl\<rparr>"
  define p0 where "p0 = \<lparr>pc_cursor = fl_from fl - 1, pc_client = c, pc_world = w1,
    pc_store = ?s\<lparr>rg_started := True\<rparr>\<rparr>"
  have e: "ranged_env r ?e" "ev_chainID ?e = fl_chain fl" "ev_protocol ?e = fl_protocol fl"
    "ev_batchSize ?e = batch" "ev_rt ?e = rt" "ev_dec ?e = d" "rc_stop r = fl_to fl"
    by (simp_all add: ranged_env_def backfill_env_def r_def)
  have st: "start ?e c w1 ?s = Inr p0"
    using command_topics [OF assms(6)]
    by (simp add: start_def backfill_env_def ranged_store_def ranged_LoadCursor_def p0_def)
  have p0: "pc_client p0 = c" "rg_pg (pc_store p0) = db" "pc_cursor p0 = fl_from fl - 1"
    by (simp_all add: p0_def)
  have "fl_from fl \<noteq> 0" using assms(2) by auto
  from unat_minus_one [OF this] have "fl_from fl - 1 < fl_to fl"
    using assms(2,3) by (simp add: word_less_nat_alt word_le_nat_alt)
  with ranged_loop [OF e(1), of h p0 H match ls maxH] obtain n p where
    l: "loop n ?e p0 = Some (p, Return finished)" "fl_to fl \<le> pc_cursor p"
    "unat (pc_cursor p) < unat (fl_to fl) + unat batch"
    "t_cursors (pg_tables (rg_pg (pc_store p))) (fl_chain fl, fl_protocol fl) = Some (pc_cursor p)"
    "(step (plain_env ?e))\<^sup>*\<^sup>* (plain p0) (plain p)"
    "unat (pc_cursor p) < unat h - unat (cl_confirmationDepth c) \<longrightarrow>
       unat batch dvd unat (pc_cursor p) - unat (fl_from fl - 1)"
    unfolding e p0 using assms(10-16) by auto
  have "iteration_done H match ls (plain_env ?e) (plain p0) (plain p)"
    by (rule steps_done [OF plain_env_ok _ _ l(5)]) (use assms e p0 in simp_all)
  then obtain evs where
    "stamped H (chain_events ?e match ls (fl_from fl - 1) (pc_cursor p)) evs"
    "erase (rg_pg (pc_store p)) = erase (Process_all PostgresMessageStore evs db)"
    by (auto simp: iteration_done_def batch_done_def p0 chain_events_plain)
  moreover have "backfill_main n rt g dial (Inr cfg) None fl w db = Some (1, rg_pg (pc_store p))"
  proof -
    have "fl_to fl \<noteq> 0" using assms(2,3) by (auto simp: word_le_nat_alt word_less_nat_alt)
    moreover have "Get (map (\<lambda>d. (dProtocol d, d)) (command_decoders g)) (fl_protocol fl) = Some d"
      using command_get [OF assms(6)] assms(7) by simp
    moreover have "ProcessChain n ?e c w1 ?s = Some (Inr (p, Return finished))"
      using st l(1) by (simp add: ProcessChain_def)
    ultimately show ?thesis
      using assms(1-5,8,9)
      by (simp add: backfill_main_def command_registry not_less finished_def backfill_status_def)
  qed
  ultimately show ?thesis using l(2-4,6) by (intro exI conjI) auto
qed

section \<open>Examples\<close>

definition demo_config :: Config where
  "demo_config = \<lparr>cf_Database = \<lparr>db_Host = ''db'', db_Port = 5432, db_User = [], db_Password = [],
       db_DBName = ''archive'', db_SSLMode = [], db_MaxOpenConns = 0, db_MaxIdleConns = 0\<rparr>,
     cf_Chains = [(1, \<lparr>ch_Name = ''demo'', ch_RPCURLs = [''rpc''], ch_RPCURL = [], ch_ConfirmationDepth = 12,
       ch_MaxBlockRange = 50, ch_RateLimit = 10\<rparr>)],
     cf_Akave = \<lparr>ak_Endpoint = [], ak_AccessKey = [], ak_SecretKey = [], ak_BucketName = [], ak_UseSSL = True,
       ak_Region = []\<rparr>,
     cf_Indexer = \<lparr>ic_BatchSize = 60, ic_PollInterval = 5, ic_ArchiveInterval = 0\<rparr>,
     cf_API = \<lparr>api_Port = 0, api_ReadTimeout = 0, api_WriteTimeout = 0, api_CORSAllowedOrigins = []\<rparr>,
     cf_Logging = \<lparr>lg_Level = [], lg_Pretty = False\<rparr>\<rparr>"

definition demo_flags :: flags where
  "demo_flags = \<lparr>fl_chain = 1, fl_protocol = lz_ProtocolName, fl_from = 90, fl_to = 110\<rparr>"

definition demo_dialled :: "nat Client" where
  "demo_dialled = new_client [demo_rpc] 1 (snd (hd (cf_Chains demo_config)))"

lemma demo_manager:
  "NewManager demo_runtime (\<lambda>_ w. (w, Inr demo_rpc)) (cf_Chains demo_config) 0 = (1, Inr [(1, demo_dialled)])"
  by (simp add: NewManager_def demo_config_def NewClient_def new_client_def LatestConfirmedBlock_def
      withRetry_def retry_loop.simps limited_def demo_runtime_def demo_rpc_def demo_dialled_def maxRetries_def
      primary_def)

lemma demo_dialled_ok:
  "chain_ok demo_headers (\<lambda>_ _ _. True) demo_logs 200 60 demo_dialled"
  "responsive demo_runtime demo_dialled" "cl_endpoints demo_dialled = [demo_rpc]"
  "cl_confirmationDepth demo_dialled = 12"
  by (auto simp: chain_ok_def linked_def demo_headers_def demo_logs_def serves_def
      honest_def demo_rpc_def demo_dialled_def new_client_def demo_config_def
      responsive_def calm_def demo_runtime_def reliable_def answers_def maxRetries_def)

text \<open>The blocks 90 to 110 in batches of 60: the command indexes up to block 149.\<close>

theorem backfill_complete_witness:
  "\<exists>n db'. backfill_main n demo_runtime demo_lz_geth (\<lambda>_ w. (w, Inr demo_rpc)) (Inr demo_config) None
       demo_flags 0 empty_pg = Some (1, db') \<and>
     t_cursors (pg_tables db') (1, lz_ProtocolName) = Some 149"
proof -
  let ?d = "NewLayerZeroDecoder demo_lz_geth"
  have f: "fl_chain demo_flags = 1" "fl_protocol demo_flags = lz_ProtocolName" "fl_from demo_flags = 90"
    "fl_to demo_flags = 110" "ic_BatchSize (cf_Indexer demo_config) = 60"
    by (simp_all add: demo_flags_def demo_config_def)
  have "hashes_of demo_headers 1 empty_pg"
    by (simp add: hashes_of_def pg_hash_def empty_tables_def)
  moreover have "\<forall>ec \<in> set (cl_endpoints demo_dialled). \<forall>w w' x. ec_BlockNumber ec w = (w', Inr x) \<longrightarrow> 200 \<le> x"
    by (simp add: demo_dialled_ok demo_rpc_def)
  moreover have "?d \<in> set (command_decoders demo_lz_geth)" "dProtocol ?d = lz_ProtocolName"
    "lz_ProtocolName \<noteq> []" "GetClient [(1, demo_dialled)] 1 = Inr demo_dialled"
    by (simp_all add: command_decoders_def NewLayerZeroDecoder_def lz_ProtocolName_def GetClient_def)
  ultimately obtain n db' b where run: "backfill_main n demo_runtime demo_lz_geth (\<lambda>_ w. (w, Inr demo_rpc))
       (Inr demo_config) None demo_flags 0 empty_pg = Some (1, db')"
    and b: "110 \<le> b" "unat b < 170" "unat b < 188 \<longrightarrow> 60 dvd unat b - 89"
    and cur: "t_cursors (pg_tables db') (1, lz_ProtocolName) = Some b"
    using backfill_complete [of demo_flags, unfolded f, OF _ _ _ demo_manager, of demo_dialled ?d demo_lz_geth 60
        demo_headers "\<lambda>_ _ _. True" demo_logs 200 empty_pg 200] demo_dialled_ok f(5)
    by auto
  from b(2,3) obtain k where k: "unat b - 89 = 60 * k" by auto
  have "110 \<le> unat b" using b(1) by (simp add: word_le_nat_alt)
  with k b(2) have "k = 1" by presburger
  with k \<open>110 \<le> unat b\<close> have "unat b = unat (149 :: u64)" by simp
  then have "b = 149" by (simp only: word_unat_eq_iff)
  with run cur show ?thesis by blast
qed

end
