(* ===== verification/ObjectStore.thy ===== *)
theory ObjectStore
  imports ChainClient
begin

text \<open>
  The client of the object store, \<open>internal/storage/akave/client.go\<close>: its operations over the methods
  of the MinIO client it uses, and their retries.
\<close>

section \<open>The client\<close>

definition o3_maxRetries :: nat where "o3_maxRetries = 3"
definition o3_baseBackoff :: nat where "o3_baseBackoff = 1"
definition o3_backoffFactor :: nat where "o3_backoffFactor = 2"

record ObjectInfo =
  oi_Key :: string
  oi_Size :: int
  oi_LastModified :: int

text \<open>
  The library's methods, over the outside world \<open>'w\<close>, each given the bucket. A reader is what is
  left to read from it: \<open>PutObject\<close> returns what it has left of it. An object is read after it has
  been got, so reading it has an effect and a failure of its own.
\<close>

record 'w MinioClient =
  mc_BucketExists :: "string \<Rightarrow> 'w \<Rightarrow> 'w \<times> (error + bool)"
  mc_MakeBucket :: "string \<Rightarrow> 'w \<Rightarrow> 'w \<times> error option"
  mc_PutObject :: "string \<Rightarrow> string \<Rightarrow> bytes \<Rightarrow> int \<Rightarrow> 'w \<Rightarrow> ('w \<times> bytes) \<times> error option"
  mc_GetObject :: "string \<Rightarrow> string \<Rightarrow> 'w \<Rightarrow> 'w \<times> (error + ('w \<Rightarrow> 'w \<times> (error + bytes)))"
  mc_ListObjects :: "string \<Rightarrow> string \<Rightarrow> 'w \<Rightarrow> 'w \<times> (error + ObjectInfo) list"
  mc_RemoveObject :: "string \<Rightarrow> string \<Rightarrow> 'w \<Rightarrow> 'w \<times> error option"

record 'w O3 =
  o3_minio :: "'w MinioClient"
  o3_bucketName :: string

text \<open>
  The loop of \<open>withRetry\<close>. What the retried closure changes besides the world (the reader, the
  variable \<open>obj\<close>) is \<open>'a\<close>.
\<close>

function o3_retry_loop ::
    "'w runtime \<Rightarrow> ('w \<times> 'a \<Rightarrow> ('w \<times> 'a) \<times> error option) \<Rightarrow> nat \<Rightarrow> error \<Rightarrow> 'w \<times> 'a
      \<Rightarrow> ('w \<times> 'a) \<times> error option" where
  "o3_retry_loop rt f attempt lastErr s =
     (if attempt < o3_maxRetries then
        (case f s of
           (s, None) \<Rightarrow> (s, None)
         | ((w, a), Some lastErr) \<Rightarrow>
             (case rt_Err rt w of
                Some err \<Rightarrow> ((w, a), Some err)
              | None \<Rightarrow>
                  if attempt < o3_maxRetries - 1 then
                    (case rt_After rt (o3_baseBackoff * o3_backoffFactor ^ attempt) w of
                       (w, Some err) \<Rightarrow> ((w, a), Some err)
                     | (w, None) \<Rightarrow> o3_retry_loop rt f (attempt + 1) lastErr (w, a))
                  else o3_retry_loop rt f (attempt + 1) lastErr (w, a)))
      else (s, Some (Wrapf (''after '' @ dec o3_maxRetries @ '' attempts'') lastErr)))"
  by pat_completeness auto
termination
  by (relation "measure (\<lambda>(rt, f, attempt, lastErr, s). o3_maxRetries - attempt)") auto

declare o3_retry_loop.simps [simp del]

definition o3_withRetry ::
    "'w runtime \<Rightarrow> ('w \<times> 'a \<Rightarrow> ('w \<times> 'a) \<times> error option) \<Rightarrow> 'w \<times> 'a \<Rightarrow> ('w \<times> 'a) \<times> error option" where
  "o3_withRetry rt f s = o3_retry_loop rt f 0 (Errorf ''%!w(<nil>)'') s"

definition Upload :: "'w runtime \<Rightarrow> 'w O3 \<Rightarrow> string \<Rightarrow> bytes \<Rightarrow> int \<Rightarrow> 'w \<Rightarrow> 'w \<times> error option" where
  "Upload rt c key reader objectSize w =
     (case o3_withRetry rt (\<lambda>(w, reader). mc_PutObject (o3_minio c) (o3_bucketName c) key reader objectSize w)
             (w, reader) of
        ((w, _), err) \<Rightarrow> (w, err))"

text \<open>The variable \<open>obj\<close> is nil, here \<open>None\<close>, until an attempt succeeds.\<close>

definition Download ::
    "'w runtime \<Rightarrow> 'w O3 \<Rightarrow> string \<Rightarrow> 'w \<Rightarrow> 'w \<times> (error + ('w \<Rightarrow> 'w \<times> (error + bytes)) option)" where
  "Download rt c key w =
     (case o3_withRetry rt (\<lambda>(w, obj).
             case mc_GetObject (o3_minio c) (o3_bucketName c) key w of
               (w, Inl err) \<Rightarrow> ((w, None), Some err)
             | (w, Inr obj) \<Rightarrow> ((w, Some obj), None)) (w, None) of
        ((w, _), Some err) \<Rightarrow> (w, Inl err)
      | ((w, obj), None) \<Rightarrow> (w, Inr obj))"

fun collect_objects :: "(error + ObjectInfo) list \<Rightarrow> error + ObjectInfo list" where
  "collect_objects [] = Inr []"
| "collect_objects (Inl err # ch) = Inl (Wrapf ''listing objects'' err)"
| "collect_objects (Inr obj # ch) = map_sum id (\<lambda>objs. obj # objs) (collect_objects ch)"

definition List_objects :: "'w O3 \<Rightarrow> string \<Rightarrow> 'w \<Rightarrow> 'w \<times> (error + ObjectInfo list)" where
  "List_objects c prefix w =
     (case mc_ListObjects (o3_minio c) (o3_bucketName c) prefix w of (w, ch) \<Rightarrow> (w, collect_objects ch))"

definition Delete_object :: "'w O3 \<Rightarrow> string \<Rightarrow> 'w \<Rightarrow> 'w \<times> error option" where
  "Delete_object c key w = mc_RemoveObject (o3_minio c) (o3_bucketName c) key w"

definition ensureBucket :: "'w O3 \<Rightarrow> 'w \<Rightarrow> 'w \<times> error option" where
  "ensureBucket c w =
     (case mc_BucketExists (o3_minio c) (o3_bucketName c) w of
        (w, Inl err) \<Rightarrow> (w, Some (Wrapf ''checking bucket existence'' err))
      | (w, Inr exists) \<Rightarrow>
          if \<not> exists then
            (case mc_MakeBucket (o3_minio c) (o3_bucketName c) w of
               (w, Some err) \<Rightarrow> (w, Some (Wrapf (''creating bucket \"'' @ o3_bucketName c @ ''\"'') err))
             | (w, None) \<Rightarrow> (w, None))
          else (w, None))"

text \<open>\<open>minio\<close> is the outcome of \<open>minio.New\<close> on the configuration.\<close>

definition NewO3 :: "error + 'w MinioClient \<Rightarrow> Akave \<Rightarrow> 'w \<Rightarrow> 'w \<times> (error + 'w O3)" where
  "NewO3 minio cfg w =
     (case minio of
        Inl err \<Rightarrow> (w, Inl (Wrapf ''creating minio client'' err))
      | Inr mc \<Rightarrow>
          let c = \<lparr>o3_minio = mc, o3_bucketName = ak_BucketName cfg\<rparr> in
          (case ensureBucket c w of
             (w, Some err) \<Rightarrow> (w, Inl err)
           | (w, None) \<Rightarrow> (w, Inr c)))"

section \<open>What an upload stores\<close>

text \<open>
  \<open>content w\<close> is what the bucket holds. What the code relies on of \<open>PutObject\<close>: a success means that
  the reader had exactly the announced number of bytes left and that they are stored; a failure leaves the object
  alone or has stored what the reader had; other objects are left alone; and the reader is only
  ever moved forward. Of \<open>GetObject\<close> and of reading an object: they change nothing, and what is read
  without an error is the object's content.
\<close>

definition put_stores :: "('w \<Rightarrow> string \<rightharpoonup> bytes) \<Rightarrow> 'w O3 \<Rightarrow> bool" where
  "put_stores content c \<longleftrightarrow>
     (\<forall>key reader n w w' rest err.
        mc_PutObject (o3_minio c) (o3_bucketName c) key reader n w = ((w', rest), err) \<longrightarrow>
        (\<exists>pre. reader = pre @ rest) \<and>
        (if err = None then n = int (length reader) \<and> content w' = (content w)(key \<mapsto> reader)
         else content w' = content w \<or>
           n = int (length reader) \<and> content w' = (content w)(key \<mapsto> reader)))"

definition reads :: "('w \<Rightarrow> string \<rightharpoonup> bytes) \<Rightarrow> string \<Rightarrow> ('w \<Rightarrow> 'w \<times> (error + bytes)) \<Rightarrow> bool" where
  "reads content key obj \<longleftrightarrow>
     (\<forall>w w' x. obj w = (w', x) \<longrightarrow> content w' = content w \<and>
        (case x of Inl _ \<Rightarrow> True | Inr d \<Rightarrow> content w key = Some d))"

definition get_reads :: "('w \<Rightarrow> string \<rightharpoonup> bytes) \<Rightarrow> 'w O3 \<Rightarrow> bool" where
  "get_reads content c \<longleftrightarrow>
     (\<forall>key w w' r. mc_GetObject (o3_minio c) (o3_bucketName c) key w = (w', r) \<longrightarrow>
        content w' = content w \<and> (case r of Inl _ \<Rightarrow> True | Inr obj \<Rightarrow> reads content key obj))"

text \<open>Waiting does not change the bucket.\<close>

definition quiet :: "('w \<Rightarrow> string \<rightharpoonup> bytes) \<Rightarrow> 'w runtime \<Rightarrow> bool" where
  "quiet content rt \<longleftrightarrow> (\<forall>n w w' err. rt_After rt n w = (w', err) \<longrightarrow> content w' = content w)"

lemma put_storesD:
  assumes "put_stores content c"
    and "mc_PutObject (o3_minio c) (o3_bucketName c) key reader n w = ((w', rest), err)"
  shows "\<exists>pre. reader = pre @ rest"
    "err = None \<Longrightarrow> n = int (length reader) \<and> content w' = (content w)(key \<mapsto> reader)"
    "err = Some e \<Longrightarrow> content w' = content w \<or>
       n = int (length reader) \<and> content w' = (content w)(key \<mapsto> reader)"
  using assms unfolding put_stores_def by (auto simp del: of_nat_eq_iff; metis option.distinct(1))+

lemma get_readsD:
  assumes "get_reads content c" and "mc_GetObject (o3_minio c) (o3_bucketName c) key w = (w', r)"
  shows "content w' = content w" and "r = Inr obj \<Longrightarrow> reads content key obj"
  using assms(1) [unfolded get_reads_def, rule_format, OF assms(2)] by auto

lemma quietD: "quiet content rt \<Longrightarrow> rt_After rt n w = (w', err) \<Longrightarrow> content w' = content w"
  unfolding quiet_def by blast

lemma o3_withRetry_answered: "f s = (s', None) \<Longrightarrow> o3_withRetry rt f s = (s', None)"
  by (simp add: o3_withRetry_def o3_retry_loop.simps o3_maxRetries_def)

text \<open>An invariant of the retried closure and of waiting is one of the loop.\<close>

lemma o3_retry_invariant:
  assumes "\<And>s s' err. I s \<Longrightarrow> f s = (s', Some err) \<Longrightarrow> I s'"
    and "\<And>s s'. I s \<Longrightarrow> f s = (s', None) \<Longrightarrow> Q s'"
    and "\<And>n w a w' err. I (w, a) \<Longrightarrow> rt_After rt n w = (w', err) \<Longrightarrow> I (w', a)"
    and "I s" and "o3_retry_loop rt f attempt e s = (s', err)"
  shows "if err = None then Q s' else I s'"
  using assms(4,5)
proof (induction "o3_maxRetries - attempt" arbitrary: attempt e s rule: less_induct)
  case less
  show ?case
  proof (cases "attempt < o3_maxRetries")
    case False
    with less.prems show ?thesis by (subst (asm) o3_retry_loop.simps) auto
  next
    case True
    obtain w a r where f: "f s = ((w, a), r)" by (metis prod.exhaust)
    show ?thesis
    proof (cases r)
      case None
      with less.prems True f assms(2) show ?thesis by (subst (asm) o3_retry_loop.simps) auto
    next
      case (Some e1)
      have I1: "I (w, a)" using assms(1) [OF less.prems(1)] f Some by blast
      have dec: "o3_maxRetries - (attempt + 1) < o3_maxRetries - attempt" using True by simp
      show ?thesis
      proof (cases "rt_Err rt w")
        case (Some e2)
        with less.prems True f \<open>r = Some e1\<close> I1 show ?thesis
          by (subst (asm) o3_retry_loop.simps) auto
      next
        case None
        show ?thesis
        proof (cases "attempt < o3_maxRetries - 1")
          case False
          with None less.prems True f Some have "o3_retry_loop rt f (attempt + 1) e1 (w, a) = (s', err)"
            by (subst (asm) o3_retry_loop.simps) simp
          then show ?thesis by (rule less.hyps [OF dec I1])
        next
          case wait: True
          obtain w2 e2 where af: "rt_After rt (o3_baseBackoff * o3_backoffFactor ^ attempt) w = (w2, e2)"
            by (metis prod.exhaust)
          have I2: "I (w2, a)" using assms(3) [OF I1 af] .
          show ?thesis
          proof (cases e2)
            case None
            with \<open>rt_Err rt w = None\<close> less.prems True f Some wait af have
              "o3_retry_loop rt f (attempt + 1) e1 (w2, a) = (s', err)"
              by (subst (asm) o3_retry_loop.simps) simp
            then show ?thesis by (rule less.hyps [OF dec I2])
          next
            case (Some e3)
            with \<open>rt_Err rt w = None\<close> less.prems True f \<open>r = Some e1\<close> wait af I2 show ?thesis
              by (subst (asm) o3_retry_loop.simps) auto
          qed
        qed
      qed
    qed
  qed
qed

text \<open>
  C36: retried uploads never store a part of the data. Although a retry reads on where the failed
  attempt left the reader, an upload that succeeds has stored exactly the given bytes and nothing
  else, and one that fails has left every other object alone and this one as it was or with exactly
  the given bytes. A download that succeeds and is read without an error gives the stored bytes.
\<close>

theorem upload_stores:
  assumes "put_stores content c" and "quiet content rt"
    and "Upload rt c key d (int (length d)) w = (w', err)"
  shows "if err = None then content w' = (content w)(key \<mapsto> d)
     else content w' = content w \<or> content w' = (content w)(key \<mapsto> d)"
proof -
  let ?put = "\<lambda>(w, reader). mc_PutObject (o3_minio c) (o3_bucketName c) key reader (int (length d)) w"
  define I where "I = (\<lambda>(w1 :: 'a, rd :: bytes). (\<exists>pre. d = pre @ rd) \<and>
      (content w1 = content w \<or> content w1 = (content w)(key \<mapsto> d)))"
  define Q where "Q = (\<lambda>(w1 :: 'a, rd :: bytes). content w1 = (content w)(key \<mapsto> d))"
  obtain rest where loop: "o3_retry_loop rt ?put 0 (Errorf ''%!w(<nil>)'') (w, d) = ((w', rest), err)"
    using assms(3) by (auto simp: Upload_def o3_withRetry_def split: prod.splits)
  have put: "if err1 = None then Q s' else I s'" if "I s" "?put s = (s', err1)" for s s' err1
  proof -
    obtain w1 rd w2 rd' where s: "s = (w1, rd)" "s' = (w2, rd')" by (metis prod.exhaust)
    from that obtain pre where pre: "d = pre @ rd" and
      c1: "content w1 = content w \<or> content w1 = (content w)(key \<mapsto> d)" by (auto simp: I_def s)
    have m: "mc_PutObject (o3_minio c) (o3_bucketName c) key rd (int (length d)) w1 = ((w2, rd'), err1)"
      using that(2) by (simp add: s)
    note p = put_storesD [OF assms(1) m, unfolded of_nat_eq_iff]
    have "length d = length rd \<Longrightarrow> rd = d" using pre by simp
    then show ?thesis using p pre c1 by (cases err1) (auto simp: I_def Q_def s)
  qed
  have "if err = None then Q (w', rest) else I (w', rest)"
  proof (rule o3_retry_invariant [OF _ _ _ _ loop])
    show "I (w, d)" by (simp add: I_def)
    show "I (w2, a)" if "I (w1, a)" "rt_After rt n w1 = (w2, err1)" for n w1 a w2 err1
      using that(1) quietD [OF assms(2) that(2)] by (auto simp: I_def)
  qed (use put in \<open>fastforce+\<close>)
  then show ?thesis by (auto simp: I_def Q_def split: if_splits)
qed

lemma download_reads:
  assumes "get_reads content c" and "quiet content rt" and "Download rt c key w = (w', r)"
  shows "content w' = content w \<and>
     (case r of Inr (Some obj) \<Rightarrow> reads content key obj | Inr None \<Rightarrow> False | Inl _ \<Rightarrow> True)"
proof -
  let ?get = "\<lambda>(w, obj). case mc_GetObject (o3_minio c) (o3_bucketName c) key w of
      (w, Inl err) \<Rightarrow> ((w, None), Some err) | (w, Inr obj) \<Rightarrow> ((w, Some obj), None)"
  define I where "I = (\<lambda>(w1, a :: ('a \<Rightarrow> 'a \<times> (error + bytes)) option). content w1 = content w)"
  define Q where "Q = (\<lambda>(w1, a). content w1 = content w \<and> (\<exists>obj. a = Some obj \<and> reads content key obj))"
  obtain obj err where loop: "o3_retry_loop rt ?get 0 (Errorf ''%!w(<nil>)'') (w, None) = ((w', obj), err)"
    and r: "r = (case err of None \<Rightarrow> Inr obj | Some e \<Rightarrow> Inl e)"
    using assms(3) by (auto simp: Download_def o3_withRetry_def split: prod.splits option.splits)
  have get: "if err1 = None then Q s' else I s'" if "I s" "?get s = (s', err1)" for s s' err1
  proof -
    obtain w1 a where s: "s = (w1, a)" by (metis prod.exhaust)
    obtain w2 x where g: "mc_GetObject (o3_minio c) (o3_bucketName c) key w1 = (w2, x)"
      by (metis prod.exhaust)
    from get_readsD [OF assms(1) g] that g show ?thesis
      by (cases x) (auto simp: I_def Q_def s)
  qed
  have "if err = None then Q (w', obj) else I (w', obj)"
  proof (rule o3_retry_invariant [OF _ _ _ _ loop])
    show "I (w, None)" by (simp add: I_def)
    show "I (w2, a)" if "I (w1, a)" "rt_After rt n w1 = (w2, err1)" for n w1 a w2 err1
      using that(1) quietD [OF assms(2) that(2)] by (auto simp: I_def)
  qed (use get in \<open>fastforce+\<close>)
  then show ?thesis by (auto simp: I_def Q_def r split: if_splits option.splits)
qed

section \<open>Examples\<close>

text \<open>
  A bucket whose first write fails after reading half of the data; the world is the number of writes
  and the objects.
\<close>

definition flaky_minio :: "(nat \<times> (string \<rightharpoonup> bytes)) MinioClient" where
  "flaky_minio = \<lparr>mc_BucketExists = (\<lambda>b w. (w, Inr True)), mc_MakeBucket = (\<lambda>b w. (w, None)),
     mc_PutObject = (\<lambda>b key reader n (k, objs).
        if k = 0 \<or> n \<noteq> int (length reader)
        then (((k + 1, objs), drop (length reader div 2) reader), Some (Errorf ''connection reset''))
        else (((k + 1, objs(key \<mapsto> reader)), []), None)),
     mc_GetObject = (\<lambda>b key w. (w, Inr (\<lambda>w.
        (w, case snd w key of None \<Rightarrow> Inl (Errorf ''NoSuchKey'') | Some d \<Rightarrow> Inr d)))),
     mc_ListObjects = (\<lambda>b prefix w. (w, [])), mc_RemoveObject = (\<lambda>b key (k, objs). ((k, objs(key := None)), None))\<rparr>"

definition flaky_runtime :: "(nat \<times> (string \<rightharpoonup> bytes)) runtime" where
  "flaky_runtime = \<lparr>rt_Wait = (\<lambda>w. (w, None)), rt_Err = (\<lambda>w. None), rt_After = (\<lambda>n w. (w, None)),
     rt_Sleep = (\<lambda>d w. w), rt_Now = (\<lambda>w. 0)\<rparr>"

definition flaky_o3 :: "(nat \<times> (string \<rightharpoonup> bytes)) O3" where
  "flaky_o3 = \<lparr>o3_minio = flaky_minio, o3_bucketName = ''archive''\<rparr>"

lemma flaky_ok: "put_stores snd flaky_o3" "get_reads snd flaky_o3" "quiet snd flaky_runtime"
  unfolding put_stores_def get_reads_def quiet_def reads_def
  by (auto simp: flaky_o3_def flaky_minio_def flaky_runtime_def split: if_splits option.splits
      intro: exI [of _ "take (length _ div 2) _"] append_take_drop_id [symmetric])

text \<open>The retried upload fails for want of data, and has stored none.\<close>

theorem upload_stores_witness:
  "\<exists>w' err. Upload flaky_runtime flaky_o3 ''k'' [1, 2] 2 (0, Map.empty) = (w', Some err) \<and> snd w' ''k'' \<noteq> Some [2]"
proof -
  obtain w' err where u: "Upload flaky_runtime flaky_o3 ''k'' [1, 2] 2 (0, Map.empty) = (w', err)"
    by (metis prod.exhaust)
  then have "err \<noteq> None"
    by (auto simp: Upload_def o3_withRetry_def o3_retry_loop.simps o3_maxRetries_def flaky_o3_def flaky_minio_def
        flaky_runtime_def)
  with upload_stores [OF flaky_ok(1,3), of "''k''" "[1, 2]" "(0, Map.empty)" w' err] u show ?thesis
    by auto
qed

end
