(* ===== verification/Archive.thy ===== *)
theory Archive
  imports ObjectStore Pagination
begin

text \<open>
  The archiver, \<open>internal/archiver\<close>: the flattened records of a month (\<open>store.go\<close>, \<open>record.go\<close>), the
  manifest (\<open>manifest.go\<close>), and the cycle that writes the finished months of every protocol and chain
  to the object store and records them (\<open>archiver.go\<close>). Parquet, SHA-256 and JSON are the libraries':
  they are parameters.
\<close>

section \<open>Records (record.go)\<close>

record ParquetRecord =
  pq_MessageID :: string
  pq_Protocol :: string
  pq_Type :: string
  pq_Status :: string
  pq_CreatedAt :: int
  pq_UpdatedAt :: int
  pq_SrcChainID :: u64
  pq_SrcTxHash :: string
  pq_SrcBlockNumber :: u64
  pq_SrcTimestamp :: int
  pq_SrcSender :: string
  pq_SrcLogIndex :: int
  pq_DstChainID :: "u64 option"
  pq_DstTxHash :: "string option"
  pq_DstBlockNumber :: "u64 option"
  pq_DstTimestamp :: "int option"
  pq_DstReceiver :: "string option"
  pq_DstLogIndex :: "int option"
  pq_PayloadToken :: "string option"
  pq_PayloadAmount :: "string option"
  pq_PayloadData :: "string option"
  pq_PayloadNonce :: "u64 option"
  pq_MetaFee :: "string option"
  pq_MetaRelayer :: "string option"
  pq_MetaGasUsed :: "u64 option"
  pq_MetaLatencySeconds :: "int option"

text \<open>A log index is an \<open>INTEGER\<close> column, read as an \<open>int32\<close>.\<close>

definition int32_of :: "u64 \<Rightarrow> int" where
  "int32_of x = sint (ucast x :: 32 word)"

text \<open>One row of the query of \<open>FetchRecordsForArchival\<close>: the source is joined, the rest left joined.\<close>

definition scan_record :: "tables \<Rightarrow> string \<Rightarrow> ParquetRecord option" where
  "scan_record t mid =
     (case (t_messages t mid, t_sources t mid) of
        (Some row, Some src) \<Rightarrow>
          let d = t_destinations t mid; p = t_payloads t mid; md = t_metadata t mid in
          Some \<lparr>pq_MessageID = mid, pq_Protocol = mr_protocol row, pq_Type = mr_type row,
            pq_Status = mr_status row, pq_CreatedAt = mr_created row, pq_UpdatedAt = mr_updated row,
            pq_SrcChainID = src_ChainID src, pq_SrcTxHash = src_TxHash src,
            pq_SrcBlockNumber = src_BlockNumber src, pq_SrcTimestamp = src_Timestamp src,
            pq_SrcSender = src_Sender src, pq_SrcLogIndex = int32_of (src_LogIndex src),
            pq_DstChainID = map_option dst_ChainID d, pq_DstTxHash = map_option dst_TxHash d,
            pq_DstBlockNumber = map_option dst_BlockNumber d, pq_DstTimestamp = map_option dst_Timestamp d,
            pq_DstReceiver = map_option dst_Receiver d,
            pq_DstLogIndex = map_option (\<lambda>d. int32_of (dst_LogIndex d)) d,
            pq_PayloadToken = Option.bind p pr_token, pq_PayloadAmount = Option.bind p pr_amount,
            pq_PayloadData = Option.bind p pr_data, pq_PayloadNonce = Option.bind p pr_nonce,
            pq_MetaFee = Option.bind md mt_fee, pq_MetaRelayer = Option.bind md mt_relayer,
            pq_MetaGasUsed = Option.bind md mt_gas_used, pq_MetaLatencySeconds = Option.bind md mt_latency\<rparr>
      | _ \<Rightarrow> None)"

section \<open>The store (store.go)\<close>

text \<open>The query's \<open>WHERE\<close> and \<open>ORDER BY\<close>.\<close>

definition in_period :: "string \<Rightarrow> u64 \<Rightarrow> int \<Rightarrow> int \<Rightarrow> ParquetRecord \<Rightarrow> bool" where
  "in_period protocol chainID fromTimestamp toTimestamp r \<longleftrightarrow>
     pq_Protocol r = protocol \<and> pq_SrcChainID r = chainID \<and>
     pq_SrcTimestamp r \<ge> fromTimestamp \<and> pq_SrcTimestamp r < toTimestamp"

definition record_le :: "ParquetRecord \<Rightarrow> ParquetRecord \<Rightarrow> bool" where
  "record_le a b \<longleftrightarrow>
     pq_SrcTimestamp a < pq_SrcTimestamp b \<or> pq_SrcTimestamp a = pq_SrcTimestamp b \<and>
       (pq_SrcBlockNumber a < pq_SrcBlockNumber b \<or> pq_SrcBlockNumber a = pq_SrcBlockNumber b \<and>
         pq_SrcLogIndex a \<le> pq_SrcLogIndex b)"

definition period_records :: "pg \<Rightarrow> string \<Rightarrow> u64 \<Rightarrow> int \<Rightarrow> int \<Rightarrow> tables \<Rightarrow> ParquetRecord list" where
  "period_records s protocol chainID fromTimestamp toTimestamp t =
     order_by record_le (filter (in_period protocol chainID fromTimestamp toTimestamp)
       (List.map_filter (scan_record t) (pg_plan s (t_ids t))))"

definition FetchRecordsForArchival ::
    "string \<Rightarrow> u64 \<Rightarrow> int \<Rightarrow> int \<Rightarrow> pg \<Rightarrow> pg \<times> (error + ParquetRecord list)" where
  "FetchRecordsForArchival protocol chainID fromTimestamp toTimestamp s =
     query_rows ''querying records for archival'' ''iterating rows''
       (period_records s protocol chainID fromTimestamp toTimestamp) s"

record ArchivalRecord =
  ac_Protocol :: string
  ac_ChainID :: u64
  ac_YearMonth :: string
  ac_RowCount :: int
  ac_MinTimestamp :: int
  ac_MaxTimestamp :: int
  ac_FileSize :: int
  ac_ObjectKey :: string
  ac_Checksum :: string
  ac_ArchivedAt :: int

text \<open>
  What the archiver changes: the database, of which the rows of \<open>archival_cursors\<close> are kept apart,
  and the outside world. The primary key is \<open>(protocol, chain_id, year_month)\<close>.
\<close>

record 'w arch =
  ar_pg :: pg
  ar_rows :: "ArchivalRecord list"
  ar_world :: 'w

definition row_key :: "ArchivalRecord \<Rightarrow> string \<times> u64 \<times> string" where
  "row_key r = (ac_Protocol r, ac_ChainID r, ac_YearMonth r)"

fun upsert_row :: "ArchivalRecord \<Rightarrow> ArchivalRecord list \<Rightarrow> ArchivalRecord list" where
  "upsert_row rec [] = [rec]"
| "upsert_row rec (r # rs) = (if row_key r = row_key rec then rec # rs else r # upsert_row rec rs)"

definition UpsertArchivalCursor :: "ArchivalRecord \<Rightarrow> 'w arch \<Rightarrow> 'w arch \<times> error option" where
  "UpsertArchivalCursor rec s =
     (if fault (ar_pg s)
      then (s\<lparr>ar_pg := tick (ar_pg s)\<rparr>, Some (Wrapf ''upserting archival cursor'' DbError))
      else (s\<lparr>ar_pg := tick (ar_pg s),
              ar_rows := upsert_row (rec\<lparr>ac_ArchivedAt := pg_now (ar_pg s)\<rparr>) (ar_rows s)\<rparr>, None))"

text \<open>\<open>ORDER BY protocol, chain_id, year_month\<close>; \<open>le\<close> compares texts.\<close>

definition row_le :: "(string \<Rightarrow> string \<Rightarrow> bool) \<Rightarrow> ArchivalRecord \<Rightarrow> ArchivalRecord \<Rightarrow> bool" where
  "row_le le a b \<longleftrightarrow>
     (if ac_Protocol a \<noteq> ac_Protocol b then le (ac_Protocol a) (ac_Protocol b)
      else if ac_ChainID a \<noteq> ac_ChainID b then ac_ChainID a < ac_ChainID b
      else le (ac_YearMonth a) (ac_YearMonth b))"

definition ListArchivalCursors ::
    "(string \<Rightarrow> string \<Rightarrow> bool) \<Rightarrow> 'w arch \<Rightarrow> 'w arch \<times> (error + ArchivalRecord list)" where
  "ListArchivalCursors le s =
     (if fault (ar_pg s)
      then (s\<lparr>ar_pg := tick (ar_pg s)\<rparr>, Inl (Wrapf ''listing archival cursors'' DbError))
      else let p = tick (ar_pg s) in
        (s\<lparr>ar_pg := tick p\<rparr>, if fault p then Inl DbError else Inr (order_by (row_le le) (ar_rows s))))"

section \<open>The manifest (manifest.go)\<close>

definition ManifestKey :: string where "ManifestKey = ''manifests/index.json''"

record ManifestEntry =
  me_ObjectKey :: string
  me_Protocol :: string
  me_ChainID :: u64
  me_ChainName :: string
  me_YearMonth :: string
  me_RowCount :: int
  me_FileSize :: int
  me_Checksum :: string
  me_MinTimestamp :: int
  me_MaxTimestamp :: int
  me_ArchivedAt :: int

record Manifest =
  mn_Version :: int
  mn_UpdatedAt :: int
  mn_TotalFiles :: int
  mn_TotalRows :: int
  mn_Files :: "ManifestEntry list"

text \<open>A chain without a configured name, or with an empty one, is called after its id.\<close>

definition chain_name :: "(u64 \<rightharpoonup> string) \<Rightarrow> u64 \<Rightarrow> string" where
  "chain_name chainNames chainID =
     (let name = (case chainNames chainID of None \<Rightarrow> [] | Some n \<Rightarrow> n) in
      if name = [] then ''chain_'' @ dec_word chainID else name)"

fun manifest_loop ::
    "(u64 \<rightharpoonup> string) \<Rightarrow> ArchivalRecord list \<Rightarrow> ManifestEntry list \<Rightarrow> int \<Rightarrow> ManifestEntry list \<times> int" where
  "manifest_loop chainNames [] entries totalRows = (entries, totalRows)"
| "manifest_loop chainNames (r # rs) entries totalRows =
     manifest_loop chainNames rs
       (entries @ [\<lparr>me_ObjectKey = ac_ObjectKey r, me_Protocol = ac_Protocol r, me_ChainID = ac_ChainID r,
          me_ChainName = chain_name chainNames (ac_ChainID r), me_YearMonth = ac_YearMonth r,
          me_RowCount = ac_RowCount r, me_FileSize = ac_FileSize r, me_Checksum = ac_Checksum r,
          me_MinTimestamp = ac_MinTimestamp r, me_MaxTimestamp = ac_MaxTimestamp r,
          me_ArchivedAt = ac_ArchivedAt r\<rparr>])
       (totalRows + ac_RowCount r)"

definition BuildManifest :: "ArchivalRecord list \<Rightarrow> (u64 \<rightharpoonup> string) \<Rightarrow> int \<Rightarrow> Manifest" where
  "BuildManifest records chainNames now =
     (case manifest_loop chainNames records [] 0 of
        (entries, totalRows) \<Rightarrow>
          \<lparr>mn_Version = 1, mn_UpdatedAt = now, mn_TotalFiles = int (length entries),
           mn_TotalRows = totalRows, mn_Files = entries\<rparr>)"

section \<open>Months\<close>

definition is_leap :: "nat \<Rightarrow> bool" where
  "is_leap y \<longleftrightarrow> y mod 4 = 0 \<and> (y mod 100 \<noteq> 0 \<or> y mod 400 = 0)"

definition days_in_month :: "nat \<Rightarrow> nat \<Rightarrow> nat" where
  "days_in_month y m =
     (if m = 2 then (if is_leap y then 29 else 28) else if m \<in> {4, 6, 9, 11} then 30 else 31)"

text \<open>
  The \<open>k\<close>-th month from January 2020 on, which is where the scan starts: its first second, as
  \<open>AddDate(0, 1, 0)\<close> moves it on, and its name.
\<close>

definition scanStart :: int where "scanStart = 1577836800"

fun month_unix :: "nat \<Rightarrow> int" where
  "month_unix 0 = scanStart"
| "month_unix (Suc k) = month_unix k + 86400 * int (days_in_month (2020 + k div 12) (k mod 12 + 1))"

definition year_month :: "nat \<Rightarrow> string" where
  "year_month k = dec (2020 + k div 12) @ ''-'' @
     (if k mod 12 + 1 < 10 then ''0'' else []) @ dec (k mod 12 + 1)"

lemma month_step: "month_unix k < month_unix (Suc k)"
  by (simp add: days_in_month_def)

text \<open>The start of the month of a time; a time before the scan gives its start.\<close>

function month_start :: "nat \<Rightarrow> int \<Rightarrow> int" where
  "month_start k now = (if month_unix (Suc k) \<le> now then month_start (Suc k) now else month_unix k)"
  by pat_completeness auto
termination
proof (relation "measure (\<lambda>(k, now). nat (now - month_unix k))")
  show "((Suc k, now), k, now) \<in> measure (\<lambda>(k, now). nat (now - month_unix k))"
    if "month_unix (Suc k) \<le> now" for k now
    using month_step [of k] that by (simp only: in_measure split_conv)
qed simp

declare month_start.simps [simp del] month_unix.simps(2) [simp del]

section \<open>The archiver (archiver.go)\<close>

text \<open>
  \<open>pl_Write\<close> and \<open>pl_Close\<close> are the methods of the Parquet writer, \<open>pl_Read\<close> the reader; \<open>av_json\<close> is the JSON
  encoder, \<open>av_Now\<close> is \<open>time.Now\<close> in seconds.
\<close>

record parquet =
  pl_Write :: "ParquetRecord list \<Rightarrow> error option"
  pl_Close :: "ParquetRecord list \<Rightarrow> error + bytes"
  pl_Read :: "bytes \<Rightarrow> error + ParquetRecord list"

record 'w Archiver =
  av_rt :: "'w runtime"
  av_o3 :: "'w O3"
  av_chainNames :: "u64 \<rightharpoonup> string"
  av_protocols :: "string list"
  av_chainIDs :: "u64 list"
  av_parquet :: parquet
  av_sha256 :: "bytes \<Rightarrow> bytes"
  av_json :: "Manifest \<Rightarrow> error + bytes"
  av_Now :: "'w \<Rightarrow> int"
  av_le :: "string \<Rightarrow> string \<Rightarrow> bool"

definition WriteParquet :: "parquet \<Rightarrow> ParquetRecord list \<Rightarrow> error + bytes" where
  "WriteParquet pl records =
     (if length records = 0 then Inl (Errorf ''no records to write'')
      else
        (case pl_Write pl records of
           Some err \<Rightarrow> Inl (Wrapf ''writing parquet records'' err)
         | None \<Rightarrow>
             (case pl_Close pl records of
                Inl err \<Rightarrow> Inl (Wrapf ''closing parquet writer'' err)
              | Inr buf \<Rightarrow> Inr buf)))"

definition ReadParquet :: "parquet \<Rightarrow> bytes \<Rightarrow> error + ParquetRecord list" where
  "ReadParquet pl data =
     (case pl_Read pl data of
        Inl err \<Rightarrow> Inl (Wrapf ''reading parquet records'' err)
      | Inr records \<Rightarrow> Inr records)"

definition MarshalManifest :: "'w Archiver \<Rightarrow> Manifest \<Rightarrow> error + bytes" where
  "MarshalManifest a m =
     (case av_json a m of Inl err \<Rightarrow> Inl (Wrapf ''marshaling manifest'' err) | Inr buf \<Rightarrow> Inr buf)"

definition checksum_of :: "'w Archiver \<Rightarrow> bytes \<Rightarrow> string" where
  "checksum_of a data = EncodeToString (av_sha256 a data)"

definition object_key :: "'w Archiver \<Rightarrow> string \<Rightarrow> u64 \<Rightarrow> nat \<Rightarrow> string" where
  "object_key a protocol chainID k =
     ''protocols/'' @ protocol @ ''/'' @ chain_name (av_chainNames a) chainID @ ''/'' @ year_month k @ ''.parquet''"

text \<open>An operation on the outside world.\<close>

definition on_world :: "('w \<Rightarrow> 'w \<times> 'r) \<Rightarrow> 'w arch \<Rightarrow> 'w arch \<times> 'r" where
  "on_world f s = (case f (ar_world s) of (w, r) \<Rightarrow> (s\<lparr>ar_world := w\<rparr>, r))"

definition on_db :: "(pg \<Rightarrow> pg \<times> 'r) \<Rightarrow> 'w arch \<Rightarrow> 'w arch \<times> 'r" where
  "on_db f s = (case f (ar_pg s) of (p, r) \<Rightarrow> (s\<lparr>ar_pg := p\<rparr>, r))"

text \<open>A download gives no nil object (\<open>download_reads\<close>); the branch stands for the panic.\<close>

definition verifyUpload :: "'w Archiver \<Rightarrow> string \<Rightarrow> string \<Rightarrow> int \<Rightarrow> 'w \<Rightarrow> 'w \<times> error option" where
  "verifyUpload a objectKey expectedChecksum expectedSize w =
     (case Download (av_rt a) (av_o3 a) objectKey w of
        (w, Inl err) \<Rightarrow> (w, Some (Wrapf ''downloading for verification'' err))
      | (w, Inr None) \<Rightarrow> (w, Some (Errorf ''nil object''))
      | (w, Inr (Some obj)) \<Rightarrow>
          (case obj w of
             (w, Inl err) \<Rightarrow> (w, Some (Wrapf ''reading for checksum'' err))
           | (w, Inr data) \<Rightarrow>
               let n = int (length data); got = checksum_of a data in
               if n \<noteq> expectedSize
               then (w, Some (Errorf (''size mismatch: got '' @ dec_int n @ '' want '' @ dec_int expectedSize)))
               else if got \<noteq> expectedChecksum
               then (w, Some (Errorf (''checksum mismatch: got '' @ got @ '' want '' @ expectedChecksum)))
               else (w, None)))"

text \<open>The loop over the records for the least and the greatest timestamp.\<close>

definition time_range :: "ParquetRecord list \<Rightarrow> int \<times> int" where
  "time_range records =
     (let t0 = pq_SrcTimestamp (hd records) in
      foldl (\<lambda>(minTS, maxTS) r.
         (if pq_SrcTimestamp r < minTS then pq_SrcTimestamp r else minTS,
          if pq_SrcTimestamp r > maxTS then pq_SrcTimestamp r else maxTS)) (t0, t0) (tl records))"

text \<open>
  The body of the loop of \<open>archiveChainProtocol\<close> after the check of the context: the number of files
  archived, or the error it returns. A failed verification is only logged.
\<close>

definition archive_month ::
    "'w Archiver \<Rightarrow> string \<Rightarrow> u64 \<Rightarrow> nat \<Rightarrow> 'w arch \<Rightarrow> 'w arch \<times> (error + nat)" where
  "archive_month a protocol chainID k s =
     (case on_db (FetchRecordsForArchival protocol chainID (month_unix k) (month_unix (Suc k))) s of
        (s, Inl err) \<Rightarrow>
          (s, Inl (Wrapf (''fetching records for '' @ protocol @ '' chain '' @ dec_word chainID @ '' ''
                          @ year_month k) err))
      | (s, Inr records) \<Rightarrow>
          if length records = 0 then (s, Inr 0)
          else
            let objectKey = object_key a protocol chainID k in
            (case WriteParquet (av_parquet a) records of
               Inl err \<Rightarrow> (s, Inl (Wrapf (''writing parquet for '' @ objectKey) err))
             | Inr buf \<Rightarrow>
                 let checksum = checksum_of a buf in
                 (case on_world (Upload (av_rt a) (av_o3 a) objectKey buf (int (length buf))) s of
                    (s, Some err) \<Rightarrow> (s, Inl (Wrapf (''uploading '' @ objectKey) err))
                  | (s, None) \<Rightarrow>
                      (case on_world (verifyUpload a objectKey checksum (int (length buf))) s of
                         (s, _) \<Rightarrow>
                           (case UpsertArchivalCursor
                                   \<lparr>ac_Protocol = protocol, ac_ChainID = chainID, ac_YearMonth = year_month k,
                                    ac_RowCount = int (length records), ac_MinTimestamp = fst (time_range records),
                                    ac_MaxTimestamp = snd (time_range records), ac_FileSize = int (length buf),
                                    ac_ObjectKey = objectKey, ac_Checksum = checksum, ac_ArchivedAt = 0\<rparr> s of
                              (s, Some err) \<Rightarrow>
                                (s, Inl (Wrapf (''recording archival cursor for '' @ objectKey) err))
                            | (s, None) \<Rightarrow> (s, Inr 1))))))"

function archive_months ::
    "'w Archiver \<Rightarrow> string \<Rightarrow> u64 \<Rightarrow> int \<Rightarrow> nat \<Rightarrow> nat \<Rightarrow> 'w arch \<Rightarrow> 'w arch \<times> nat \<times> error option" where
  "archive_months a protocol chainID beforeMonth k files s =
     (if month_unix k < beforeMonth then
        (case rt_Err (av_rt a) (ar_world s) of
           Some err \<Rightarrow> (s, files, Some err)
         | None \<Rightarrow>
             (case archive_month a protocol chainID k s of
                (s, Inl err) \<Rightarrow> (s, files, Some err)
              | (s, Inr n) \<Rightarrow> archive_months a protocol chainID beforeMonth (Suc k) (files + n) s))
      else (s, files, None))"
  by pat_completeness auto
termination
proof (relation "measure (\<lambda>(a, protocol, chainID, beforeMonth, k, files, s). nat (beforeMonth - month_unix k))")
qed (use month_step in \<open>auto intro!: zless_nat_conj [THEN iffD2]\<close>)

declare archive_months.simps [simp del]

definition archiveChainProtocol ::
    "'w Archiver \<Rightarrow> string \<Rightarrow> u64 \<Rightarrow> int \<Rightarrow> 'w arch \<Rightarrow> 'w arch \<times> nat \<times> error option" where
  "archiveChainProtocol a protocol chainID beforeMonth s = archive_months a protocol chainID beforeMonth 0 0 s"

text \<open>The two loops of \<open>runCycle\<close>: the files of a pair that failed are not counted.\<close>

fun cycle_pairs ::
    "'w Archiver \<Rightarrow> int \<Rightarrow> (string \<times> u64) list \<Rightarrow> nat \<Rightarrow> 'w arch \<Rightarrow> 'w arch \<times> nat" where
  "cycle_pairs a before [] archived s = (s, archived)"
| "cycle_pairs a before ((protocol, chainID) # rest) archived s =
     (case archiveChainProtocol a protocol chainID before s of
        (s, n, Some err) \<Rightarrow> cycle_pairs a before rest archived s
      | (s, n, None) \<Rightarrow> cycle_pairs a before rest (archived + n) s)"

definition updateManifest :: "'w Archiver \<Rightarrow> 'w arch \<Rightarrow> 'w arch \<times> error option" where
  "updateManifest a s =
     (case ListArchivalCursors (av_le a) s of
        (s, Inl err) \<Rightarrow> (s, Some (Wrapf ''listing archival cursors'' err))
      | (s, Inr cursors) \<Rightarrow>
          let manifest = BuildManifest cursors (av_chainNames a) (av_Now a (ar_world s)) in
          (case MarshalManifest a manifest of
             Inl err \<Rightarrow> (s, Some err)
           | Inr buf \<Rightarrow>
               (case on_world (Upload (av_rt a) (av_o3 a) ManifestKey buf (int (length buf))) s of
                  (s, Some err) \<Rightarrow> (s, Some (Wrapf ''uploading manifest'' err))
                | (s, None) \<Rightarrow> (s, None))))"

definition runCycle :: "'w Archiver \<Rightarrow> 'w arch \<Rightarrow> 'w arch \<times> error option" where
  "runCycle a s =
     (let currentMonthStart = month_start 0 (av_Now a (ar_world s)) in
      case cycle_pairs a currentMonthStart (List.product (av_protocols a) (av_chainIDs a)) 0 s of
        (s, archived) \<Rightarrow>
          if archived > 0 then
            (case updateManifest a s of
               (s, Some err) \<Rightarrow> (s, Some (Wrapf ''updating manifest'' err))
             | (s, None) \<Rightarrow> (s, None))
          else (s, None))"

text \<open>
  \<open>Run\<close>: a cycle at once and one after each tick until the context is done. \<open>ticks\<close> says what each
  \<open>select\<close> finds: the context's error, or a tick with the outside world as it is then.
\<close>

fun run_ticks :: "'w Archiver \<Rightarrow> (error + ('w \<Rightarrow> 'w)) list \<Rightarrow> 'w arch \<Rightarrow> 'w arch \<times> error option" where
  "run_ticks a [] s = (s, None)"
| "run_ticks a (Inl err # ticks) s = (s, Some err)"
| "run_ticks a (Inr wait # ticks) s = run_ticks a ticks (fst (runCycle a (s\<lparr>ar_world := wait (ar_world s)\<rparr>)))"

definition Run :: "'w Archiver \<Rightarrow> (error + ('w \<Rightarrow> 'w)) list \<Rightarrow> 'w arch \<Rightarrow> 'w arch \<times> error option" where
  "Run a ticks s = run_ticks a ticks (fst (runCycle a s))"

end
