(* ===== verification/Reorg.thy ===== *)
theory Reorg
  imports Equivalence
begin

text \<open>
  What the handling of a reorganisation does (\<open>checkAndHandleReorg\<close> in \<open>processor.go\<close>), with the
  PostgreSQL stores and endpoints that serve the headers of the present chain: when it is noticed,
  how far the cursor goes back, and what stays in the database.
\<close>

section \<open>Where the walk back ends\<close>

text \<open>The recorded hash of a block, empty when there is none.\<close>

definition stored_hash :: "pg \<Rightarrow> u64 \<Rightarrow> u64 \<Rightarrow> string" where
  "stored_hash s c b = (case pg_hash s c b of None \<Rightarrow> [] | Some h \<Rightarrow> fst h)"

text \<open>
  The first block from \<open>n\<close> downwards that is 0, has no recorded hash or has the hash of the present
  chain.
\<close>

definition rewind_point :: "(u64 \<Rightarrow> header) \<Rightarrow> (u64 \<Rightarrow> string) \<Rightarrow> u64 \<Rightarrow> u64 \<Rightarrow> bool" where
  "rewind_point H st n m \<longleftrightarrow> m \<le> n \<and> (m = 0 \<or> st m \<in> {[], hd_Hash (H m)}) \<and>
     (\<forall>k. m < k \<and> k \<le> n \<longrightarrow> st k \<notin> {[], hd_Hash (H k)})"

lemma rewind_point_not_less:
  assumes "rewind_point H st n m" and "rewind_point H st n k"
  shows "\<not> m < k"
proof
  assume mk: "m < k"
  with assms have "st k \<notin> {[], hd_Hash (H k)}" by (simp add: rewind_point_def)
  moreover have "k \<noteq> 0" using mk by auto
  ultimately show False using assms(2) by (auto simp: rewind_point_def)
qed

lemma rewind_point_unique: "rewind_point H st n m \<Longrightarrow> rewind_point H st n k \<Longrightarrow> m = k"
  using rewind_point_not_less [of H st n m k] rewind_point_not_less [of H st n k m] by auto

lemma pred_le_iff:
  fixes n :: u64
  assumes "0 < n"
  shows "k \<le> n - 1 \<longleftrightarrow> k < n"
proof -
  have "unat (n - 1) = unat n - 1" "0 < unat n"
    using assms by (simp_all add: unat_minus_one word_gt_0 unat_gt_0)
  then show ?thesis by (auto simp: word_le_nat_alt word_less_nat_alt)
qed

lemma rewind_point_down:
  assumes "rewind_point H st (n - 1) m" and "0 < n" and "st n \<notin> {[], hd_Hash (H n)}"
  shows "rewind_point H st n m"
  unfolding rewind_point_def
proof (intro conjI allI impI)
  have m: "m < n" using assms(1,2) pred_le_iff by (simp add: rewind_point_def)
  then show "m \<le> n" by simp
  show "m = 0 \<or> st m \<in> {[], hd_Hash (H m)}" using assms(1) by (simp add: rewind_point_def)
  fix k assume k: "m < k \<and> k \<le> n"
  show "st k \<notin> {[], hd_Hash (H k)}"
  proof (cases "k = n")
    case True
    with assms(3) show ?thesis by simp
  next
    case False
    with k have "k < n" by (simp add: order_le_neq_trans)
    with k assms(1) pred_le_iff [OF assms(2), of k] show ?thesis by (simp add: rewind_point_def)
  qed
qed

text \<open>The endpoints serve the headers \<open>H\<close>.\<close>

definition serves_headers :: "(u64 \<Rightarrow> header) \<Rightarrow> 'w Client \<Rightarrow> bool" where
  "serves_headers H c \<longleftrightarrow> (\<forall>ec \<in> set (cl_endpoints c). \<forall>n w w' h.
     ec_HeaderByNumber ec n w = (w', Inr h) \<longrightarrow> h = H n)"

lemma live_header:
  assumes "responsive rt (pc_client p)" and "serves_headers H (pc_client p)"
  shows "\<exists>p'. on_client (BlockHeader rt n) p = (p', Inr (H n)) \<and> pc_store p' = pc_store p \<and>
     pc_cursor p' = pc_cursor p \<and> responsive rt (pc_client p') \<and> serves_headers H (pc_client p')"
proof -
  obtain p' r where c: "on_client (BlockHeader rt n) p = (p', r)" by (cases "on_client (BlockHeader rt n) p")
  note fr = on_client_frame [OF c]
  obtain h where h: "r = Inr h"
    using fr responsive_answers(2) [OF assms(1), of n "pc_world p"] by auto
  have cs: "client_same (pc_client p) (pc_client p')" using fr by (auto intro: client_ops_same(2))
  have "withRetry rt (limited rt (\<lambda>ec. ec_HeaderByNumber ec n)) (pc_client p) (pc_world p) =
      ((pc_client p', pc_world p'), Inr h)"
    using fr h by (auto simp: BlockHeader_def split: prod.splits sum.splits)
  moreover have "cl_endpoints (pc_client p) \<noteq> []" using assms(1) by (auto simp: responsive_def)
  ultimately have "h = H n"
    using assms(2) withRetry_limited_Inr by (fastforce simp: serves_headers_def)
  with c h fr assms responsive_same [OF cs] client_same_simps(1) [OF cs] show ?thesis
    by (auto simp: serves_headers_def)
qed

lemma stored_get:
  assumes "pg_faults (pc_store p) = []"
  shows "\<exists>q. on_store (bs_GetBlockHash PostgresBlockHashStore i b) p = (p, Inr q) \<and>
     fst q = stored_hash (pc_store p) i b"
proof -
  obtain p' q where g: "on_store (bs_GetBlockHash PostgresBlockHashStore i b) p = (p', q)"
    by (cases "on_store (bs_GetBlockHash PostgresBlockHashStore i b) p")
  from get_hash_fault_free [OF assms g refl] g show ?thesis
    by (auto simp: stored_hash_def split: option.splits)
qed

lemma walk_back_point:
  assumes "pg_faults (pc_store p) = []" and "responsive (ev_rt e) (pc_client p)"
    and "serves_headers H (pc_client p)"
  shows "\<exists>p' m. walk_back e PostgresBlockHashStore n p = (p', m) \<and> pc_store p' = pc_store p \<and>
     pc_cursor p' = pc_cursor p \<and> rewind_point H (stored_hash (pc_store p) (ev_chainID e)) n m"
  using assms
proof (induction "unat n" arbitrary: n p rule: less_induct)
  case less
  let ?st = "stored_hash (pc_store p) (ev_chainID e)"
  obtain q where g: "on_store (bs_GetBlockHash PostgresBlockHashStore (ev_chainID e) n) p = (p, Inr q)"
    and q: "fst q = ?st n" using stored_get [OF less.prems(1)] by blast
  obtain p2 where h: "on_client (BlockHeader (ev_rt e) n) p = (p2, Inr (H n))"
    and p2: "pc_store p2 = pc_store p" "pc_cursor p2 = pc_cursor p"
      "responsive (ev_rt e) (pc_client p2)" "serves_headers H (pc_client p2)"
    using live_header [OF less.prems(2,3)] by blast
  obtain a b where ab: "q = (a, b)" by (cases q)
  have a: "?st n = a" using q ab by simp
  have here: "rewind_point H ?st n n" if "n = 0 \<or> ?st n \<in> {[], hd_Hash (H n)}"
    using that by (auto simp: rewind_point_def)
  consider "n = 0" | "0 < n" "a = []" | "0 < n" "a \<noteq> []" "hd_Hash (H n) = a"
    | "0 < n" "a \<noteq> []" "hd_Hash (H n) \<noteq> a"
    by (auto simp: word_gt_0)
  then show ?case
  proof cases
    case 1
    then show ?thesis using here by (subst walk_back.simps) simp
  next
    case 2
    then show ?thesis using here a g ab by (subst walk_back.simps) simp
  next
    case 3
    then show ?thesis using here a g ab h p2 by (subst walk_back.simps) simp
  next
    case 4
    have lt: "unat (n - 1) < unat n" using 4(1) by (simp add: unat_minus_one word_gt_0 unat_gt_0)
    have "pg_faults (pc_store p2) = []" using p2(1) less.prems(1) by simp
    from less.hyps [OF lt this p2(3,4)] obtain p' m where
      w: "walk_back e PostgresBlockHashStore (n - 1) p2 = (p', m)" "pc_store p' = pc_store p"
      "pc_cursor p' = pc_cursor p" "rewind_point H ?st (n - 1) m" unfolding p2(1,2) by blast
    have "?st n \<notin> {[], hd_Hash (H n)}" using 4(2,3) a by auto
    with w(4) 4(1) have "rewind_point H ?st n m" by (rule rewind_point_down)
    moreover have "walk_back e PostgresBlockHashStore n p = (p', m)"
      using w(1) 4 g ab h by (subst walk_back.simps) simp
    ultimately show ?thesis using w by blast
  qed
qed


section \<open>Noticing and handling\<close>

text \<open>
  What is left of a database after a rewind to \<open>m\<close>: the cursor is \<open>m\<close>, the hashes of later blocks
  of the chain are gone, and nothing else has changed.
\<close>

definition rewound_to :: "('w, pg) env \<Rightarrow> u64 \<Rightarrow> pg \<Rightarrow> pg \<Rightarrow> bool" where
  "rewound_to e m s s' \<longleftrightarrow>
     t_cursors (pg_tables s') = (t_cursors (pg_tables s))((ev_chainID e, ev_protocol e) \<mapsto> m) \<and>
     (\<forall>c b. pg_hash s' c b = (if c = ev_chainID e \<and> m < b then None else pg_hash s c b)) \<and>
     erase s' = erase s"

lemma rewind_handles:
  assumes "ev_cursors e = PostgresCursorStore" and "pg_faults (pc_store p) = []"
    and "responsive (ev_rt e) (pc_client p)" and "serves_headers H (pc_client p)" and "0 < n"
  shows "\<exists>p' m. rewind e PostgresBlockHashStore n p = (p', Inr True) \<and>
     rewind_point H (stored_hash (pc_store p) (ev_chainID e)) (n - 1) m \<and>
     rewound_to e m (pc_store p) (pc_store p')"
proof -
  obtain p1 m where w: "walk_back e PostgresBlockHashStore (n - 1) p = (p1, m)" "pc_store p1 = pc_store p"
    "rewind_point H (stored_hash (pc_store p) (ev_chainID e)) (n - 1) m"
    using walk_back_point [OF assms(2-4)] by blast
  have "m < n" using w(3) pred_le_iff [OF assms(5)] by (simp add: rewind_point_def)
  note m = succ_le_iff [OF this]
  let ?u = "(pc_store p)\<lparr>pg_tables := (pg_tables (pc_store p))\<lparr>t_cursors :=
      (t_cursors (pg_tables (pc_store p)))((ev_chainID e, ev_protocol e) \<mapsto> m)\<rparr>\<rparr>"
  have u: "on_store (cs_UpdateCursor (ev_cursors e) (ev_chainID e) (ev_protocol e) m) p1 =
      (p1\<lparr>pc_store := ?u\<rparr>, None)"
    using assms(1,2) w(2)
    by (simp add: on_store_def PostgresCursorStore_def UpdateCursor_def exec_one_fault_free)
  obtain p3 x where d: "on_store (bs_DeleteBlockHashesFrom PostgresBlockHashStore (ev_chainID e) (m + 1))
      (p1\<lparr>pc_store := ?u\<rparr>) = (p3, x)" by (metis prod.exhaust_sel)
  note fr = on_store_frame [OF d]
  have "bs_DeleteBlockHashesFrom PostgresBlockHashStore (ev_chainID e) (m + 1) ?u = (pc_store p3, x)"
    using fr by simp
  moreover have "pg_faults ?u = []" using assms(2) by simp
  ultimately have x: "x = None"
    by (auto simp: PostgresBlockHashStore_def DeleteBlockHashesFrom_def exec_one_fault_free)
  have ho: "hash_only ?u (pc_store p3)"
    using pgframe.R_delete [of "ev_chainID e" "m + 1" ?u "pc_store p3" x] fr by simp
  have "pg_hash (pc_store p3) c b = (if c = ev_chainID e \<and> m < b then None else pg_hash (pc_store p) c b)" for c b
    using pghash.delete [of "ev_chainID e" "m + 1" ?u "pc_store p3" x c b] fr x m
    by (simp add: pg_hash_def)
  moreover have "erase (pc_store p3) = erase (pc_store p)" "t_cursors (pg_tables (pc_store p3)) = t_cursors (pg_tables ?u)"
    using ho assms(2) by (auto simp: hash_only_def erase_def)
  ultimately have "rewound_to e m (pc_store p) (pc_store p3)" by (simp add: rewound_to_def)
  moreover have "rewind e PostgresBlockHashStore n p = (p3, Inr True)"
    using w(1) u d by (simp add: rewind_def)
  ultimately show ?thesis using w(3) by blast
qed

lemma reorg_cases:
  assumes "ev_cursors e = PostgresCursorStore" and "ev_blockHashes e = Some PostgresBlockHashStore"
    and "pg_faults (pc_store p) = []" and "responsive (ev_rt e) (pc_client p)"
    and "serves_headers H (pc_client p)" and "0 < n"
  shows "\<exists>p' r. checkAndHandleReorg e n p = (p', Inr r) \<and>
     (r \<longleftrightarrow> stored_hash (pc_store p) (ev_chainID e) (n - 1) \<notin> {[], hd_ParentHash (H n)}) \<and>
     (if r then \<exists>m. rewind_point H (stored_hash (pc_store p) (ev_chainID e)) (n - 1) m \<and>
           rewound_to e m (pc_store p) (pc_store p')
      else pc_store p' = pc_store p)"
proof -
  let ?st = "stored_hash (pc_store p) (ev_chainID e)"
  obtain a b where g: "on_store (bs_GetBlockHash PostgresBlockHashStore (ev_chainID e) (n - 1)) p = (p, Inr (a, b))"
    and a: "?st (n - 1) = a"
    using stored_get [OF assms(3), of "ev_chainID e" "n - 1"] by auto
  obtain p2 where h: "on_client (BlockHeader (ev_rt e) n) p = (p2, Inr (H n))"
    and p2: "pc_store p2 = pc_store p"
      "responsive (ev_rt e) (pc_client p2)" "serves_headers H (pc_client p2)"
    using live_header [OF assms(4,5)] by blast
  have n: "n \<noteq> 0" using assms(6) by auto
  show ?thesis
  proof (cases "a = []")
    case True
    then have "checkAndHandleReorg e n p = (p, Inr False)"
      using assms(2) n g by (simp add: checkAndHandleReorg_def)
    with True a show ?thesis by (intro exI [of _ p] exI [of _ False]) simp
  next
    case False
    have e: "checkAndHandleReorg e n p =
        (if hd_ParentHash (H n) = a then (p2, Inr False) else rewind e PostgresBlockHashStore n p2)"
      using False assms(2) n g h by (simp add: checkAndHandleReorg_def)
    show ?thesis
    proof (cases "hd_ParentHash (H n) = a")
      case True
      with e a p2 show ?thesis by auto
    next
      case fork: False
      have "pg_faults (pc_store p2) = []" using p2(1) assms(3) by simp
      from rewind_handles [OF assms(1) this p2(2,3) assms(6)] obtain p' m where
        "rewind e PostgresBlockHashStore n p2 = (p', Inr True)"
        "rewind_point H ?st (n - 1) m" "rewound_to e m (pc_store p) (pc_store p')"
        unfolding p2(1) by blast
      with e fork a False show ?thesis by (intro exI [of _ p'] exI [of _ True]) auto
    qed
  qed
qed

text \<open>
  C20: reorganisations. Before a batch from block \<open>n\<close>, the loop rewinds exactly when block \<open>n - 1\<close>
  has a recorded hash and it is not the parent hash of the present block \<open>n\<close>. It rewinds to the
  first block from \<open>n - 1\<close> downwards whose recorded hash is that of the present chain or that has no
  recorded hash: the cursor is set there, the hashes above are deleted, and the messages of the
  abandoned blocks stay as they are.
\<close>

theorem reorg_handled:
  assumes "ev_cursors e = PostgresCursorStore" and "ev_blockHashes e = Some PostgresBlockHashStore"
    and "pg_faults (pc_store p) = []" and "responsive (ev_rt e) (pc_client p)"
    and "serves_headers H (pc_client p)" and "0 < n"
  shows "\<exists>p' r. checkAndHandleReorg e n p = (p', Inr r) \<and>
     (r \<longleftrightarrow> stored_hash (pc_store p) (ev_chainID e) (n - 1) \<notin> {[], hd_ParentHash (H n)}) \<and>
     (if r then \<exists>m. rewind_point H (stored_hash (pc_store p) (ev_chainID e)) (n - 1) m \<and>
           rewound_to e m (pc_store p) (pc_store p')
      else pc_store p' = pc_store p)"
  using assms by (rule reorg_cases)

text \<open>
  C21: the walk back ends at a gap. If the block before the last indexed one has no recorded hash, and
  only the first and the last block of a batch are given one, a noticed reorganisation rewinds the
  cursor by a single block, however deep the fork is.
\<close>

theorem reorg_stops_at_gap:
  assumes "ev_cursors e = PostgresCursorStore" and "ev_blockHashes e = Some PostgresBlockHashStore"
    and "pg_faults (pc_store p) = []" and "responsive (ev_rt e) (pc_client p)"
    and "serves_headers H (pc_client p)" and "1 < n"
    and "stored_hash (pc_store p) (ev_chainID e) (n - 1) \<notin> {[], hd_ParentHash (H n), hd_Hash (H (n - 1))}"
    and "stored_hash (pc_store p) (ev_chainID e) (n - 2) = []"
  shows "\<exists>p'. checkAndHandleReorg e n p = (p', Inr True) \<and>
     recorded_cursor e (pc_store p') = n - 2"
proof -
  let ?st = "stored_hash (pc_store p) (ev_chainID e)"
  have n: "0 < n" "0 < n - 1"
    using assms(6) by (auto simp: word_gt_0)
  obtain p' r where c': "checkAndHandleReorg e n p = (p', Inr r)"
    and r: "r \<longleftrightarrow> ?st (n - 1) \<notin> {[], hd_ParentHash (H n)}"
    and res: "if r then \<exists>m. rewind_point H ?st (n - 1) m \<and> rewound_to e m (pc_store p) (pc_store p')
      else pc_store p' = pc_store p"
    using reorg_cases [OF assms(1-5) n(1)] by blast
  have r: "r = True" using r assms(7) by blast
  obtain m where m: "rewind_point H ?st (n - 1) m" and re: "rewound_to e m (pc_store p) (pc_store p')"
    using res r by auto
  note c = c' [unfolded r]
  have "n - 1 - 1 = n - 2" by simp
  then have "rewind_point H ?st (n - 1 - 1) (n - 2)" using assms(8) by (auto simp: rewind_point_def)
  then have "rewind_point H ?st (n - 1) (n - 2)"
    by (rule rewind_point_down [OF _ n(2)]) (use assms(7) in blast)
  with m have "m = n - 2" by (rule rewind_point_unique)
  with c re show ?thesis by (simp add: rewound_to_def recorded_cursor_def)
qed

section \<open>Examples\<close>

text \<open>Block 60 was recorded with another hash than the present chain's; block 59 as it is, or not at all.\<close>

definition forked :: "(nat \<times> string) list \<Rightarrow> (nat, pg) proc" where
  "forked recs = demo_start\<lparr>pc_cursor := 60, pc_store := empty_pg\<lparr>pg_tables := empty_tables\<lparr>t_block_hashes :=
     (\<lambda>(c, b). if c = 1 then map_option (\<lambda>h. \<lparr>bh_hash = h, bh_parent = []\<rparr>) (map_of recs (unat b)) else None)\<rparr>\<rparr>\<rparr>"

lemma forked_simps:
  "pg_faults (pc_store (forked recs)) = []"
  "responsive (ev_rt demo_env) (pc_client (forked recs))"
  "serves_headers demo_headers (pc_client (forked recs))"
  "stored_hash (pc_store (forked recs)) (ev_chainID demo_env) b =
     (case map_of recs (unat b) of None \<Rightarrow> [] | Some h \<Rightarrow> h)"
  "ev_cursors demo_env = PostgresCursorStore" "ev_blockHashes demo_env = Some PostgresBlockHashStore"
  using demo_env_ok(4)
  by (auto simp: forked_def demo_start_def serves_headers_def demo_rpc_def broken_endpoint_def
      stored_hash_def pg_hash_def demo_env_def split: option.splits)

lemma demo_hashes: "hd_ParentHash (demo_headers 61) = ''60''" "hd_Hash (demo_headers 60) = ''60''"
  "hd_Hash (demo_headers 59) = ''59''"
  by (simp_all add: demo_headers_def dec_word_def digit_char_def dec.simps)

theorem reorg_handled_witness:
  "\<exists>p'. checkAndHandleReorg demo_env 61 (forked [(60, ''stale''), (59, ''59'')]) = (p', Inr True) \<and>
     recorded_cursor demo_env (pc_store p') = 59"
proof -
  let ?p = "forked [(60, ''stale''), (59, ''59'')]"
  let ?st = "stored_hash (pc_store ?p) (ev_chainID demo_env)"
  have pos: "0 < (61 :: u64)" by simp
  have st: "?st 60 = ''stale''" "?st 59 = ''59''" by (simp_all add: forked_simps(4))
  obtain p' r where c: "checkAndHandleReorg demo_env 61 ?p = (p', Inr r)"
    and r: "r \<longleftrightarrow> ?st (61 - 1) \<notin> {[], hd_ParentHash (demo_headers 61)}"
    and res: "if r then \<exists>m. rewind_point demo_headers ?st (61 - 1) m \<and> rewound_to demo_env m (pc_store ?p) (pc_store p')
      else pc_store p' = pc_store ?p"
    using reorg_handled [OF forked_simps(5,6,1,2,3) pos] by blast
  have r: "r" using r st by (simp add: demo_hashes)
  have "rewind_point demo_headers ?st (60 - 1) 59"
    using st by (auto simp: rewind_point_def demo_hashes not_le)
  then have "rewind_point demo_headers ?st 60 59"
    by (rule rewind_point_down) (simp_all add: st demo_hashes)
  with res r have "rewound_to demo_env 59 (pc_store ?p) (pc_store p')"
    using rewind_point_unique by fastforce
  with c r show ?thesis by (auto simp: rewound_to_def recorded_cursor_def)
qed

theorem reorg_stops_at_gap_witness:
  "\<exists>p'. checkAndHandleReorg demo_env 61 (forked [(60, ''stale'')]) = (p', Inr True) \<and>
     recorded_cursor demo_env (pc_store p') = 59"
  using reorg_stops_at_gap [OF forked_simps(5,6,1,2,3), of 61 "[(60, ''stale'')]"]
  by (simp add: forked_simps(4) demo_hashes)

end
