(* ===== verification/Startup.thy ===== *)
theory Startup
  imports Backfill Archive Reorg
begin

text \<open>
  The indexer service, \<open>internal/indexer/indexer.go\<close>, and its command, \<open>cmd/indexer/main.go\<close>: which
  processors and which archiver are started for a configuration. Each processor then is a run of
  \<open>ProcessChain\<close> on the environment given here.
\<close>

section \<open>The service\<close>

text \<open>The libraries the archiver uses come with the indexer; \<open>ix_o3\<close> is \<open>None\<close> for a nil client.\<close>

record 'w archive_libs =
  li_parquet :: parquet
  li_sha256 :: "bytes \<Rightarrow> bytes"
  li_json :: "Manifest \<Rightarrow> error + bytes"
  li_Now :: "'w \<Rightarrow> int"
  li_le :: "string \<Rightarrow> string \<Rightarrow> bool"

record 'w Indexer =
  ix_chainMgr :: "'w Manager"
  ix_registry :: registry
  ix_cursors :: "pg CursorStore"
  ix_blockHashes :: "pg BlockHashStore"
  ix_o3 :: "'w O3 option"
  ix_chainNames :: "u64 \<rightharpoonup> string"
  ix_config :: IndexerConfig
  ix_libs :: "'w archive_libs"

text \<open>The arguments of one \<open>ProcessChain\<close> goroutine that differ between goroutines.\<close>

record 'w processor =
  pr_chainID :: u64
  pr_protocol :: string
  pr_dec :: decoder
  pr_client :: "'w Client"

definition processor_env :: "'w runtime \<Rightarrow> 'w Indexer \<Rightarrow> 'w processor \<Rightarrow> ('w, pg) env" where
  "processor_env rt idx p =
     \<lparr>ev_rt = rt, ev_chainID = pr_chainID p, ev_protocol = pr_protocol p, ev_dec = pr_dec p,
      ev_cursors = ix_cursors idx, ev_blockHashes = Some (ix_blockHashes idx),
      ev_messages = PostgresMessageStore, ev_batchSize = word_of_int (ic_BatchSize (ix_config idx)),
      ev_pollInterval = ic_PollInterval (ix_config idx)\<rparr>"

text \<open>The inner loop, over the chains; a chain without a client is skipped.\<close>

fun start_chains :: "'w Manager \<Rightarrow> decoder \<Rightarrow> (u64 \<times> 'w Client) list \<Rightarrow> 'w processor list" where
  "start_chains mgr d [] = []"
| "start_chains mgr d ((chainID, _) # clients) =
     (case GetClient mgr chainID of
        Inl err \<Rightarrow> start_chains mgr d clients
      | Inr chainClient \<Rightarrow>
          \<lparr>pr_chainID = chainID, pr_protocol = dProtocol d, pr_dec = d, pr_client = chainClient\<rparr>
            # start_chains mgr d clients)"

fun start_decoders :: "'w Manager \<Rightarrow> decoder list \<Rightarrow> 'w processor list" where
  "start_decoders mgr [] = []"
| "start_decoders mgr (d # decoders) =
     (if length (AllClients mgr) = 0 then start_decoders mgr decoders
      else start_chains mgr d (AllClients mgr) @ start_decoders mgr decoders)"

definition start_archiver :: "'w runtime \<Rightarrow> 'w Indexer \<Rightarrow> ('w Archiver \<times> int) option" where
  "start_archiver rt idx =
     (case ix_o3 idx of
        None \<Rightarrow> None
      | Some o3 \<Rightarrow>
          if ic_ArchiveInterval (ix_config idx) > 0
          then Some (\<lparr>av_rt = rt, av_o3 = o3, av_chainNames = ix_chainNames idx,
              av_protocols = Protocols (ix_registry idx), av_chainIDs = map fst (AllClients (ix_chainMgr idx)),
              av_parquet = li_parquet (ix_libs idx), av_sha256 = li_sha256 (ix_libs idx),
              av_json = li_json (ix_libs idx), av_Now = li_Now (ix_libs idx), av_le = li_le (ix_libs idx)\<rparr>,
            ic_ArchiveInterval (ix_config idx))
          else None)"

text \<open>\<open>Start\<close>: what it spawns before it waits for all of it.\<close>

definition Start ::
    "'w runtime \<Rightarrow> 'w Indexer \<Rightarrow> error + 'w processor list \<times> ('w Archiver \<times> int) option" where
  "Start rt idx =
     (let decoders = All_decoders (ix_registry idx) in
      if length decoders = 0 then Inl (Errorf ''no decoders registered'')
      else Inr (start_decoders (ix_chainMgr idx) decoders, start_archiver rt idx))"

section \<open>The command\<close>

definition chain_names :: "(u64 \<times> Chain) list \<Rightarrow> u64 \<rightharpoonup> string" where
  "chain_names chs = map_of (map (\<lambda>(chainID, cfg). (chainID, ch_Name cfg)) chs)"

text \<open>
  Until the service runs, or the exit status: \<open>conf\<close>, \<open>pool\<close> and \<open>minio\<close> are the outcomes of reading the
  configuration, of connecting to the database and of \<open>minio.New\<close>.
\<close>

definition indexer_main ::
    "'w runtime \<Rightarrow> geth \<Rightarrow> (string \<Rightarrow> 'w \<Rightarrow> 'w \<times> (error + 'w EthClient)) \<Rightarrow> error + Config \<Rightarrow> error option
      \<Rightarrow> error + 'w MinioClient \<Rightarrow> 'w archive_libs \<Rightarrow> 'w \<Rightarrow> 'w \<times> (int + 'w Indexer)" where
  "indexer_main rt g dial conf pool minio libs w =
     (case conf of
        Inl err \<Rightarrow> (w, Inl 1)
      | Inr cfg \<Rightarrow>
          if pool \<noteq> None then (w, Inl 1)
          else
            (case NewManager rt dial (cf_Chains cfg) w of
               (w, Inl err) \<Rightarrow> (w, Inl 1)
             | (w, Inr chainMgr) \<Rightarrow>
                 (case register_all NewRegistry (command_decoders g) of
                    Inl err \<Rightarrow> (w, Inl 1)
                  | Inr registry \<Rightarrow>
                      (case NewO3 minio (cf_Akave cfg) w of
                         (w, Inl err) \<Rightarrow> (w, Inl 1)
                       | (w, Inr o3Client) \<Rightarrow>
                           (w, Inr \<lparr>ix_chainMgr = chainMgr, ix_registry = registry,
                              ix_cursors = PostgresCursorStore, ix_blockHashes = PostgresBlockHashStore,
                              ix_o3 = Some o3Client, ix_chainNames = chain_names (cf_Chains cfg),
                              ix_config = cf_Indexer cfg, ix_libs = libs\<rparr>)))))"

section \<open>One processor for every chain and protocol\<close>

lemma start_chains_all:
  assumes "distinct (map fst mgr)" and "set clients \<subseteq> set mgr"
  shows "start_chains mgr d clients =
     map (\<lambda>(chainID, c). \<lparr>pr_chainID = chainID, pr_protocol = dProtocol d, pr_dec = d, pr_client = c\<rparr>) clients"
  using assms(2)
proof (induction clients)
  case (Cons x clients)
  then show ?case using assms(1) by (cases x) (auto simp: GetClient_def map_of_eq_Some_iff)
qed simp

lemma start_decoders_all:
  assumes "distinct (map fst mgr)"
  shows "start_decoders mgr ds = concat (map (\<lambda>d.
     map (\<lambda>(chainID, c). \<lparr>pr_chainID = chainID, pr_protocol = dProtocol d, pr_dec = d, pr_client = c\<rparr>) mgr) ds)"
  by (induction ds) (auto simp: AllClients_def start_chains_all [OF assms])

lemma start_decoders_distinct:
  assumes "distinct (map fst mgr)" and "distinct (map dProtocol ds)"
  shows "distinct (map (\<lambda>p. (pr_chainID p, pr_protocol p)) (start_decoders mgr ds))"
  unfolding start_decoders_all [OF assms(1)]
  using assms(2)
proof (induction ds)
  case (Cons d ds)
  have "distinct (map (\<lambda>c. (c, dProtocol d)) (map fst mgr))"
    using assms(1) by (subst distinct_map) (simp add: inj_on_def)
  with Cons show ?case by (fastforce simp: comp_def case_prod_unfold)
qed simp

lemma NewManager_ids:
  assumes "NewManager rt dial cfgs w = (w', Inr m)"
  shows "map fst m = map fst cfgs"
  using assms connect_all_result [where rt = rt and dial = dial and cfgs = cfgs and cs = "[]" and w = w]
    list_all2_ids [of _ cfgs m]
  by (auto simp: NewManager_def)

lemma command_protocols: "map dProtocol (command_decoders g) = [''layerzero_v2'', ''axelar'', ''wormhole'', ''ccip'']"
  by (simp add: command_decoders_def NewLayerZeroDecoder_def NewAxelarDecoder_def NewWormholeDecoder_def
      NewCCIPDecoder_def lz_ProtocolName_def ax_ProtocolName_def wh_ProtocolName_def ccip_ProtocolName_def)

lemma start_all:
  assumes "indexer_main rt g dial (Inr cfg) None minio libs w = (w', Inr idx)"
    and "distinct (map fst (cf_Chains cfg))"
  shows "\<exists>procs arch. Start rt idx = Inr (procs, arch) \<and>
     distinct (map (\<lambda>p. (pr_chainID p, pr_protocol p)) procs) \<and>
     (\<lambda>p. (pr_chainID p, pr_protocol p)) ` set procs =
       fst ` set (cf_Chains cfg) \<times> {''layerzero_v2'', ''axelar'', ''wormhole'', ''ccip''} \<and>
     list_all (\<lambda>p. pr_dec p \<in> set (command_decoders g) \<and> dProtocol (pr_dec p) = pr_protocol p \<and>
       GetClient (ix_chainMgr idx) (pr_chainID p) = Inr (pr_client p) \<and> pg_env (processor_env rt idx p)) procs \<and>
     (case arch of
        None \<Rightarrow> ic_ArchiveInterval (cf_Indexer cfg) \<le> 0
      | Some (a, interval) \<Rightarrow> interval = ic_ArchiveInterval (cf_Indexer cfg) \<and> 0 < interval \<and>
          set (List.product (av_chainIDs a) (av_protocols a)) = (\<lambda>p. (pr_chainID p, pr_protocol p)) ` set procs)"
proof -
  let ?ds = "command_decoders g"
  from assms(1) obtain mgr w1 o3 where m: "NewManager rt dial (cf_Chains cfg) w = (w1, Inr mgr)" and
    idx: "ix_chainMgr idx = mgr" "ix_registry idx = map (\<lambda>d. (dProtocol d, d)) ?ds"
      "ix_o3 idx = Some o3" "ix_config idx = cf_Indexer cfg"
      "ix_cursors idx = PostgresCursorStore" "ix_blockHashes idx = PostgresBlockHashStore"
    by (auto simp: indexer_main_def command_registry split: prod.splits sum.splits)
  have ids: "map fst mgr = map fst (cf_Chains cfg)" by (rule NewManager_ids [OF m])
  have d: "distinct (map fst mgr)" using assms(2) ids by simp
  have all: "All_decoders (ix_registry idx) = ?ds" "Protocols (ix_registry idx) = map dProtocol ?ds"
    by (simp_all add: idx All_decoders_def Protocols_def comp_def)
  have "length ?ds \<noteq> 0" by (simp add: command_decoders_def)
  then have st: "Start rt idx = Inr (start_decoders mgr ?ds, start_archiver rt idx)"
    unfolding Start_def all Let_def idx(1) by simp
  note procs = start_decoders_all [OF d, of ?ds]
  have ps: "dProtocol ` set ?ds = {''layerzero_v2'', ''axelar'', ''wormhole'', ''ccip''}"
    using arg_cong [OF command_protocols [of g], of set] by simp
  have cs: "fst ` set mgr = fst ` set (cf_Chains cfg)" using arg_cong [OF ids, of set] by simp
  have pairs: "(\<lambda>p. (pr_chainID p, pr_protocol p)) ` set (start_decoders mgr ?ds) =
      fst ` set (cf_Chains cfg) \<times> {''layerzero_v2'', ''axelar'', ''wormhole'', ''ccip''}"
    unfolding cs [symmetric] ps [symmetric] procs by (force simp: image_iff)
  have "distinct (map (\<lambda>p. (pr_chainID p, pr_protocol p)) (start_decoders mgr ?ds))"
    by (rule start_decoders_distinct [OF d]) (simp add: command_protocols)
  moreover have "list_all (\<lambda>p. pr_dec p \<in> set ?ds \<and> dProtocol (pr_dec p) = pr_protocol p \<and>
       GetClient mgr (pr_chainID p) = Inr (pr_client p) \<and> pg_env (processor_env rt idx p)) (start_decoders mgr ?ds)"
    using d by (auto simp: list_all_iff procs GetClient_def map_of_eq_Some_iff pg_env_def processor_env_def idx)
  moreover have "case start_archiver rt idx of
        None \<Rightarrow> ic_ArchiveInterval (cf_Indexer cfg) \<le> 0
      | Some (a, interval) \<Rightarrow> interval = ic_ArchiveInterval (cf_Indexer cfg) \<and> 0 < interval \<and>
          set (List.product (av_chainIDs a) (av_protocols a)) =
            fst ` set (cf_Chains cfg) \<times> {''layerzero_v2'', ''axelar'', ''wormhole'', ''ccip''}"
  proof -
    have "set (List.product (map fst mgr) (map dProtocol ?ds)) =
        fst ` set (cf_Chains cfg) \<times> {''layerzero_v2'', ''axelar'', ''wormhole'', ''ccip''}"
      unfolding set_product set_map ps cs ..
    then show ?thesis
      unfolding start_archiver_def idx(1,3,4) all AllClients_def by (simp del: set_product)
  qed
  ultimately show ?thesis
    unfolding idx(1) pairs [symmetric] using st by blast
qed

text \<open>
  C40: what the service runs. Started on a configuration, the command either exits or starts exactly
  one processor for every configured chain and each of the four protocols, with the decoder of that
  protocol, the client of that chain and the PostgreSQL stores; and the archiver, when its interval
  is positive, goes through the same protocols and chains.
\<close>

theorem start_covers:
  assumes "indexer_main rt g dial (Inr cfg) None minio libs w = (w', Inr idx)"
    and "distinct (map fst (cf_Chains cfg))"
  shows "\<exists>procs arch. Start rt idx = Inr (procs, arch) \<and>
     distinct (map (\<lambda>p. (pr_chainID p, pr_protocol p)) procs) \<and>
     (\<lambda>p. (pr_chainID p, pr_protocol p)) ` set procs =
       fst ` set (cf_Chains cfg) \<times> {''layerzero_v2'', ''axelar'', ''wormhole'', ''ccip''} \<and>
     list_all (\<lambda>p. pr_dec p \<in> set (command_decoders g) \<and> dProtocol (pr_dec p) = pr_protocol p \<and>
       GetClient (ix_chainMgr idx) (pr_chainID p) = Inr (pr_client p) \<and> pg_env (processor_env rt idx p)) procs \<and>
     (case arch of
        None \<Rightarrow> ic_ArchiveInterval (cf_Indexer cfg) \<le> 0
      | Some (a, interval) \<Rightarrow> interval = ic_ArchiveInterval (cf_Indexer cfg) \<and> 0 < interval \<and>
          set (List.product (av_chainIDs a) (av_protocols a)) = (\<lambda>p. (pr_chainID p, pr_protocol p)) ` set procs)"
  using assms by (rule start_all)

section \<open>Examples\<close>

definition demo_libs :: "nat archive_libs" where
  "demo_libs = \<lparr>li_parquet = \<lparr>pl_Write = (\<lambda>_. None), pl_Close = (\<lambda>_. Inr []), pl_Read = (\<lambda>_. Inr [])\<rparr>,
     li_sha256 = (\<lambda>d. d), li_json = (\<lambda>_. Inr []), li_Now = (\<lambda>w. 0), li_le = (\<lambda>a b. True)\<rparr>"

definition demo_minio :: "nat MinioClient" where
  "demo_minio = \<lparr>mc_BucketExists = (\<lambda>b w. (w, Inr True)), mc_MakeBucket = (\<lambda>b w. (w, None)),
     mc_PutObject = (\<lambda>b key reader n w. ((w, []), None)), mc_GetObject = (\<lambda>b key w. (w, Inr (\<lambda>w. (w, Inr [])))),
     mc_ListObjects = (\<lambda>b prefix w. (w, [])), mc_RemoveObject = (\<lambda>b key w. (w, None))\<rparr>"

theorem start_covers_witness:
  "\<exists>w' idx procs arch. indexer_main demo_runtime demo_lz_geth (\<lambda>_ w. (w, Inr demo_rpc)) (Inr demo_config) None
       (Inr demo_minio) demo_libs 0 = (w', Inr idx) \<and> Start demo_runtime idx = Inr (procs, arch) \<and>
     (\<lambda>p. (pr_chainID p, pr_protocol p)) ` set procs =
       {(1, ''layerzero_v2''), (1, ''axelar''), (1, ''wormhole''), (1, ''ccip'')}"
proof -
  obtain w' idx where i: "indexer_main demo_runtime demo_lz_geth (\<lambda>_ w. (w, Inr demo_rpc)) (Inr demo_config) None
       (Inr demo_minio) demo_libs 0 = (w', Inr idx)"
    by (simp add: indexer_main_def demo_manager command_registry NewO3_def ensureBucket_def demo_minio_def)
  have "map fst (cf_Chains demo_config) = [1]" by (simp add: demo_config_def)
  with start_covers [OF i] i arg_cong [OF this, of set] show ?thesis by (auto simp: insert_Times_insert)
qed

end
