(* ===== verification/Concurrent.thy ===== *)
theory Concurrent
  imports Startup
begin

text \<open>
  The processors of the indexer service running side by side (the goroutines of \<open>Start\<close> in
  \<open>internal/indexer/indexer.go\<close>): they share the database, the outside world and, on one chain, the
  client. The iterations of the processors follow each other in any order. A processor that returns
  stops; the others go on.
\<close>

section \<open>The service as a system of processors\<close>

record 'w service =
  sy_clients :: "u64 \<rightharpoonup> 'w Client"
  sy_world :: 'w
  sy_store :: pg
  sy_cursors :: "u64 \<times> string \<Rightarrow> u64"
  sy_running :: "(u64 \<times> string) set"

definition ident :: "('w, pg) env \<Rightarrow> u64 \<times> string" where
  "ident e = (ev_chainID e, ev_protocol e)"

text \<open>What a processor works on when it is its turn, and what it leaves to the others.\<close>

definition view :: "('w, pg) env \<Rightarrow> 'w Client \<Rightarrow> 'w service \<Rightarrow> ('w, pg) proc" where
  "view e c Y = \<lparr>pc_cursor = sy_cursors Y (ident e), pc_client = c, pc_world = sy_world Y, pc_store = sy_store Y\<rparr>"

definition put_back :: "('w, pg) env \<Rightarrow> ('w, pg) proc \<Rightarrow> 'w service \<Rightarrow> 'w service" where
  "put_back e p Y =
     Y\<lparr>sy_clients := (sy_clients Y)(ev_chainID e \<mapsto> pc_client p), sy_world := pc_world p,
       sy_store := pc_store p, sy_cursors := (sy_cursors Y)(ident e := pc_cursor p)\<rparr>"

inductive turn :: "('w, pg) env set \<Rightarrow> 'w service \<Rightarrow> 'w service \<Rightarrow> bool" for E where
  goes_on: "e \<in> E \<Longrightarrow> ident e \<in> sy_running Y \<Longrightarrow> sy_clients Y (ev_chainID e) = Some c \<Longrightarrow>
     iterate e (view e c Y) = (p, Continue) \<Longrightarrow> turn E Y (put_back e p Y)"
| stops: "e \<in> E \<Longrightarrow> ident e \<in> sy_running Y \<Longrightarrow> sy_clients Y (ev_chainID e) = Some c \<Longrightarrow>
     iterate e (view e c Y) = (p, Return err) \<Longrightarrow>
     turn E Y ((put_back e p Y)\<lparr>sy_running := sy_running Y - {ident e}\<rparr>)"

inductive_cases turnE: "turn E Y Z"

text \<open>The service as it is launched: every processor has loaded its cursor.\<close>

definition launched :: "('w, pg) env set \<Rightarrow> 'w Manager \<Rightarrow> 'w \<Rightarrow> pg \<Rightarrow> 'w service" where
  "launched E mgr w s =
     \<lparr>sy_clients = map_of mgr, sy_world = w, sy_store = s,
      sy_cursors = (\<lambda>k. case t_cursors (pg_tables s) k of None \<Rightarrow> 0 | Some b \<Rightarrow> b),
      sy_running = ident ` E\<rparr>"

lemma launched_cursor: "sy_cursors (launched E mgr w s) (ident e) = recorded_cursor e s"
  by (simp add: launched_def ident_def recorded_cursor_def)

section \<open>An iteration leaves the other chains alone\<close>

definition same_elsewhere :: "u64 \<Rightarrow> pg \<Rightarrow> pg \<Rightarrow> bool" where
  "same_elsewhere c s s' \<longleftrightarrow> (\<forall>d b. d \<noteq> c \<longrightarrow> pg_hash s' d b = pg_hash s d b)"

lemma same_elsewhere_refl [simp]: "same_elsewhere c s s"
  by (simp add: same_elsewhere_def)

lemma same_elsewhere_trans: "same_elsewhere c s t \<Longrightarrow> same_elsewhere c t u \<Longrightarrow> same_elsewhere c s u"
  by (simp add: same_elsewhere_def)

lemma save_elsewhere:
  "bs_SaveBlockHash PostgresBlockHashStore r s = (s', x) \<Longrightarrow> same_elsewhere (bhr_ChainID r) s s'"
  using pghash.save [of r s s' x] by (simp add: same_elsewhere_def)

lemma prune_elsewhere:
  "bs_PruneBlockHashes PostgresBlockHashStore c n s = (s', x) \<Longrightarrow> same_elsewhere c s s'"
  using pghash.prune [of c n s s' x] by (simp add: same_elsewhere_def)

lemma store_hashes_elsewhere:
  "store_hashes e PostgresBlockHashStore seen bs p = (p', x) \<Longrightarrow>
     same_elsewhere (ev_chainID e) (pc_store p) (pc_store p')"
proof (induction bs arbitrary: seen p)
  case (Cons b bs)
  show ?case
  proof (cases "b \<in> seen")
    case True
    with Cons show ?thesis by simp
  next
    case False
    obtain p1 h where hd: "on_client (BlockHeader (ev_rt e) b) p = (p1, h)"
      by (cases "on_client (BlockHeader (ev_rt e) b) p")
    note f1 = on_client_frame [OF hd]
    show ?thesis
    proof (cases h)
      case (Inl err)
      with Cons.prems False hd f1 show ?thesis by auto
    next
      case (Inr hdr)
      let ?r = "\<lparr>bhr_ChainID = ev_chainID e, bhr_BlockNumber = b, bhr_BlockHash = hd_Hash hdr,
        bhr_ParentHash = hd_ParentHash hdr\<rparr>"
      obtain p2 y where sv: "on_store (bs_SaveBlockHash PostgresBlockHashStore ?r) p1 = (p2, y)"
        by (cases "on_store (bs_SaveBlockHash PostgresBlockHashStore ?r) p1")
      have "same_elsewhere (ev_chainID e) (pc_store p) (pc_store p2)"
        using on_store_frame [OF sv] f1 save_elsewhere [of ?r "pc_store p1" "pc_store p2" y] by simp
      with Cons False hd Inr sv show ?thesis
        by (auto split: option.splits intro: same_elsewhere_trans)
    qed
  qed
qed simp

lemma record_hashes_elsewhere:
  assumes "pg_env e"
  shows "same_elsewhere (ev_chainID e) (pc_store p) (pc_store (record_hashes e a b p))"
proof (cases "ev_blockHashes e")
  case None
  then show ?thesis by (simp add: record_hashes_def)
next
  case (Some bh)
  with assms have bh: "ev_blockHashes e = Some PostgresBlockHashStore" by (simp add: pg_env_def)
  obtain p1 x where s: "storeBlockHashes e PostgresBlockHashStore a b p = (p1, x)"
    by (cases "storeBlockHashes e PostgresBlockHashStore a b p")
  have s1: "same_elsewhere (ev_chainID e) (pc_store p) (pc_store p1)"
    using s unfolding storeBlockHashes_def by (rule store_hashes_elsewhere)
  obtain p2 y where pr: "on_store (bs_PruneBlockHashes PostgresBlockHashStore (ev_chainID e)
      (b - reorgPruneDepth)) p1 = (p2, y)"
    by (metis prod.exhaust_sel)
  have "same_elsewhere (ev_chainID e) (pc_store p1) (pc_store p2)"
    using on_store_frame [OF pr] by (auto intro: prune_elsewhere)
  with s1 show ?thesis by (auto simp: record_hashes_def bh s pr intro: same_elsewhere_trans)
qed

lemma advance_elsewhere:
  "pg_env e \<Longrightarrow> advance e n p = (p', out) \<Longrightarrow> same_elsewhere c (pc_store p) (pc_store p')"
  by (auto simp: advance_def pg_env_def on_store_def PostgresCursorStore_def UpdateCursor_def exec_one_def
      same_elsewhere_def pg_hash_def split: if_splits prod.splits option.splits)

lemma run_batch_elsewhere:
  assumes env: "pg_env e" and ok: "chain_ok H match ls maxH batch (pc_client p)"
    and run: "run_batch e a b p = (p', out)"
  shows "same_elsewhere (ev_chainID e) (pc_store p) (pc_store p')"
proof (cases "dContractAddresses (ev_dec e) (ev_chainID e) = []")
  case True
  with run have "advance e b p = (p', out)" by (simp add: run_batch_def)
  with env show ?thesis by (rule advance_elsewhere)
next
  case False
  let ?f = "FetchLogs (ev_rt e) a b (dContractAddresses (ev_dec e) (ev_chainID e)) [dEventTopics (ev_dec e)]
     (pc_client p) (pc_world p)"
  consider "?f = None" | c w err where "?f = Some ((c, w), Inl err)" | c w logs where "?f = Some ((c, w), Inr logs)"
    by (metis option.exhaust prod.exhaust_sel sum.exhaust)
  then show ?thesis
  proof cases
    case 1
    with run False show ?thesis by (simp add: run_batch_def)
  next
    case 2
    with run False show ?thesis by (auto simp: run_batch_def)
  next
    case (3 c w logs)
    let ?p0 = "p\<lparr>pc_client := c, pc_world := w\<rparr>"
    let ?p1 = "process_logs e logs Map.empty ?p0"
    have "chain_ok H match ls maxH batch (pc_client ?p0)" using ok chain_ok_same [OF FetchLogs_same [OF 3]] by simp
    moreover have "times_of H Map.empty" by (simp add: times_of_def)
    ultimately obtain evs where "pc_store ?p1 = Process_all PostgresMessageStore evs (pc_store p)"
      using process_logs_events [of H match ls maxH batch ?p0 Map.empty e logs] env by (auto simp: pg_env_def)
    then have "same_elsewhere (ev_chainID e) (pc_store p) (pc_store ?p1)"
      by (simp add: same_elsewhere_def pg_hash_def Process_all_other_tables)
    moreover have "advance e b (record_hashes e a b ?p1) = (p', out)"
      using run False 3 by (simp add: run_batch_def Let_def)
    ultimately show ?thesis
      using record_hashes_elsewhere [OF env, of ?p1 a b] advance_elsewhere [OF env]
      by (blast intro: same_elsewhere_trans)
  qed
qed

text \<open>
  On an undisturbed chain an iteration goes on, except that it stops, having done nothing, when the
  context is cancelled.
\<close>

lemma iterate_turn:
  assumes env: "pg_env e" and hs: "hashes_of H (ev_chainID e) (pc_store p)"
    and ok: "chain_ok H match ls maxH (ev_batchSize e) (pc_client p)"
    and it: "iterate e p = (p', out)"
  shows "same_elsewhere (ev_chainID e) (pc_store p) (pc_store p') \<and>
     (out = Continue \<or> p' = p \<and> (\<exists>err. out = Return err))"
proof (cases "rt_Err (ev_rt e) (pc_world p)")
  case (Some err)
  with it show ?thesis by (auto simp: iterate_def)
next
  case None
  obtain p1 q where l: "on_client (LatestConfirmedBlock (ev_rt e)) p = (p1, q)"
    by (cases "on_client (LatestConfirmedBlock (ev_rt e)) p")
  note f1 = on_client_frame [OF l]
  have c1: "client_same (pc_client p) (pc_client p1)" using f1 by (auto intro: client_ops_same(1))
  show ?thesis
  proof (cases "\<exists>b. q = Inr b \<and> pc_cursor p < b")
    case False
    with it l f1 None have "p' = sleep e p1 \<and> out = Continue"
      by (auto simp: iterate_def split: sum.splits if_splits)
    with f1 show ?thesis by simp
  next
    case True
    then obtain b where b: "q = Inr b" "pc_cursor p < b" by blast
    let ?n = "pc_cursor p + 1" and ?to = "min_u64 (pc_cursor p + ev_batchSize e) b"
    obtain p2 r where r: "checkAndHandleReorg e ?n p1 = (p2, r)" by (cases "checkAndHandleReorg e ?n p1")
    have hs1: "hashes_of H (ev_chainID e) (pc_store p1)"
      and ok1: "chain_ok H match ls maxH (ev_batchSize e) (pc_client p1)"
      using hs ok f1 chain_ok_same [OF c1] by simp_all
    note rn = reorg_none [OF env hs1 ok1 r]
    show ?thesis
    proof (cases r)
      case (Inl err)
      with iterate_batch(2) [OF None l [unfolded b(1)] b(2) r] it rn f1 show ?thesis by auto
    next
      case (Inr x)
      with rn have "r = Inr False" by (cases x) auto
      with iterate_batch(1) [OF None l [unfolded b(1)] b(2) r] it have
        rb: "run_batch e (pc_cursor p2 + 1) ?to p2 = (p', out)" using rn f1 by simp
      have ok2: "chain_ok H match ls maxH (ev_batchSize e) (pc_client p2)"
        and hs2: "hashes_of H (ev_chainID e) (pc_store p2)"
        using ok1 hs1 rn chain_ok_same [of "pc_client p1" "pc_client p2"] by simp_all
      have bm: "b \<le> maxH" using latest_served [OF _ ok] f1 b(1) by blast
      have mx: "unat maxH + unat (ev_batchSize e) < 2 ^ 64" using ok by (simp add: chain_ok_def)
      have "?to \<le> maxH" "pc_cursor p2 < maxH"
        using to_block(2) [OF b(2) bm mx] bm b(2) rn f1 by auto
      from run_batch_done [OF env hs2 ok2 this rb] run_batch_elsewhere [OF env ok2 rb] rn f1
      show ?thesis by simp
    qed
  qed
qed

section \<open>Every processor indexes its chain\<close>

text \<open>
  What holds of the service, for a sequence of processed events each tagged with the processor that
  processed it: the message tables are what processing the sequence makes of them, and the events
  of a processor are those of its chain and decoder up to its cursor.
\<close>

definition indexed ::
    "(u64 \<Rightarrow> u64 \<Rightarrow> header) \<Rightarrow> (bytes list \<Rightarrow> bytes list list \<Rightarrow> eth_log \<Rightarrow> bool) \<Rightarrow> (u64 \<Rightarrow> eth_log list)
      \<Rightarrow> ('w, pg) env set \<Rightarrow> pg \<Rightarrow> 'w service \<Rightarrow> ((u64 \<times> string) \<times> int \<times> raw_event) list \<Rightarrow> bool" where
  "indexed H match ls E s Y evs \<longleftrightarrow>
     (\<forall>c. hashes_of (H c) c (sy_store Y)) \<and>
     erase (sy_store Y) = erase (Process_all PostgresMessageStore (map snd evs) s) \<and>
     (\<forall>e \<in> E. recorded_cursor e (sy_store Y) = sy_cursors Y (ident e) \<and>
        recorded_cursor e s \<le> sy_cursors Y (ident e) \<and>
        stamped (H (ev_chainID e))
          (chain_events e match (ls (ev_chainID e)) (recorded_cursor e s) (sy_cursors Y (ident e)))
          (map snd (filter (\<lambda>x. fst x = ident e) evs)))"

lemma tagged [simp]:
  "filter (\<lambda>x. fst x = k) (map (Pair j) xs) = (if j = k then map (Pair j) xs else [])"
  "map (snd \<circ> Pair k) xs = xs"
  by (induction xs) auto

lemma other_cursors:
  assumes "pg_env e" and "recorded_cursor e (pc_store p) = pc_cursor p" and "cl_endpoints (pc_client p) \<noteq> []"
    and "iterate e p = (p', Continue)"
  shows "recorded_cursor e (pc_store p') = pc_cursor p' \<and>
     (ident d \<noteq> ident e \<longrightarrow> recorded_cursor d (pc_store p') = recorded_cursor d (pc_store p))"
  using pgloop.iterate_result [OF pg_env_ok [OF assms(1)] _ assms(4,3)] assms(2)
  by (auto simp: synced_recorded recorded_cursor_def ident_def)

lemma turn_indexed:
  assumes env: "\<forall>e \<in> E. pg_env e" and inj: "inj_on ident E" and s: "pg_faults s = []"
    and cl: "\<forall>e \<in> E. \<forall>c. sy_clients Y (ev_chainID e) = Some c \<longrightarrow>
      chain_ok (H (ev_chainID e)) match (ls (ev_chainID e)) (maxH (ev_chainID e)) (ev_batchSize e) c"
    and ix: "indexed H match ls E s Y evs"
    and e: "e \<in> E" and c: "sy_clients Y (ev_chainID e) = Some c" and it: "iterate e (view e c Y) = (p, Continue)"
  shows "client_same c (pc_client p) \<and> (\<exists>evs'. indexed H match ls E s (put_back e p Y) evs')"
proof -
  let ?c = "ev_chainID e" and ?v = "view e c Y"
  have v: "pc_store ?v = sy_store Y" "pc_cursor ?v = sy_cursors Y (ident e)" "pc_client ?v = c"
    by (simp_all add: view_def)
  have hs: "hashes_of (H d) d (sy_store Y)" for d using ix by (simp add: indexed_def)
  have env_e: "pg_env e" using env e by blast
  have ok: "chain_ok (H ?c) match (ls ?c) (maxH ?c) (ev_batchSize e) (pc_client ?v)" using cl e c v by simp
  have hv: "hashes_of (H ?c) ?c (pc_store ?v)" using hs v by simp
  note dn = iterate_done [OF env_e hv ok it]
  note tn = iterate_turn [OF env_e hv ok it]
  obtain new where new: "stamped (H ?c) (chain_events e match (ls ?c) (sy_cursors Y (ident e)) (pc_cursor p)) new"
    "erase (pc_store p) = erase (Process_all PostgresMessageStore new (sy_store Y))"
    using dn v by (auto simp: iteration_done_def batch_done_def)
  have p: "client_same c (pc_client p)" "hashes_of (H ?c) ?c (pc_store p)" "sy_cursors Y (ident e) \<le> pc_cursor p"
    using dn v by (auto simp: iteration_done_def)
  have hashes: "hashes_of (H d) d (pc_store p)" for d
  proof (cases "d = ?c")
    case False
    have "pg_faults (pc_store p) = []" using p(2) by (simp add: hashes_of_def)
    with False tn v hs [of d] show ?thesis by (simp add: hashes_of_def same_elsewhere_def)
  qed (simp add: p(2))
  let ?evs = "evs @ map (Pair (ident e)) new"
  have "erase (pc_store p) = erase (Process_all PostgresMessageStore (map snd ?evs) s)"
  proof -
    have y: "pg_faults (sy_store Y) = []" using hs by (auto simp: hashes_of_def)
    have "erase (sy_store Y) = erase (Process_all PostgresMessageStore (map snd evs) s)"
      using ix by (simp add: indexed_def)
    from Process_all_erase_cong [OF y _ this] Process_all_erase [OF s] new(2) show ?thesis
      by (simp add: Process_all_append comp_def)
  qed
  moreover have "recorded_cursor d (pc_store p) = sy_cursors (put_back e p Y) (ident d) \<and>
      recorded_cursor d s \<le> sy_cursors (put_back e p Y) (ident d) \<and>
      stamped (H (ev_chainID d))
        (chain_events d match (ls (ev_chainID d)) (recorded_cursor d s) (sy_cursors (put_back e p Y) (ident d)))
        (map snd (filter (\<lambda>x. fst x = ident d) ?evs))" if d: "d \<in> E" for d
  proof -
    have ixd: "recorded_cursor d (sy_store Y) = sy_cursors Y (ident d)" "recorded_cursor d s \<le> sy_cursors Y (ident d)"
      "stamped (H (ev_chainID d)) (chain_events d match (ls (ev_chainID d)) (recorded_cursor d s)
         (sy_cursors Y (ident d))) (map snd (filter (\<lambda>x. fst x = ident d) evs))"
      using ix d by (auto simp: indexed_def)
    have re: "recorded_cursor e (pc_store ?v) = pc_cursor ?v" using ix e v by (simp add: indexed_def)
    have "cl_endpoints (pc_client ?v) \<noteq> []" using ok by (simp add: chain_ok_def)
    note oc = other_cursors [OF env_e re this it, of d]
    show ?thesis
    proof (cases "ident d = ident e")
      case True
      with inj d e have [simp]: "d = e" by (auto dest: inj_onD)
      have so: "sorted (map log_BlockNumber (ls ?c))" using ok by (simp add: chain_ok_def)
      show ?thesis
        using oc ixd p(3) new(1) stamped_append [OF ixd(3)] chain_events_append [OF so ixd(2) [simplified] p(3), of e match, symmetric]
        by (auto simp: put_back_def intro: order_trans)
    next
      case False
      with oc ixd v show ?thesis by (auto simp: put_back_def)
    qed
  qed
  ultimately have "indexed H match ls E s (put_back e p Y) ?evs"
    using hashes by (simp add: indexed_def) (simp add: put_back_def)
  with p(1) show ?thesis by blast
qed

lemma put_back_view: "sy_clients Y (ev_chainID e) = Some c \<Longrightarrow> put_back e (view e c Y) Y = Y"
  by (simp add: put_back_def view_def fun_upd_idem)

definition clients_of :: "'w Manager \<Rightarrow> 'w service \<Rightarrow> bool" where
  "clients_of mgr Y \<longleftrightarrow>
     (\<forall>d c. sy_clients Y d = Some c \<longrightarrow> (\<exists>c0. map_of mgr d = Some c0 \<and> client_same c0 c))"

lemma turns_indexed:
  assumes env: "\<forall>e \<in> E. pg_env e" and inj: "inj_on ident E" and hs: "\<forall>c. hashes_of (H c) c s"
    and cl: "\<forall>e \<in> E. \<forall>c. map_of mgr (ev_chainID e) = Some c \<longrightarrow>
      chain_ok (H (ev_chainID e)) match (ls (ev_chainID e)) (maxH (ev_chainID e)) (ev_batchSize e) c"
    and run: "(turn E)\<^sup>*\<^sup>* (launched E mgr w s) Y"
  shows "clients_of mgr Y \<and> (\<exists>evs. indexed H match ls E s Y evs)"
  using run
proof (induction rule: rtranclp_induct)
  case base
  have "indexed H match ls E s (launched E mgr w s) []"
    using hs by (simp add: indexed_def launched_cursor stamped_def) (simp add: launched_def)
  then show ?case by (auto simp: clients_of_def launched_def)
next
  case (step Y Z)
  then obtain evs where ix: "indexed H match ls E s Y evs" and co: "clients_of mgr Y" by blast
  have s: "pg_faults s = []" using hs by (simp add: hashes_of_def)
  have clY: "\<forall>e \<in> E. \<forall>c. sy_clients Y (ev_chainID e) = Some c \<longrightarrow>
      chain_ok (H (ev_chainID e)) match (ls (ev_chainID e)) (maxH (ev_chainID e)) (ev_batchSize e) c"
    using cl co chain_ok_same unfolding clients_of_def by metis
  from step.hyps(2) consider
    (go) e c p where "Z = put_back e p Y" "e \<in> E" "sy_clients Y (ev_chainID e) = Some c"
      "iterate e (view e c Y) = (p, Continue)"
  | (stop) e c p err where "Z = (put_back e p Y)\<lparr>sy_running := sy_running Y - {ident e}\<rparr>" "e \<in> E"
      "sy_clients Y (ev_chainID e) = Some c" "iterate e (view e c Y) = (p, Return err)"
    by (rule turnE) blast+
  then show ?case
  proof cases
    case go
    from turn_indexed [OF env inj s clY ix go(2,3,4)] have
      same: "client_same c (pc_client p)" and "\<exists>evs'. indexed H match ls E s Z evs'" by (simp_all add: go(1))
    moreover obtain c0 where "map_of mgr (ev_chainID e) = Some c0" "client_same c0 c"
      using co go(3) by (auto simp: clients_of_def)
    then have "clients_of mgr Z"
      using co go(1) same by (auto simp: clients_of_def put_back_def intro: client_same_trans)
    ultimately show ?thesis by blast
  next
    case stop
    have "pg_env e" "hashes_of (H (ev_chainID e)) (ev_chainID e) (pc_store (view e c Y))"
      "chain_ok (H (ev_chainID e)) match (ls (ev_chainID e)) (maxH (ev_chainID e)) (ev_batchSize e) (pc_client (view e c Y))"
      using env ix clY stop(2,3) by (simp_all add: indexed_def view_def)
    from iterate_turn [OF this stop(4)] have "p = view e c Y" by simp
    then have "Z = Y\<lparr>sy_running := sy_running Y - {ident e}\<rparr>"
      using stop(1) put_back_view [OF stop(3)] by simp
    with ix co show ?thesis by (auto simp: indexed_def clients_of_def)
  qed
qed

text \<open>
  C5: the running service indexes every chain for every protocol. The command has started its
  processors; their iterations have followed each other in some order, on shared clients and one
  database; the endpoints may have failed in any way but answer from one chain each. Then the
  message tables are what the correlator makes of one sequence of events, in which the events of
  each processor are, in chain order and each once, the decodable events of its protocol on its
  chain from the cursor it was started with up to its present cursor.
\<close>

theorem service_index:
  assumes "indexer_main rt g dial (Inr cfg) None minio libs w0 = (w1, Inr idx)"
    and "distinct (map fst (cf_Chains cfg))" and "Start rt idx = Inr (procs, arch)"
    and "\<forall>p \<in> set procs. chain_ok (H (pr_chainID p)) match (ls (pr_chainID p)) (maxH (pr_chainID p))
      (word_of_int (ic_BatchSize (cf_Indexer cfg))) (pr_client p)"
    and "\<forall>c. hashes_of (H c) c s"
    and "E = processor_env rt idx ` set procs" and "(turn E)\<^sup>*\<^sup>* (launched E (ix_chainMgr idx) w s) Y"
  shows "\<exists>evs. erase (sy_store Y) = erase (Process_all PostgresMessageStore (map snd evs) s) \<and>
     (\<forall>p \<in> set procs. let e = processor_env rt idx p in
        stamped (H (pr_chainID p))
          (chain_events e match (ls (pr_chainID p)) (recorded_cursor e s) (recorded_cursor e (sy_store Y)))
          (map snd (filter (\<lambda>x. fst x = (pr_chainID p, pr_protocol p)) evs)))"
proof -
  have id: "ident (processor_env rt idx p) = (pr_chainID p, pr_protocol p)"
    "ev_chainID (processor_env rt idx p) = pr_chainID p" for p
    by (simp_all add: ident_def processor_env_def)
  from start_all [OF assms(1,2)] assms(3) have
    dis: "distinct (map (\<lambda>p. (pr_chainID p, pr_protocol p)) procs)"
    and each: "\<And>p. p \<in> set procs \<Longrightarrow> GetClient (ix_chainMgr idx) (pr_chainID p) = Inr (pr_client p)"
      "\<And>p. p \<in> set procs \<Longrightarrow> pg_env (processor_env rt idx p)"
    by (auto simp: list_all_iff)
  have cfg: "ix_config idx = cf_Indexer cfg"
    using assms(1) by (auto simp: indexer_main_def split: prod.splits sum.splits if_splits)
  have "\<forall>e \<in> E. pg_env e" using each(2) assms(6) by blast
  moreover have "inj_on ident E"
    using dis assms(6) by (auto simp: inj_on_def id distinct_map)
  moreover have "\<forall>e \<in> E. \<forall>c. map_of (ix_chainMgr idx) (ev_chainID e) = Some c \<longrightarrow>
      chain_ok (H (ev_chainID e)) match (ls (ev_chainID e)) (maxH (ev_chainID e)) (ev_batchSize e) c"
  proof (intro ballI allI impI)
    fix e c assume e: "e \<in> E" and c: "map_of (ix_chainMgr idx) (ev_chainID e) = Some c"
    then obtain p where p: "p \<in> set procs" "e = processor_env rt idx p" using assms(6) by blast
    with c each(1) [OF p(1)] have "c = pr_client p" by (simp add: GetClient_def id)
    with p assms(4) show "chain_ok (H (ev_chainID e)) match (ls (ev_chainID e)) (maxH (ev_chainID e)) (ev_batchSize e) c"
      by (simp add: processor_env_def cfg)
  qed
  ultimately obtain evs where "indexed H match ls E s Y evs"
    using turns_indexed [OF _ _ assms(5) _ assms(7)] by blast
  then show ?thesis
    unfolding indexed_def assms(6) Let_def by (intro exI [of _ evs]) (simp add: id)
qed

section \<open>A reorganisation and two processors of one chain\<close>

text \<open>
  C22: a reorganisation that one processor handles is hidden from the others of its chain. Two
  processors have indexed a chain up to block \<open>n - 1\<close>, whose recorded hash is not that of the present
  chain, and either would notice that before its next batch. When the first does, it rewinds its own
  cursor and deletes the hash records it shares with the second. The second then notices nothing,
  with any endpoints: its cursor stays, and what it indexed from the abandoned blocks is never
  replaced by what is in the present ones.
\<close>

theorem reorg_masked:
  assumes "ev_cursors e = PostgresCursorStore" and "ev_blockHashes e = Some PostgresBlockHashStore"
    and "ev_cursors d = PostgresCursorStore" and "ev_blockHashes d = Some PostgresBlockHashStore"
    and "ev_chainID d = ev_chainID e" and "ev_protocol d \<noteq> ev_protocol e" and "ev_rt d = ev_rt e"
    and "pg_faults (pc_store p) = []" and "responsive (ev_rt e) (pc_client p)"
    and "serves_headers H (pc_client p)" and "1 < n" and "hd_ParentHash (H n) = hd_Hash (H (n - 1))"
    and "stored_hash (pc_store p) (ev_chainID e) (n - 1) \<notin> {[], hd_ParentHash (H n)}"
  shows "(\<exists>q. checkAndHandleReorg d n p = (q, Inr True)) \<and>
     (\<exists>p'. checkAndHandleReorg e n p = (p', Inr True) \<and>
        recorded_cursor e (pc_store p') < n - 1 \<and>
        recorded_cursor d (pc_store p') = recorded_cursor d (pc_store p) \<and>
        erase (pc_store p') = erase (pc_store p) \<and>
        (\<forall>q. pc_store q = pc_store p' \<longrightarrow> checkAndHandleReorg d n q = (q, Inr False)))"
proof -
  let ?st = "stored_hash (pc_store p) (ev_chainID e)"
  have n: "0 < n" "n \<noteq> 0" using assms(11) by (auto simp: word_gt_0)
  have n1: "n - 1 \<noteq> 0" using assms(11) by auto
  from reorg_cases [OF assms(3,4,8) _ assms(10) n(1)] assms(5,7,9,13) have
    seen: "\<exists>q. checkAndHandleReorg d n p = (q, Inr True)" by auto
  from reorg_cases [OF assms(1,2,8,9,10) n(1)] assms(13) obtain p' m where
    c: "checkAndHandleReorg e n p = (p', Inr True)" and m: "rewind_point H ?st (n - 1) m"
    and re: "rewound_to e m (pc_store p) (pc_store p')" by auto
  have "m \<noteq> n - 1" using m assms(12,13) n1 by (auto simp: rewind_point_def)
  with m have lt: "m < n - 1" by (simp add: rewind_point_def order.strict_iff_order)
  have ff: "pg_faults (pc_store p') = []"
    using re assms(8) by (metis erase_simps(1) rewound_to_def)
  have gone: "stored_hash (pc_store p') (ev_chainID d) (n - 1) = []"
    using re lt assms(5) by (simp add: rewound_to_def stored_hash_def)
  have "checkAndHandleReorg d n q = (q, Inr False)" if q: "pc_store q = pc_store p'" for q
  proof -
    have "pg_faults (pc_store q) = []" using ff q by simp
    from stored_get [OF this, of "ev_chainID d" "n - 1"] gone q obtain x where
      "on_store (bs_GetBlockHash PostgresBlockHashStore (ev_chainID d) (n - 1)) q = (q, Inr x)" "fst x = []"
      by auto
    with assms(4) n(2) show ?thesis by (cases x) (simp add: checkAndHandleReorg_def)
  qed
  moreover have "recorded_cursor e (pc_store p') = m" "recorded_cursor d (pc_store p') = recorded_cursor d (pc_store p)"
    using re assms(5,6) by (simp_all add: rewound_to_def recorded_cursor_def)
  ultimately show ?thesis using seen c lt re by (auto simp: rewound_to_def)
qed

section \<open>Examples\<close>

theorem reorg_masked_witness:
  "\<exists>p'. checkAndHandleReorg demo_env 61 (forked [(60, ''stale''), (59, ''59'')]) = (p', Inr True) \<and>
     recorded_cursor demo_env (pc_store p') < 60 \<and>
     checkAndHandleReorg (demo_env\<lparr>ev_protocol := wh_ProtocolName\<rparr>) 61 p' = (p', Inr False)"
proof -
  let ?d = "demo_env\<lparr>ev_protocol := wh_ProtocolName\<rparr>"
  have "hd_ParentHash (demo_headers 61) = hd_Hash (demo_headers (61 - 1))" by (simp add: demo_headers_def)
  moreover have "stored_hash (pc_store (forked [(60, ''stale''), (59, ''59'')])) (ev_chainID demo_env) (61 - 1)
      \<notin> {[], hd_ParentHash (demo_headers 61)}"
    by (simp add: forked_simps(4) demo_hashes)
  moreover have "ev_cursors ?d = PostgresCursorStore" "ev_blockHashes ?d = Some PostgresBlockHashStore"
    "ev_chainID ?d = ev_chainID demo_env" "ev_protocol ?d \<noteq> ev_protocol demo_env" "ev_rt ?d = ev_rt demo_env"
    by (simp_all add: demo_env_def wh_ProtocolName_def lz_ProtocolName_def)
  ultimately show ?thesis
    using reorg_masked [OF forked_simps(5,6), of ?d, OF _ _ _ _ _ forked_simps(1,2,3), of 61] by fastforce
qed

lemma service_moves:
  assumes "pg_env e" and "e \<in> E" and "ident e \<in> sy_running Y" and "sy_clients Y (ev_chainID e) = Some c"
    and "hashes_of H (ev_chainID e) (sy_store Y)" and "chain_ok H match ls maxH (ev_batchSize e) c"
    and "responsive (ev_rt e) c" and "ev_batchSize e \<noteq> 0"
    and "\<forall>ec \<in> set (cl_endpoints c). \<forall>w w' x. ec_BlockNumber ec w = (w', Inr x) \<longrightarrow> h \<le> x"
  shows "\<exists>Z. turn E Y Z \<and> sy_running Z = sy_running Y \<and> sy_clients Z (ev_chainID e) \<noteq> None \<and> (\<forall>k. k \<noteq> ident e \<longrightarrow> sy_cursors Z k = sy_cursors Y k) \<and>
     min (unat (sy_cursors Y (ident e)) + unat (ev_batchSize e)) (unat h - unat (cl_confirmationDepth c))
       \<le> unat (sy_cursors Z (ident e))"
proof -
  have v: "pc_store (view e c Y) = sy_store Y" "pc_client (view e c Y) = c"
    "pc_cursor (view e c Y) = sy_cursors Y (ident e)" by (simp_all add: view_def)
  obtain p where p: "iterate e (view e c Y) = (p, Continue)"
    "min (unat (sy_cursors Y (ident e)) + unat (ev_batchSize e))
       (max (unat h - unat (cl_confirmationDepth c)) (unat (sy_cursors Y (ident e)))) \<le> unat (pc_cursor p)"
    using iterate_moves [OF assms(1), of H "view e c Y" match ls maxH h] assms(5-9) unfolding v by blast
  from turn.goes_on [OF assms(2,3,4) p(1)] p(2) show ?thesis
    by (intro exI [of _ "put_back e p Y"]) (auto simp: put_back_def)
qed

text \<open>On the demo chain, first the LayerZero processor takes a turn, then Axelar's.\<close>

lemma demo_service:
  "\<exists>w' idx procs arch. indexer_main demo_runtime demo_lz_geth (\<lambda>_ w. (w, Inr demo_rpc)) (Inr demo_config) None
       (Inr demo_minio) demo_libs 0 = (w', Inr idx) \<and> ix_chainMgr idx = [(1, demo_dialled)] \<and>
     ix_config idx = cf_Indexer demo_config \<and> Start demo_runtime idx = Inr (procs, arch) \<and>
     inj_on (\<lambda>p. (pr_chainID p, pr_protocol p)) (set procs) \<and>
     (\<lambda>p. (pr_chainID p, pr_protocol p)) ` set procs =
       {1} \<times> {''layerzero_v2'', ''axelar'', ''wormhole'', ''ccip''} \<and>
     (\<forall>p \<in> set procs. pr_client p = demo_dialled \<and> pg_env (processor_env demo_runtime idx p))"
proof -
  obtain w' idx where i: "indexer_main demo_runtime demo_lz_geth (\<lambda>_ w. (w, Inr demo_rpc)) (Inr demo_config) None
       (Inr demo_minio) demo_libs 0 = (w', Inr idx)" "ix_chainMgr idx = [(1, demo_dialled)]"
       "ix_config idx = cf_Indexer demo_config"
    by (simp add: indexer_main_def demo_manager command_registry NewO3_def ensureBucket_def demo_minio_def)
  have c: "map fst (cf_Chains demo_config) = [1]" by (simp add: demo_config_def)
  from start_all [OF i(1)] c obtain procs arch where
    "Start demo_runtime idx = Inr (procs, arch)" "distinct (map (\<lambda>p. (pr_chainID p, pr_protocol p)) procs)"
    "(\<lambda>p. (pr_chainID p, pr_protocol p)) ` set procs =
       fst ` set (cf_Chains demo_config) \<times> {''layerzero_v2'', ''axelar'', ''wormhole'', ''ccip''}"
    "\<forall>p \<in> set procs. GetClient (ix_chainMgr idx) (pr_chainID p) = Inr (pr_client p) \<and>
       pg_env (processor_env demo_runtime idx p)"
    by (auto simp: list_all_iff)
  moreover have "fst ` set (cf_Chains demo_config) = {1}" using arg_cong [OF c, of set] by simp
  ultimately show ?thesis
    using i by (auto simp: distinct_map GetClient_def split: option.splits if_splits)
qed

theorem service_index_witness:
  "\<exists>idx procs arch Y. \<exists>evs :: ((u64 \<times> string) \<times> int \<times> raw_event) list. Start demo_runtime idx = Inr (procs, arch) \<and>
     (turn (processor_env demo_runtime idx ` set procs))\<^sup>*\<^sup>*
       (launched (processor_env demo_runtime idx ` set procs) (ix_chainMgr idx) 0 empty_pg) Y \<and>
     60 \<le> unat (sy_cursors Y (1, ''layerzero_v2'')) \<and> 60 \<le> unat (sy_cursors Y (1, ''axelar'')) \<and>
     erase (sy_store Y) = erase (Process_all PostgresMessageStore (map snd evs) empty_pg)"
proof -
  obtain w' idx procs arch where
    i: "indexer_main demo_runtime demo_lz_geth (\<lambda>_ w. (w, Inr demo_rpc)) (Inr demo_config) None
       (Inr demo_minio) demo_libs 0 = (w', Inr idx)"
    and mgr: "ix_chainMgr idx = [(1, demo_dialled)]" and cfg: "ix_config idx = cf_Indexer demo_config"
    and st: "Start demo_runtime idx = Inr (procs, arch)"
    and inj: "inj_on (\<lambda>p. (pr_chainID p, pr_protocol p)) (set procs)"
    and ps: "(\<lambda>p. (pr_chainID p, pr_protocol p)) ` set procs =
       {1} \<times> {''layerzero_v2'', ''axelar'', ''wormhole'', ''ccip''}"
    and each: "\<forall>p \<in> set procs. pr_client p = demo_dialled \<and> pg_env (processor_env demo_runtime idx p)"
    using demo_service by (elim exE conjE) (rule that)
  let ?env = "processor_env demo_runtime idx"
  let ?E = "?env ` set procs" and ?H = "\<lambda>_. demo_headers" and ?M = "\<lambda>_ _ _. True"
  let ?Y0 = "launched ?E (ix_chainMgr idx) 0 empty_pg"
  have env: "ev_batchSize (?env p) = 60" "ident (?env p) = (pr_chainID p, pr_protocol p)"
    "ev_chainID (?env p) = pr_chainID p" "ev_rt (?env p) = demo_runtime" for p
    by (simp_all add: processor_env_def cfg demo_config_def ident_def)
  have one: "pr_chainID p = 1" if "p \<in> set procs" for p using ps that by auto
  have "(1, ''layerzero_v2'') \<in> (\<lambda>p. (pr_chainID p, pr_protocol p)) ` set procs"
    "(1, ''axelar'') \<in> (\<lambda>p. (pr_chainID p, pr_protocol p)) ` set procs" unfolding ps by simp_all
  then obtain p q where p: "p \<in> set procs" "ident (?env p) = (1, ''layerzero_v2'')"
    and q: "q \<in> set procs" "ident (?env q) = (1, ''axelar'')" by (auto simp: env)
  have hs: "hashes_of demo_headers c empty_pg" for c
    by (simp add: hashes_of_def pg_hash_def empty_tables_def)
  have heads: "\<forall>ec \<in> set (cl_endpoints demo_dialled). \<forall>w w' x. ec_BlockNumber ec w = (w', Inr x) \<longrightarrow> 200 \<le> x"
    by (simp add: demo_dialled_ok demo_rpc_def)
  have pe: "\<forall>e \<in> ?E. pg_env e" and ie: "inj_on ident ?E"
    using each inj by (auto simp: inj_on_def env)
  have ok: "\<forall>e \<in> ?E. \<forall>c. map_of (ix_chainMgr idx) (ev_chainID e) = Some c \<longrightarrow>
      chain_ok demo_headers ?M demo_logs 200 (ev_batchSize e) c"
    using demo_dialled_ok(1) by (auto simp: mgr env split: if_splits)
  have move: "\<exists>Z. turn ?E Y Z \<and> sy_running Z = sy_running Y \<and> sy_clients Z 1 \<noteq> None \<and>
      (\<forall>k. k \<noteq> ident (?env r) \<longrightarrow> sy_cursors Z k = sy_cursors Y k) \<and>
      min (unat (sy_cursors Y (ident (?env r))) + 60) 188 \<le> unat (sy_cursors Z (ident (?env r)))"
    if Y: "(turn ?E)\<^sup>*\<^sup>* ?Y0 Y" "sy_running Y = ident ` ?E" "sy_clients Y 1 \<noteq> None" and r: "r \<in> set procs" for Y r
  proof -
    from turns_indexed [where H = ?H and ls = "\<lambda>_. demo_logs" and maxH = "\<lambda>_. 200", OF pe ie _ ok Y(1)] hs have
      "clients_of (ix_chainMgr idx) Y" "hashes_of demo_headers 1 (sy_store Y)" by (auto simp: indexed_def)
    then obtain c where c: "sy_clients Y 1 = Some c" "client_same demo_dialled c" "hashes_of demo_headers 1 (sy_store Y)"
      using Y(3) by (fastforce simp: clients_of_def mgr)
    have "chain_ok demo_headers ?M demo_logs 200 60 c" "responsive demo_runtime c"
      using chain_ok_same [OF c(2)] responsive_same [OF c(2)] demo_dialled_ok by simp_all
    moreover have "set (cl_endpoints c) = set (cl_endpoints demo_dialled)" "cl_confirmationDepth c = 12"
      using client_same_simps [OF c(2)] demo_dialled_ok(4) by simp_all
    moreover have "ident (?env r) \<in> ident ` ?E" by (intro imageI r)
    ultimately show ?thesis
      using service_moves [of "?env r" ?E Y c demo_headers ?M demo_logs 200 200] each r c one [OF r] Y(2) heads
      by (auto simp: env)
  qed
  have "sy_clients ?Y0 1 \<noteq> None" "sy_running ?Y0 = ident ` ?E" by (simp_all add: launched_def mgr)
  with move [of ?Y0 p] p(1) obtain Y1 where Y1: "turn ?E ?Y0 Y1" "sy_running Y1 = ident ` ?E" "sy_clients Y1 1 \<noteq> None"
    "60 \<le> unat (sy_cursors Y1 (ident (?env p)))" by fastforce
  from move [of Y1 q] Y1 q(1) obtain Y where Y: "turn ?E Y1 Y"
    "sy_cursors Y (ident (?env p)) = sy_cursors Y1 (ident (?env p))" "60 \<le> unat (sy_cursors Y (ident (?env q)))"
    using p(2) q(2) by fastforce
  have run: "(turn ?E)\<^sup>*\<^sup>* ?Y0 Y" using Y1(1) Y(1) by simp
  have dis: "distinct (map fst (cf_Chains demo_config))" by (simp add: demo_config_def)
  have b: "\<forall>p \<in> set procs. chain_ok demo_headers ?M demo_logs 200
      (word_of_int (ic_BatchSize (cf_Indexer demo_config))) (pr_client p)"
    using each demo_dialled_ok(1) by (simp add: demo_config_def)
  have "\<forall>c. hashes_of demo_headers c empty_pg" using hs by blast
  from service_index [where H = ?H and ls = "\<lambda>_. demo_logs" and maxH = "\<lambda>_. 200", OF i dis st b this refl run]
  obtain evs :: "((u64 \<times> string) \<times> int \<times> raw_event) list" where
    "erase (sy_store Y) = erase (Process_all PostgresMessageStore (map snd evs) empty_pg)"
    by (elim exE conjE) (rule that, assumption)
  with st run Y Y1(4) p(2) q(2) show ?thesis by metis
qed

end
