(* ===== verification/Stats.thy ===== *)
theory Stats
  imports Complex_Main Handlers
begin

text \<open>
  The statistics, \<open>internal/api/stats_querier.go\<close>, \<open>stats_handler.go\<close>: the aggregate queries on the message
  tables, the cache in front of them and the handlers; and the health check, \<open>handler.go\<close>,
  \<open>cursor_querier.go\<close>. Rates and latencies are exact fractions where the code has \<open>float64\<close>.
\<close>

section \<open>Types\<close>

record StatusBreakdown =
  sb_Executed :: int
  sb_Pending :: int
  sb_Failed :: int
  sb_Total :: int

definition SuccessRate :: "StatusBreakdown \<Rightarrow> rat" where
  "SuccessRate s =
     (let terminal = sb_Executed s + sb_Failed s in
      if terminal = 0 then 0 else of_int (sb_Executed s) / of_int terminal)"

record ProtocolStats =
  ps_Protocol :: string
  ps_Counts :: StatusBreakdown
  ps_SuccessRate :: "rat option"
  ps_AvgLatencySeconds :: "rat option"
  ps_P50LatencySeconds :: "rat option"
  ps_P95LatencySeconds :: "rat option"
  ps_WindowStart :: "int option"
  ps_WindowEnd :: "int option"
  ps_ComputedAt :: int

record RouteStats =
  ru_SrcChainID :: u64
  ru_DstChainID :: u64
  ru_Protocol :: string
  ru_Counts :: StatusBreakdown
  ru_SuccessRate :: "rat option"
  ru_AvgLatencySeconds :: "rat option"

record RoutesStatsResult =
  rr_Routes :: "RouteStats list"
  rr_TotalRoutes :: int
  rr_ComputedAt :: int

record StatsFilter =
  sf_FromTS :: "int option"
  sf_ToTS :: "int option"
  sf_Protocol :: string
  sf_Limit :: int

section \<open>The cache\<close>

datatype cached = CachedProtocol ProtocolStats | CachedRoutes RoutesStatsResult

record cacheEntry =
  ce_value :: cached
  ce_expiresAt :: int

text \<open>The querier's state: the database and the cache's entries. Times are in nanoseconds.\<close>

record stats =
  sq_pg :: pg
  sq_entries :: "string \<rightharpoonup> cacheEntry"

definition valid :: "int \<Rightarrow> cacheEntry \<Rightarrow> bool" where
  "valid now e \<longleftrightarrow> now < ce_expiresAt e"

definition cache_get :: "int \<Rightarrow> string \<Rightarrow> stats \<Rightarrow> cached option" where
  "cache_get now key s =
     (case sq_entries s key of
        None \<Rightarrow> None
      | Some e \<Rightarrow> if \<not> valid now e then None else Some (ce_value e))"

definition cache_set :: "int \<Rightarrow> int \<Rightarrow> string \<Rightarrow> cached \<Rightarrow> stats \<Rightarrow> stats" where
  "cache_set ttl now key v s =
     s\<lparr>sq_entries := (sq_entries s)(key \<mapsto> \<lparr>ce_value = v, ce_expiresAt = now + ttl\<rparr>)\<rparr>"

definition evict :: "int \<Rightarrow> stats \<Rightarrow> stats" where
  "evict now s =
     s\<lparr>sq_entries := (\<lambda>k. case sq_entries s k of
        None \<Rightarrow> None
      | Some e \<Rightarrow> if now > ce_expiresAt e then None else Some e)\<rparr>"

definition cacheKey :: "string \<Rightarrow> string \<Rightarrow> StatsFilter \<Rightarrow> string" where
  "cacheKey pre protocol f =
     (let from = (case sf_FromTS f of None \<Rightarrow> 0 | Some t \<Rightarrow> t);
          to = (case sf_ToTS f of None \<Rightarrow> 0 | Some t \<Rightarrow> t) in
      pre @ '':'' @ protocol @ '':'' @ sf_Protocol f @ '':'' @ dec_int from @ '':'' @ dec_int to @ '':''
      @ dec_int (sf_Limit f))"

section \<open>Aggregates of SQL\<close>

text \<open>\<open>AVG\<close> and \<open>PERCENTILE_CONT\<close>, null of no values.\<close>

definition sql_avg :: "int list \<Rightarrow> rat option" where
  "sql_avg xs = (if xs = [] then None else Some (of_int (sum_list xs) / of_nat (length xs)))"

definition percentile_cont :: "rat \<Rightarrow> int list \<Rightarrow> rat option" where
  "percentile_cont p xs =
     (if xs = [] then None
      else
        (let ys = sort xs; r = p * of_nat (length xs - 1); lo = nat \<lfloor>r\<rfloor>; hi = nat \<lceil>r\<rceil> in
         Some (of_int (ys ! lo) + (r - of_nat lo) * of_int (ys ! hi - ys ! lo))))"

text \<open>\<open>GROUP BY\<close>: the values in the order they are first met, each once, with their rows.\<close>

definition group_by :: "('a \<Rightarrow> 'k) \<Rightarrow> 'a list \<Rightarrow> ('k \<times> 'a list) list" where
  "group_by f xs = map (\<lambda>k. (k, filter (\<lambda>x. f x = k) xs)) (remdups (map f xs))"

section \<open>One protocol\<close>

text \<open>The join with the sources and the bounds on the timestamp, when a bound is given.\<close>

definition in_window :: "StatsFilter \<Rightarrow> tables \<Rightarrow> string \<Rightarrow> bool" where
  "in_window f t mid \<longleftrightarrow>
     (if sf_FromTS f \<noteq> None \<or> sf_ToTS f \<noteq> None then
        (case t_sources t mid of
           None \<Rightarrow> False
         | Some src \<Rightarrow>
             (case sf_FromTS f of None \<Rightarrow> True | Some ts \<Rightarrow> src_Timestamp src \<ge> ts) \<and>
             (case sf_ToTS f of None \<Rightarrow> True | Some ts \<Rightarrow> src_Timestamp src \<le> ts))
      else True)"

definition protocol_rows :: "pg \<Rightarrow> string \<Rightarrow> StatsFilter \<Rightarrow> tables \<Rightarrow> (string \<times> message_row) list" where
  "protocol_rows s protocol f t =
     filter (\<lambda>(mid, row). mr_protocol row = protocol \<and> in_window f t mid)
       (List.map_filter (\<lambda>mid. map_option (Pair mid) (t_messages t mid)) (pg_plan s (t_ids t)))"

definition status_counts :: "pg \<Rightarrow> string \<Rightarrow> StatsFilter \<Rightarrow> tables \<Rightarrow> (string \<times> int) list" where
  "status_counts s protocol f t =
     map (\<lambda>(status, rows). (status, int (length rows)))
       (group_by (\<lambda>(_, row). mr_status row) (protocol_rows s protocol f t))"

text \<open>The scan of the counted rows; a status the switch does not know is passed over.\<close>

definition scan_count :: "StatusBreakdown \<Rightarrow> string \<times> int \<Rightarrow> StatusBreakdown" where
  "scan_count counts x =
     (case x of (status, cnt) \<Rightarrow>
        if status = StatusExecuted then counts\<lparr>sb_Executed := cnt\<rparr>
        else if status = StatusPending then counts\<lparr>sb_Pending := cnt\<rparr>
        else if status = StatusFailed then counts\<lparr>sb_Failed := cnt\<rparr>
        else counts)"

definition no_counts :: StatusBreakdown where
  "no_counts = \<lparr>sb_Executed = 0, sb_Pending = 0, sb_Failed = 0, sb_Total = 0\<rparr>"

definition scan_counts :: "(string \<times> int) list \<Rightarrow> StatusBreakdown" where
  "scan_counts rows =
     (let counts = foldl scan_count no_counts rows in
      counts\<lparr>sb_Total := sb_Executed counts + sb_Pending counts + sb_Failed counts\<rparr>)"

definition executed_latencies :: "pg \<Rightarrow> string \<Rightarrow> StatsFilter \<Rightarrow> tables \<Rightarrow> int list" where
  "executed_latencies s protocol f t =
     filter (\<lambda>l. l > 0)
       (List.map_filter (\<lambda>(mid, row). if mr_status row = StatusExecuted
          then Option.bind (t_metadata t mid) mt_latency else None) (protocol_rows s protocol f t))"

definition rate_of :: "StatusBreakdown \<Rightarrow> rat option" where
  "rate_of counts = (if sb_Executed counts + sb_Failed counts > 0 then Some (SuccessRate counts) else None)"

text \<open>
  The clock reads \<open>now\<close> when the cache is asked and \<open>later\<close> when the result is built and stored. The
  type assertion on a cached value of the other kind would panic.
\<close>

definition GetProtocolStats ::
    "int \<Rightarrow> int \<Rightarrow> int \<Rightarrow> string \<Rightarrow> StatsFilter \<Rightarrow> stats \<Rightarrow> stats \<times> (error + ProtocolStats)" where
  "GetProtocolStats ttl now later protocol f s =
     (if protocol = [] then (s, Inl (Errorf ''protocol is required''))
      else
        let key = cacheKey ''proto'' protocol f in
        (case cache_get now key s of
           Some (CachedProtocol v) \<Rightarrow> (s, Inr v)
         | Some _ \<Rightarrow> (s, Inl (Errorf ''interface conversion''))
         | None \<Rightarrow>
             (case query_rows ''querying protocol status counts'' ''iterating status rows''
                     (status_counts (sq_pg s) protocol f) (sq_pg s) of
                (g, Inl err) \<Rightarrow> (s\<lparr>sq_pg := g\<rparr>, Inl err)
              | (g, Inr rows) \<Rightarrow>
                  let counts = scan_counts rows in
                  (case query_one (\<lambda>t. Inr (executed_latencies g protocol f t)) g of
                     (g, Inl err) \<Rightarrow> (s\<lparr>sq_pg := g\<rparr>, Inl (Wrapf ''querying protocol latency'' err))
                   | (g, Inr lats) \<Rightarrow>
                       let v = \<lparr>ps_Protocol = protocol, ps_Counts = counts, ps_SuccessRate = rate_of counts,
                             ps_AvgLatencySeconds = sql_avg lats,
                             ps_P50LatencySeconds = percentile_cont (1 / 2) lats,
                             ps_P95LatencySeconds = percentile_cont (95 / 100) lats,
                             ps_WindowStart = sf_FromTS f, ps_WindowEnd = sf_ToTS f, ps_ComputedAt = later\<rparr> in
                       (evict later (cache_set ttl later key (CachedProtocol v) (s\<lparr>sq_pg := g\<rparr>)), Inr v)))))"

section \<open>Routes\<close>

text \<open>A joined row: source and destination chain, status, and the latency when there is one.\<close>

record route_row =
  ro_src :: u64
  ro_dst :: u64
  ro_status :: string
  ro_latency :: "int option"

definition scan_route :: "StatsFilter \<Rightarrow> tables \<Rightarrow> string \<Rightarrow> route_row option" where
  "scan_route f t mid =
     (case (t_messages t mid, t_sources t mid, t_destinations t mid) of
        (Some row, Some src, Some d) \<Rightarrow>
          if (sf_Protocol f \<noteq> [] \<longrightarrow> mr_protocol row = sf_Protocol f) \<and>
             (case sf_FromTS f of None \<Rightarrow> True | Some ts \<Rightarrow> src_Timestamp src \<ge> ts) \<and>
             (case sf_ToTS f of None \<Rightarrow> True | Some ts \<Rightarrow> src_Timestamp src \<le> ts)
          then Some \<lparr>ro_src = src_ChainID src, ro_dst = dst_ChainID d, ro_status = mr_status row,
            ro_latency = Option.bind (t_metadata t mid) mt_latency\<rparr>
          else None
      | _ \<Rightarrow> None)"

definition status_sum :: "string \<Rightarrow> route_row list \<Rightarrow> int" where
  "status_sum st rows = sum_list (map (\<lambda>r. if ro_status r = st then 1 else 0) rows)"

definition route_of :: "StatsFilter \<Rightarrow> (u64 \<times> u64) \<times> route_row list \<Rightarrow> RouteStats" where
  "route_of f x =
     (case x of ((src, dst), rows) \<Rightarrow>
        let counts = \<lparr>sb_Executed = status_sum StatusExecuted rows, sb_Pending = status_sum StatusPending rows,
              sb_Failed = status_sum StatusFailed rows, sb_Total = int (length rows)\<rparr> in
        \<lparr>ru_SrcChainID = src, ru_DstChainID = dst, ru_Protocol = sf_Protocol f, ru_Counts = counts,
         ru_SuccessRate = rate_of counts,
         ru_AvgLatencySeconds = sql_avg (filter (\<lambda>l. l > 0) (List.map_filter ro_latency rows))\<rparr>)"

definition route_rows :: "pg \<Rightarrow> StatsFilter \<Rightarrow> tables \<Rightarrow> RouteStats list" where
  "route_rows s f t =
     order_by (\<lambda>a b. sb_Total (ru_Counts b) \<le> sb_Total (ru_Counts a))
       (map (route_of f) (group_by (\<lambda>r. (ro_src r, ro_dst r))
          (List.map_filter (scan_route f t) (pg_plan s (t_ids t)))))"

definition GetRoutesStats ::
    "int \<Rightarrow> int \<Rightarrow> int \<Rightarrow> StatsFilter \<Rightarrow> stats \<Rightarrow> stats \<times> (error + RoutesStatsResult)" where
  "GetRoutesStats ttl now later f s =
     (let key = cacheKey ''routes'' [] f in
      case cache_get now key s of
        Some (CachedRoutes v) \<Rightarrow> (s, Inr v)
      | Some _ \<Rightarrow> (s, Inl (Errorf ''interface conversion''))
      | None \<Rightarrow>
          (case query_rows ''querying routes stats'' ''iterating route rows''
                  (\<lambda>t. take (clamp_limit (sf_Limit f)) (route_rows (sq_pg s) f t)) (sq_pg s) of
             (g, Inl err) \<Rightarrow> (s\<lparr>sq_pg := g\<rparr>, Inl err)
           | (g, Inr routes) \<Rightarrow>
               let v = \<lparr>rr_Routes = routes, rr_TotalRoutes = int (length routes), rr_ComputedAt = later\<rparr> in
               (evict later (cache_set ttl later key (CachedRoutes v) (s\<lparr>sq_pg := g\<rparr>)), Inr v)))"

section \<open>Handlers\<close>

record 's StatsQuerier =
  sq_GetProtocolStats :: "string \<Rightarrow> StatsFilter \<Rightarrow> 's \<Rightarrow> 's \<times> (error + ProtocolStats)"
  sq_GetRoutesStats :: "StatsFilter \<Rightarrow> 's \<Rightarrow> 's \<times> (error + RoutesStatsResult)"

datatype stats_body = StatsError string | ProtocolBody ProtocolStats | RoutesBody RoutesStatsResult

definition knownProtocols :: "string list" where
  "knownProtocols = [''layerzero_v2'', ''wormhole'', ''axelar'', ''ccip'']"

definition window_reversed :: "int option \<Rightarrow> int option \<Rightarrow> bool" where
  "window_reversed fromTS toTS = (case (fromTS, toTS) of (Some a, Some b) \<Rightarrow> a > b | _ \<Rightarrow> False)"

definition GetProtocolStatsHandler ::
    "'s StatsQuerier \<Rightarrow> request \<Rightarrow> 's \<Rightarrow> 's \<times> nat \<times> stats_body" where
  "GetProtocolStatsHandler sq r s =
     (let protocol = rq_Param r ''protocol'' in
      if protocol = [] then (s, StatusBadRequest, StatsError ''protocol is required'')
      else if map ascii_lower protocol \<notin> set knownProtocols
      then (s, StatusNotFound, StatsError ''unknown protocol: must be one of layerzero_v2, wormhole, axelar, ccip'')
      else
        let protocol = map ascii_lower protocol in
        (case ParseInt64Param (rq_Query r ''from_ts'') of
           Inl err \<Rightarrow> (s, StatusBadRequest, StatsError ''invalid from_ts: must be a Unix timestamp'')
         | Inr fromTS \<Rightarrow>
             (case ParseInt64Param (rq_Query r ''to_ts'') of
                Inl err \<Rightarrow> (s, StatusBadRequest, StatsError ''invalid to_ts: must be a Unix timestamp'')
              | Inr toTS \<Rightarrow>
                  if window_reversed fromTS toTS
                  then (s, StatusBadRequest, StatsError ''from_ts must not be greater than to_ts'')
                  else
                    (case sq_GetProtocolStats sq protocol
                            \<lparr>sf_FromTS = fromTS, sf_ToTS = toTS, sf_Protocol = [], sf_Limit = 0\<rparr> s of
                       (s, Inl err) \<Rightarrow>
                         (s, StatusInternalServerError, StatsError ''failed to compute protocol stats'')
                     | (s, Inr v) \<Rightarrow> (s, StatusOK, ProtocolBody v)))))"

definition GetRoutesStatsHandler ::
    "'s StatsQuerier \<Rightarrow> request \<Rightarrow> 's \<Rightarrow> 's \<times> nat \<times> stats_body" where
  "GetRoutesStatsHandler sq r s =
     (case ParseInt64Param (rq_Query r ''from_ts'') of
        Inl err \<Rightarrow> (s, StatusBadRequest, StatsError ''invalid from_ts: must be a Unix timestamp'')
      | Inr fromTS \<Rightarrow>
          (case ParseInt64Param (rq_Query r ''to_ts'') of
             Inl err \<Rightarrow> (s, StatusBadRequest, StatsError ''invalid to_ts: must be a Unix timestamp'')
           | Inr toTS \<Rightarrow>
               if window_reversed fromTS toTS
               then (s, StatusBadRequest, StatsError ''from_ts must not be greater than to_ts'')
               else
                 let protocol = map ascii_lower (rq_Query r ''protocol'') in
                 if protocol \<noteq> [] \<and> protocol \<notin> set knownProtocols
                 then (s, StatusBadRequest,
                       StatsError ''invalid protocol: must be one of layerzero_v2, wormhole, axelar, ccip'')
                 else
                   (case limit_param ParseInt10 (rq_Query r ''limit'') of
                      None \<Rightarrow> (s, StatusBadRequest, StatsError ''invalid limit: must be a positive integer'')
                    | Some limit \<Rightarrow>
                        (case sq_GetRoutesStats sq
                                \<lparr>sf_FromTS = fromTS, sf_ToTS = toTS, sf_Protocol = protocol, sf_Limit = limit\<rparr> s of
                           (s, Inl err) \<Rightarrow>
                             (s, StatusInternalServerError, StatsError ''failed to compute routes stats'')
                         | (s, Inr v) \<Rightarrow> (s, StatusOK, RoutesBody v)))))"

definition PgStatsQuerier :: "int \<Rightarrow> int \<Rightarrow> int \<Rightarrow> stats StatsQuerier" where
  "PgStatsQuerier ttl now later =
     \<lparr>sq_GetProtocolStats = GetProtocolStats ttl now later, sq_GetRoutesStats = GetRoutesStats ttl now later\<rparr>"

section \<open>Health\<close>

record CursorInfo =
  ci_ChainID :: int
  ci_Protocol :: string
  ci_LastBlock :: int
  ci_UpdatedAt :: int

text \<open>A nil list of cursors is \<open>None\<close>; so is a missing indexer state.\<close>

record healthResponse =
  hr_Status :: string
  hr_Database :: string
  hr_Indexer :: "CursorInfo list option option"
  hr_Error :: "error option"

definition StatusServiceUnavailable :: nat where "StatusServiceUnavailable = 503"

definition HealthHandler ::
    "('s \<Rightarrow> 's \<times> error option) \<Rightarrow> ('s \<Rightarrow> 's \<times> (error + CursorInfo list)) \<Rightarrow> 's \<Rightarrow> 's \<times> nat \<times> healthResponse" where
  "HealthHandler ping queryCursors s =
     (let resp = \<lparr>hr_Status = ''ok'', hr_Database = ''connected'', hr_Indexer = None, hr_Error = None\<rparr> in
      case ping s of
        (s, Some err) \<Rightarrow>
          (s, StatusServiceUnavailable,
           resp\<lparr>hr_Status := ''degraded'', hr_Database := ''disconnected'', hr_Error := Some err\<rparr>)
      | (s, None) \<Rightarrow>
          (case queryCursors s of
             (s, Inl err) \<Rightarrow> (s, StatusOK, resp\<lparr>hr_Indexer := Some None\<rparr>)
           | (s, Inr cursors) \<Rightarrow> (s, StatusOK, resp\<lparr>hr_Indexer := Some (Some cursors)\<rparr>)))"

section \<open>What the statistics say\<close>

text \<open>The messages a protocol's statistics are about, one id each.\<close>

definition stat_ids :: "tables \<Rightarrow> string \<Rightarrow> StatsFilter \<Rightarrow> string \<Rightarrow> string set" where
  "stat_ids t protocol f status =
     {mid. \<exists>row. t_messages t mid = Some row \<and> mr_protocol row = protocol \<and> mr_status row = status \<and>
        in_window f t mid}"

lemma foldl_scan_count:
  assumes "distinct (map fst rows)"
  shows "sb_Executed (foldl scan_count c rows) = (case map_of rows StatusExecuted of None \<Rightarrow> sb_Executed c | Some n \<Rightarrow> n) \<and>
     sb_Pending (foldl scan_count c rows) = (case map_of rows StatusPending of None \<Rightarrow> sb_Pending c | Some n \<Rightarrow> n) \<and>
     sb_Failed (foldl scan_count c rows) = (case map_of rows StatusFailed of None \<Rightarrow> sb_Failed c | Some n \<Rightarrow> n)"
  using assms
proof (induction rows arbitrary: c)
  case (Cons x rows)
  obtain st n where x: "x = (st, n)" by (metis prod.exhaust)
  have "distinct (map fst rows)" "map_of rows st = None"
    using Cons.prems by (auto simp: x map_of_eq_None_iff)
  then show ?case using Cons.IH [of "scan_count c x"]
    by (auto simp: x scan_count_def StatusExecuted_def StatusPending_def StatusFailed_def split: option.split)
qed simp

lemma map_of_group_by:
  "map_of (map (\<lambda>(k, rows). (k, g rows)) (group_by f xs)) k =
     (if k \<in> f ` set xs then Some (g (filter (\<lambda>x. f x = k) xs)) else None)"
proof -
  have "map (\<lambda>(k, rows). (k, g rows)) (group_by f xs) =
      map (\<lambda>k. (k, g (filter (\<lambda>x. f x = k) xs))) (remdups (map f xs))"
    by (simp add: group_by_def)
  then show ?thesis by (simp add: map_of_map_restrict)
qed

lemma distinct_group_by: "distinct (map fst (map (\<lambda>(k, rows). (k, g rows)) (group_by f xs)))"
proof -
  have "map fst (map (\<lambda>(k, rows). (k, g rows)) (group_by f xs)) = remdups (map f xs)"
    by (simp add: group_by_def comp_def)
  then show ?thesis by simp
qed

lemma protocol_rows_status:
  assumes "plan_perm s" and "schema_ok t"
  shows "length (filter (\<lambda>x. mr_status (snd x) = status) (protocol_rows s protocol f t)) = card (stat_ids t protocol f status)"
proof -
  let ?rows = "filter (\<lambda>x. mr_status (snd x) = status) (protocol_rows s protocol f t)"
  let ?all = "List.map_filter (\<lambda>mid. map_option (Pair mid) (t_messages t mid)) (pg_plan s (t_ids t))"
  have ms: "mset (pg_plan s (t_ids t)) = mset (t_ids t)" using assms(1) by (simp add: plan_perm_def)
  then have ids: "distinct (pg_plan s (t_ids t))" "set (pg_plan s (t_ids t)) = set (t_ids t)"
    using assms(2) by (metis mset_eq_imp_distinct_iff schema_ok_def, metis set_mset_mset)
  have "map fst (List.map_filter (\<lambda>mid. map_option (Pair mid) (t_messages t mid)) xs) =
      filter (\<lambda>mid. t_messages t mid \<noteq> None) xs" for xs
    by (induction xs) (auto simp: List.map_filter_def)
  then have d: "distinct (map fst ?all)" using ids(1) by simp
  then have "distinct (map fst ?rows)" unfolding protocol_rows_def by (intro distinct_map_filter)
  moreover have "set (map fst ?rows) = stat_ids t protocol f status"
  proof -
    have in_all: "(mid, row) \<in> set ?all \<longleftrightarrow> t_messages t mid = Some row" for mid row
    proof -
      have "t_messages t mid = Some row \<Longrightarrow> mid \<in> set (t_ids t)"
        using assms(2) by (auto simp: schema_ok_def row_schema_def)
      moreover have "(mid, row) \<in> set (List.map_filter (\<lambda>mid. map_option (Pair mid) (t_messages t mid)) xs) \<longleftrightarrow>
          mid \<in> set xs \<and> t_messages t mid = Some row" for xs
        by (induction xs) (auto simp: List.map_filter_simps split: option.splits)
      ultimately show ?thesis using ids(2) by auto
    qed
    show ?thesis
      by (auto simp: protocol_rows_def stat_ids_def in_all image_iff)
  qed
  ultimately show ?thesis by (metis distinct_card length_map)
qed

lemma counted:
  assumes "plan_perm s" and "schema_ok t"
  shows "(case map_of (status_counts s protocol f t) status of None \<Rightarrow> 0 | Some n \<Rightarrow> n) =
     int (card (stat_ids t protocol f status))"
proof -
  let ?rows = "protocol_rows s protocol f t"
  have "map_of (status_counts s protocol f t) status =
      (if status \<in> (\<lambda>x. mr_status (snd x)) ` set ?rows
       then Some (int (length (filter (\<lambda>x. mr_status (snd x) = status) ?rows))) else None)"
    using map_of_group_by [of "\<lambda>rows. int (length rows)" "\<lambda>(_, row). mr_status row" ?rows status]
    by (simp add: status_counts_def case_prod_unfold)
  moreover have "filter (\<lambda>x. mr_status (snd x) = status) ?rows = []" if "status \<notin> (\<lambda>x. mr_status (snd x)) ` set ?rows"
    using that by (auto simp: filter_empty_conv)
  ultimately show ?thesis using protocol_rows_status [OF assms, of status protocol f] by (auto split: if_splits)
qed

lemma distinct_status_counts: "distinct (map fst (status_counts s protocol f t))"
  unfolding status_counts_def by (rule distinct_group_by)

lemma scan_counts_ids:
  assumes "plan_perm s" and "schema_ok t"
  shows "scan_counts (status_counts s protocol f t) =
     (let n = (\<lambda>st. int (card (stat_ids t protocol f st))) in
      \<lparr>sb_Executed = n StatusExecuted, sb_Pending = n StatusPending, sb_Failed = n StatusFailed,
       sb_Total = n StatusExecuted + n StatusPending + n StatusFailed\<rparr>)"
proof -
  let ?c = "foldl scan_count no_counts (status_counts s protocol f t)"
  have z: "sb_Executed no_counts = 0" "sb_Pending no_counts = 0" "sb_Failed no_counts = 0"
    by (simp_all add: no_counts_def)
  have "sb_Executed ?c = int (card (stat_ids t protocol f StatusExecuted))"
    "sb_Pending ?c = int (card (stat_ids t protocol f StatusPending))"
    "sb_Failed ?c = int (card (stat_ids t protocol f StatusFailed))"
    using foldl_scan_count [OF distinct_status_counts [of s protocol f t], of no_counts,
        unfolded z counted [OF assms]] by simp_all
  then show ?thesis by (cases ?c) (simp add: scan_counts_def Let_def)
qed

text \<open>
  C38: the statistics of a protocol count every message once. Computed from a consistent database,
  the number of executed, pending and failed messages are the numbers of stored messages of the
  protocol with that status and a source event within the bounds; and the success rate is there
  exactly when a message has reached a final status, and is then the executed share, between 0
  and 1.
\<close>

theorem protocol_stats_counts:
  assumes "plan_perm (sq_pg s)" and "schema_ok (pg_tables (sq_pg s))" and "pg_faults (sq_pg s) = []"
    and "protocol \<noteq> []" and "cache_get now (cacheKey ''proto'' protocol f) s = None"
  shows "\<exists>s' v. GetProtocolStats ttl now later protocol f s = (s', Inr v) \<and>
     (let n = (\<lambda>st. int (card (stat_ids (pg_tables (sq_pg s)) protocol f st))) in
      ps_Counts v = \<lparr>sb_Executed = n StatusExecuted, sb_Pending = n StatusPending, sb_Failed = n StatusFailed,
        sb_Total = n StatusExecuted + n StatusPending + n StatusFailed\<rparr> \<and>
      (case ps_SuccessRate v of
         None \<Rightarrow> n StatusExecuted + n StatusFailed = 0
       | Some x \<Rightarrow> 0 < n StatusExecuted + n StatusFailed \<and> 0 \<le> x \<and> x \<le> 1 \<and>
           x * of_int (n StatusExecuted + n StatusFailed) = of_int (n StatusExecuted)))"
proof -
  let ?t = "pg_tables (sq_pg s)"
  have q: "query_rows c1 c2 q (sq_pg s) = (sq_pg s, Inr (q ?t))" for c1 c2 and q :: "tables \<Rightarrow> 'b list"
    using assms(3) by (simp add: query_rows_def tick_def)
  let ?counts = "scan_counts (status_counts (sq_pg s) protocol f ?t)"
  obtain s' v where g: "GetProtocolStats ttl now later protocol f s = (s', Inr v)" and
    v: "ps_Counts v = ?counts" "ps_SuccessRate v = rate_of ?counts"
    using assms(3-5) by (simp add: GetProtocolStats_def q query_one_def Let_def)
  note c = scan_counts_ids [OF assms(1,2), of protocol f]
  show ?thesis
    using g v c by (auto simp: Let_def rate_of_def SuccessRate_def divide_le_eq)
qed

text \<open>
  C39: a cached answer is given to every filter with the same key. For as long as an entry lives, no
  query reaches the database, and a request whose filter renders to the same key gets the stored
  statistics: so a request up to time 0 gets those of all times when these were asked for before.
\<close>

theorem stats_cached:
  assumes "GetProtocolStats ttl now later protocol f s = (s', Inr v)"
    and "cache_get now (cacheKey ''proto'' protocol f) s = None" and "protocol \<noteq> []"
    and "cacheKey ''proto'' protocol g = cacheKey ''proto'' protocol f"
    and "0 \<le> ttl" and "now' < later + ttl"
  shows "GetProtocolStats ttl now' later' protocol g (s'\<lparr>sq_pg := db\<rparr>) = (s'\<lparr>sq_pg := db\<rparr>, Inr v)"
proof -
  have "\<exists>s1. s' = evict later (cache_set ttl later (cacheKey ''proto'' protocol f) (CachedProtocol v) s1)"
    using assms(1-3) by (auto simp: GetProtocolStats_def Let_def split: prod.splits sum.splits)
  then have "sq_entries s' (cacheKey ''proto'' protocol f) = Some \<lparr>ce_value = CachedProtocol v, ce_expiresAt = later + ttl\<rparr>"
    using assms(5) by (auto simp: evict_def cache_set_def)
  then show ?thesis
    using assms(3,4,6) by (simp add: GetProtocolStats_def cache_get_def valid_def Let_def)
qed

section \<open>Examples\<close>

definition demo_stats :: stats where
  "demo_stats = \<lparr>sq_pg = demo_three, sq_entries = Map.empty\<rparr>"

definition all_time :: StatsFilter where
  "all_time = \<lparr>sf_FromTS = None, sf_ToTS = None, sf_Protocol = [], sf_Limit = 0\<rparr>"

lemma demo_stats_ok [simp]: "sq_pg demo_stats = demo_three" "sq_entries demo_stats = Map.empty"
  by (simp_all add: demo_stats_def)

theorem protocol_stats_counts_witness:
  "\<exists>s' v. GetProtocolStats 60 0 1 (msg_Protocol demo_message) all_time demo_stats = (s', Inr v) \<and>
     sb_Pending (ps_Counts v) = 3 \<and> ps_SuccessRate v = None"
proof -
  let ?p = "msg_Protocol demo_message"
  have ids: "stat_ids (pg_tables demo_three) ?p all_time st = (if st = StatusPending then set demo_ids else {})" for st
    by (auto simp: stat_ids_def demo_three_def upsert_spec_def Let_def demo_message_def empty_tables_def
        upserted_message_def in_window_def all_time_def demo_ids_def StatusPending_def split: if_splits)
  have p: "?p \<noteq> []" by (simp add: demo_message_def)
  have "card (set demo_ids) = 3" by (simp add: demo_ids_def)
  moreover have "cache_get 0 key demo_stats = None" for key by (simp add: cache_get_def)
  ultimately obtain s' v where g: "GetProtocolStats 60 0 1 ?p all_time demo_stats = (s', Inr v)"
    and v: "ps_Counts v = \<lparr>sb_Executed = 0, sb_Pending = 3, sb_Failed = 0, sb_Total = 3\<rparr>"
      "case ps_SuccessRate v of None \<Rightarrow> True | Some x \<Rightarrow> False"
    using protocol_stats_counts [of demo_stats ?p 0 all_time 60 1, unfolded Let_def demo_stats_ok ids]
      demo_three_facts p
    by (auto simp: StatusPending_def StatusExecuted_def StatusFailed_def split: option.splits)
  then show ?thesis by (auto split: option.splits)
qed

definition up_to_epoch :: StatsFilter where
  "up_to_epoch = \<lparr>sf_FromTS = None, sf_ToTS = Some 0, sf_Protocol = [], sf_Limit = 0\<rparr>"

theorem stats_cached_witness:
  "\<exists>s' v s2. GetProtocolStats 60 0 1 (msg_Protocol demo_message) all_time demo_stats = (s', Inr v) \<and>
     GetProtocolStats 60 2 3 (msg_Protocol demo_message) up_to_epoch s' = (s2, Inr v) \<and>
     sb_Pending (ps_Counts v) = 3"
proof -
  let ?p = "msg_Protocol demo_message"
  have p: "?p \<noteq> []" by (simp add: demo_message_def)
  have none: "cache_get 0 key demo_stats = None" for key by (simp add: cache_get_def)
  have ids: "stat_ids (pg_tables demo_three) ?p all_time StatusPending = set demo_ids"
    by (auto simp: stat_ids_def demo_three_def upsert_spec_def Let_def demo_message_def empty_tables_def
        upserted_message_def in_window_def all_time_def demo_ids_def StatusPending_def split: if_splits)
  have q: "query_rows c1 c2 q demo_three = (demo_three, Inr (q (pg_tables demo_three)))" for c1 c2
    and q :: "tables \<Rightarrow> (string \<times> int) list"
    using demo_three_facts by (simp add: query_rows_def tick_def)
  obtain s' v where g: "GetProtocolStats 60 0 1 ?p all_time demo_stats = (s', Inr v)"
    and c: "ps_Counts v = scan_counts (status_counts demo_three ?p all_time (pg_tables demo_three))"
    using demo_three_facts(1) p none by (simp add: GetProtocolStats_def q query_one_def Let_def)
  have "GetProtocolStats 60 2 3 ?p up_to_epoch (s'\<lparr>sq_pg := sq_pg s'\<rparr>) = (s'\<lparr>sq_pg := sq_pg s'\<rparr>, Inr v)"
    by (rule stats_cached [OF g none p]) (simp_all add: cacheKey_def up_to_epoch_def all_time_def)
  moreover have "sb_Pending (ps_Counts v) = 3"
    unfolding c scan_counts_ids [OF demo_three_facts(3,2)] Let_def by (simp add: ids) (simp add: demo_ids_def)
  ultimately show ?thesis using g by auto
qed

end
