(* ===== verification/Archiving.thy ===== *)
theory Archiving
  imports Archive
begin

text \<open>
  What a cycle of the archiver leaves behind: the finished months partition the time line, object
  keys tell months apart, and with a working database and object store every finished month of
  every protocol and chain is stored, recorded with its checksum, and reads back to its records.
\<close>

section \<open>Months partition time\<close>

lemma month_unix_mono: "j < k \<Longrightarrow> month_unix j < month_unix k"
proof (induction k)
  case (Suc k)
  show ?case
  proof (cases "j = k")
    case True
    with month_step [of k] show ?thesis by simp
  next
    case False
    with Suc month_step [of k] show ?thesis by simp
  qed
qed simp

lemma month_start_is: "\<exists>k. month_start j now = month_unix k"
proof (induction j now rule: month_start.induct)
  case (1 k now)
  then show ?case by (subst month_start.simps) auto
qed

text \<open>
  Months: every time from the start of the scan up to the start of the current month lies in
  exactly one of the months the archiver goes through, from the month's first second on and before
  the next one's.
\<close>

lemma month_exists: "scanStart \<le> ts \<Longrightarrow> ts < month_unix n \<Longrightarrow>
    \<exists>k < n. month_unix k \<le> ts \<and> ts < month_unix (Suc k)"
proof (induction n)
  case (Suc n)
  show ?case
  proof (cases "ts < month_unix n")
    case True
    with Suc show ?thesis by (auto intro: less_SucI)
  next
    case False
    with Suc show ?thesis by (auto intro!: exI [of _ n])
  qed
qed simp

lemma months_partition:
  assumes "scanStart \<le> ts" and "ts < month_start 0 now"
  shows "\<exists>!k. month_unix k < month_start 0 now \<and> month_unix k \<le> ts \<and> ts < month_unix (Suc k)"
proof -
  obtain n where n: "month_start 0 now = month_unix n" using month_start_is by blast
  from month_exists [OF assms(1)] assms(2) n obtain k where
    k: "k < n" "month_unix k \<le> ts" "ts < month_unix (Suc k)" by metis
  show ?thesis
  proof (rule ex1I [of _ k])
    show "month_unix k < month_start 0 now \<and> month_unix k \<le> ts \<and> ts < month_unix (Suc k)"
      using k month_unix_mono n by simp
    show "j = k" if j: "month_unix j < month_start 0 now \<and> month_unix j \<le> ts \<and> ts < month_unix (Suc j)" for j
    proof -
      have "month_unix a \<le> month_unix b" if "a \<le> b" for a b
        using that month_unix_mono [of a b] by (cases "a = b") auto
      from this [of "Suc j" k] this [of "Suc k" j] k(2,3) j show ?thesis
        by (cases j k rule: linorder_cases) auto
    qed
  qed
qed

section \<open>Object keys\<close>

lemma dec_inj: "dec a = dec b \<longleftrightarrow> a = b"
proof (induction a arbitrary: b rule: less_induct)
  case (less a)
  have digit: "digit_char x = digit_char y \<longleftrightarrow> x = y" if "x < 10" "y < 10" for x y
    using that by (metis digit_val_digit_char option.inject)
  have small: "dec x = [digit_char x]" if "x < 10" for x using that by (subst dec.simps) simp
  have big: "dec x = dec (x div 10) @ [digit_char (x mod 10)]" if "\<not> x < 10" for x
    using that by (subst dec.simps) simp
  show ?case
  proof (cases "a < 10"; cases "b < 10")
    assume ab: "\<not> a < 10" "\<not> b < 10"
    have "dec a = dec b \<longleftrightarrow> a div 10 = b div 10 \<and> a mod 10 = b mod 10"
      unfolding big [OF ab(1)] big [OF ab(2)] using less.IH [of "a div 10" "b div 10"] ab(1)
      by (simp add: digit)
    then show ?thesis by (metis div_mult_mod_eq)
  next
    assume ab: "a < 10" "\<not> b < 10"
    then show ?thesis unfolding small [OF ab(1)] big [OF ab(2)] by auto
  next
    assume ab: "\<not> a < 10" "b < 10"
    then show ?thesis unfolding big [OF ab(1)] small [OF ab(2)] by auto
  qed (simp add: small digit)
qed

lemma year_month_inj: "year_month j = year_month k \<longleftrightarrow> j = k"
proof
  let ?pad = "\<lambda>m. (if m < 10 then ''0'' else []) @ dec m"
  assume eq: "year_month j = year_month k"
  have "CHR ''-'' \<notin> set (dec n)" for n using set_dec [of n] by auto
  with eq have parts: "2020 + j div 12 = 2020 + k div 12" "?pad (j mod 12 + 1) = ?pad (k mod 12 + 1)"
    by (simp_all add: year_month_def split_at_sep dec_inj)
  have lead: "hd (dec m) = CHR ''1''" if "10 \<le> m" "m < 20" for m
  proof -
    from that have "m div 10 = 1" by simp
    with that show ?thesis by (simp add: dec.simps [of m] dec.simps [of "Suc 0"] digit_char_def)
  qed
  have m: "m = n" if "?pad m = ?pad n" "m < 20" "n < 20" for m n
  proof (cases "m < 10"; cases "n < 10")
    assume a: "m < 10" "\<not> n < 10"
    with that(1) have "hd (dec n) = CHR ''0''" by (metis append_Cons append_Nil list.sel(1))
    with lead [of n] a that(3) show ?thesis by simp
  next
    assume a: "\<not> m < 10" "n < 10"
    with that(1) have "hd (dec m) = CHR ''0''" by (metis append_Cons append_Nil list.sel(1))
    with lead [of m] a that(2) show ?thesis by simp
  qed (use that(1) in \<open>simp_all add: dec_inj\<close>)
  have "j mod 12 < 12" "k mod 12 < 12" by simp_all
  then have "j mod 12 + 1 = k mod 12 + 1" by (intro m [OF parts(2)]) simp_all
  then have "j mod 12 = k mod 12" by simp
  with parts(1) show "j = k" by (metis add_left_cancel div_mult_mod_eq)
qed simp

text \<open>Protocols and chain names without a slash, and chains with different names.\<close>

definition names_ok :: "'w Archiver \<Rightarrow> bool" where
  "names_ok a \<longleftrightarrow> (\<forall>p \<in> set (av_protocols a). CHR ''/'' \<notin> set p) \<and>
     (\<forall>c \<in> set (av_chainIDs a). CHR ''/'' \<notin> set (chain_name (av_chainNames a) c)) \<and>
     inj_on (chain_name (av_chainNames a)) (set (av_chainIDs a))"

definition covered :: "'w Archiver \<Rightarrow> string \<times> u64 \<times> nat \<Rightarrow> bool" where
  "covered a x \<longleftrightarrow> fst x \<in> set (av_protocols a) \<and> fst (snd x) \<in> set (av_chainIDs a)"

definition key_of :: "'w Archiver \<Rightarrow> string \<times> u64 \<times> nat \<Rightarrow> string" where
  "key_of a x = object_key a (fst x) (fst (snd x)) (snd (snd x))"

lemma key_of_inj:
  assumes "names_ok a" and "covered a x" and "covered a y"
  shows "key_of a x = key_of a y \<longleftrightarrow> x = y"
proof -
  obtain p c j q d k where x: "x = (p, c, j)" and y: "y = (q, d, k)" by (metis prod.exhaust)
  have "CHR ''/'' \<notin> set p" "CHR ''/'' \<notin> set q"
    "CHR ''/'' \<notin> set (chain_name (av_chainNames a) c)" "CHR ''/'' \<notin> set (chain_name (av_chainNames a) d)"
    and inj: "chain_name (av_chainNames a) c = chain_name (av_chainNames a) d \<longleftrightarrow> c = d"
    using assms by (auto simp: names_ok_def covered_def x y inj_on_def)
  then show ?thesis
    by (auto simp: key_of_def object_key_def x y split_at_sep year_month_inj)
qed

lemma key_not_manifest: "key_of a x \<noteq> ManifestKey"
  by (simp add: key_of_def object_key_def ManifestKey_def)

section \<open>A cycle with a working database and object store\<close>

text \<open>
  Every request to the object store is answered, the Parquet reader reads what the writer wrote,
  and the JSON encoder encodes.
\<close>

definition reliable_o3 :: "('w \<Rightarrow> string \<rightharpoonup> bytes) \<Rightarrow> 'w runtime \<Rightarrow> 'w O3 \<Rightarrow> bool" where
  "reliable_o3 content rt c \<longleftrightarrow> put_stores content c \<and> get_reads content c \<and> quiet content rt \<and>
     (\<forall>w. rt_Err rt w = None) \<and>
     (\<forall>key d w. snd (mc_PutObject (o3_minio c) (o3_bucketName c) key d (int (length d)) w) = None) \<and>
     (\<forall>key w. \<exists>w' obj. mc_GetObject (o3_minio c) (o3_bucketName c) key w = (w', Inr obj) \<and>
        (\<forall>w. content w key \<noteq> None \<longrightarrow> is_ok (snd (obj w))))"

text \<open>The records of a month of a protocol and chain.\<close>

definition month_records :: "pg \<Rightarrow> string \<times> u64 \<times> nat \<Rightarrow> ParquetRecord list" where
  "month_records g x = period_records g (fst x) (fst (snd x)) (month_unix (snd (snd x)))
     (month_unix (Suc (snd (snd x)))) (pg_tables g)"

abbreviation records_of :: "'w arch \<Rightarrow> string \<times> u64 \<times> nat \<Rightarrow> ParquetRecord list" where
  "records_of s x \<equiv> month_records (ar_pg s) x"

definition parquet_ok :: "parquet \<Rightarrow> ParquetRecord list \<Rightarrow> bool" where
  "parquet_ok pl recs \<longleftrightarrow> recs = [] \<or>
     (\<exists>buf. WriteParquet pl recs = Inr buf \<and> ReadParquet pl buf = Inr recs)"

definition working :: "('w \<Rightarrow> string \<rightharpoonup> bytes) \<Rightarrow> 'w Archiver \<Rightarrow> pg \<Rightarrow> bool" where
  "working content a g \<longleftrightarrow> reliable_o3 content (av_rt a) (av_o3 a) \<and>
     (\<forall>x. covered a x \<longrightarrow> parquet_ok (av_parquet a) (month_records g x)) \<and>
     (\<forall>m. is_ok (av_json a m)) \<and> names_ok a"

lemma reliable_upload:
  assumes "reliable_o3 content rt c" and "Upload rt c key d (int (length d)) w = (w', err)"
  shows "err = None \<and> content w' = (content w)(key \<mapsto> d)"
proof -
  obtain w1 rest e where p: "mc_PutObject (o3_minio c) (o3_bucketName c) key d (int (length d)) w = ((w1, rest), e)"
    by (metis prod.exhaust)
  have "snd (mc_PutObject (o3_minio c) (o3_bucketName c) key d (int (length d)) w) = None"
    and ps: "put_stores content c"
    using assms(1) unfolding reliable_o3_def by blast+
  with p have e: "e = None" by simp
  have "o3_withRetry rt (\<lambda>(w, reader). mc_PutObject (o3_minio c) (o3_bucketName c) key reader (int (length d)) w)
      (w, d) = ((w1, rest), None)"
    by (rule o3_withRetry_answered) (simp add: p e)
  with put_storesD(2) [OF ps p e] assms(2) show ?thesis by (simp add: Upload_def)
qed

lemma readsD:
  assumes "reads content key obj" and "obj w = (w', x)"
  shows "content w' = content w" and "x = Inr d \<Longrightarrow> content w key = Some d"
  using assms(1) [unfolded reads_def, rule_format, OF assms(2)] by auto

lemma reliable_download:
  assumes "reliable_o3 content rt c"
  shows "\<exists>w' obj. Download rt c key w = (w', Inr (Some obj)) \<and> content w' = content w \<and>
     (\<forall>d. content w key = Some d \<longrightarrow> (\<exists>w2. obj w' = (w2, Inr d) \<and> content w2 = content w))"
proof -
  let ?get = "\<lambda>(w, obj). case mc_GetObject (o3_minio c) (o3_bucketName c) key w of
      (w, Inl err) \<Rightarrow> ((w, None), Some err) | (w, Inr obj) \<Rightarrow> ((w, Some obj), None)"
  obtain w1 obj where g: "mc_GetObject (o3_minio c) (o3_bucketName c) key w = (w1, Inr obj)"
    and ok: "\<forall>w. content w key \<noteq> None \<longrightarrow> is_ok (snd (obj w))"
    using assms unfolding reliable_o3_def by blast
  have "get_reads content c" using assms by (simp add: reliable_o3_def)
  from get_readsD [OF this g] have c1: "content w1 = content w" and rd: "reads content key obj" by simp_all
  have "o3_withRetry rt ?get (w, None) = ((w1, Some obj), None)"
    by (rule o3_withRetry_answered) (simp add: g)
  then have "Download rt c key w = (w1, Inr (Some obj))"
    by (simp add: Download_def)
  moreover have "\<exists>w2. obj w1 = (w2, Inr d) \<and> content w2 = content w" if d: "content w key = Some d" for d
  proof -
    obtain w2 x where x: "obj w1 = (w2, x)" by (metis prod.exhaust)
    with ok d c1 have "is_ok x" by (metis option.distinct(1) snd_conv)
    then obtain e where "x = Inr e" by (auto simp: is_ok_iff)
    with readsD [OF rd x] x d c1 show ?thesis by simp
  qed
  ultimately show ?thesis using c1 by blast
qed

lemma verify_frame:
  assumes "reliable_o3 content (av_rt a) (av_o3 a)" and "verifyUpload a key chk n w = (w', r)"
  shows "content w' = content w"
proof -
  obtain w1 obj where d: "Download (av_rt a) (av_o3 a) key w = (w1, Inr (Some obj))"
    and c1: "content w1 = content w"
    using reliable_download [OF assms(1)] by blast
  have "get_reads content (av_o3 a)" "quiet content (av_rt a)" using assms(1) by (simp_all add: reliable_o3_def)
  from download_reads [OF this d] have rd: "reads content key obj" by simp
  obtain w2 x where x: "obj w1 = (w2, x)" by (metis prod.exhaust)
  with readsD(1) [OF rd] c1 have "content w2 = content w" by simp
  with assms(2) d x show ?thesis by (auto simp: verifyUpload_def Let_def split: sum.splits if_splits)
qed

lemma upsert_row_keys:
  "map row_key (upsert_row rec rows) =
     (if row_key rec \<in> set (map row_key rows) then map row_key rows else map row_key rows @ [row_key rec])"
  by (induction rec rows rule: upsert_row.induct) auto

lemma upsert_row_in:
  "rec \<in> set (upsert_row rec rows)"
  "row \<in> set rows \<Longrightarrow> row_key row \<noteq> row_key rec \<Longrightarrow> row \<in> set (upsert_row rec rows)"
  by (induction rec rows rule: upsert_row.induct) auto

text \<open>A month that has no records, or is stored, recorded and readable.\<close>

definition stored :: "('w \<Rightarrow> string \<rightharpoonup> bytes) \<Rightarrow> 'w Archiver \<Rightarrow> 'w arch \<Rightarrow> string \<times> u64 \<times> nat \<Rightarrow> bool" where
  "stored content a s x \<longleftrightarrow> records_of s x = [] \<or>
     (\<exists>row \<in> set (ar_rows s). row_key row = (fst x, fst (snd x), year_month (snd (snd x))) \<and>
        ac_RowCount row = int (length (records_of s x)) \<and> ac_ObjectKey row = key_of a x \<and>
        (\<exists>d. content (ar_world s) (key_of a x) = Some d \<and> checksum_of a d = ac_Checksum row \<and>
           ReadParquet (av_parquet a) d = Inr (records_of s x)))"

definition later :: "('w \<Rightarrow> string \<rightharpoonup> bytes) \<Rightarrow> 'w Archiver \<Rightarrow> 'w arch \<Rightarrow> 'w arch \<Rightarrow> bool" where
  "later content a s s' \<longleftrightarrow> ar_pg s' = ar_pg s \<and>
     (distinct (map row_key (ar_rows s)) \<longrightarrow> distinct (map row_key (ar_rows s'))) \<and>
     (\<forall>y. covered a y \<longrightarrow> stored content a s y \<longrightarrow> stored content a s' y)"

lemma later_refl [simp]: "later content a s s"
  by (simp add: later_def)

lemma later_trans: "later content a s t \<Longrightarrow> later content a t u \<Longrightarrow> later content a s u"
  by (simp add: later_def)

lemma laterD: "later content a s s' \<Longrightarrow> covered a y \<Longrightarrow> stored content a s y \<Longrightarrow> stored content a s' y"
  unfolding later_def by blast

lemma stored_cong:
  assumes "stored content a s y" and "ar_pg s' = ar_pg s" and "ar_rows s' = ar_rows s"
    and "content (ar_world s') (key_of a y) = content (ar_world s) (key_of a y)"
  shows "stored content a s' y"
  using assms by (simp add: stored_def)

lemma tick_quiet: "pg_faults s = [] \<Longrightarrow> tick s = s"
  by (simp add: tick_def)

lemma query_rows_fault_free: "pg_faults s = [] \<Longrightarrow> query_rows c1 c2 q s = (s, Inr (q (pg_tables s)))"
  by (simp add: query_rows_def tick_def)

lemma archive_month_stores:
  assumes W: "working content a (ar_pg s)" and cov: "covered a (p, c, k)" and ff: "pg_faults (ar_pg s) = []"
    and run: "archive_month a p c k s = (s', r)"
  shows "is_ok r \<and> later content a s s' \<and> stored content a s' (p, c, k)"
proof (cases "records_of s (p, c, k) = []")
  case True
  then have "s' = s" "r = Inr 0"
    using run by (simp_all add: archive_month_def on_db_def FetchRecordsForArchival_def
        query_rows_fault_free [OF ff] month_records_def)
  with True show ?thesis by (simp add: is_ok_iff stored_def)
next
  case False
  let ?recs = "records_of s (p, c, k)" and ?key = "object_key a p c k"
  have R: "reliable_o3 content (av_rt a) (av_o3 a)" and N: "names_ok a" using W by (simp_all add: working_def)
  obtain buf where b: "WriteParquet (av_parquet a) ?recs = Inr buf" "ReadParquet (av_parquet a) buf = Inr ?recs"
    using W False cov unfolding working_def parquet_ok_def by blast
  obtain w1 e1 where u: "Upload (av_rt a) (av_o3 a) ?key buf (int (length buf)) (ar_world s) = (w1, e1)"
    by (metis prod.exhaust)
  have u1: "e1 = None" "content w1 = (content (ar_world s))(?key \<mapsto> buf)"
    using reliable_upload [OF R u] by simp_all
  obtain w2 e2 where v: "verifyUpload a ?key (checksum_of a buf) (int (length buf)) w1 = (w2, e2)"
    by (metis prod.exhaust)
  have c2: "content w2 = (content (ar_world s))(?key \<mapsto> buf)" using verify_frame [OF R v] u1 by simp
  define row where "row = \<lparr>ac_Protocol = p, ac_ChainID = c, ac_YearMonth = year_month k,
    ac_RowCount = int (length ?recs), ac_MinTimestamp = fst (time_range ?recs),
    ac_MaxTimestamp = snd (time_range ?recs), ac_FileSize = int (length buf), ac_ObjectKey = ?key,
    ac_Checksum = checksum_of a buf, ac_ArchivedAt = pg_now (ar_pg s)\<rparr>"
  have res: "s' = s\<lparr>ar_world := w2, ar_pg := ar_pg s, ar_rows := upsert_row row (ar_rows s)\<rparr>" "r = Inr 1"
    using run False b(1) u u1(1) v ff
    by (simp_all add: archive_month_def on_db_def FetchRecordsForArchival_def query_rows_fault_free
        month_records_def on_world_def UpsertArchivalCursor_def tick_quiet row_def Let_def)
  have key: "key_of a (p, c, k) = ?key" by (simp add: key_of_def)
  have rk: "row_key row = (p, c, year_month k)" by (simp add: row_key_def row_def)
  have rs: "ac_RowCount row = int (length ?recs)" "ac_ObjectKey row = ?key" "ac_Checksum row = checksum_of a buf"
    by (simp_all add: row_def)
  have pg: "ar_pg s' = ar_pg s" "records_of s' = records_of s" by (auto simp: res)
  have here: "stored content a s' (p, c, k)"
    unfolding stored_def
  proof (intro disjI2 bexI conjI exI)
    show "row \<in> set (ar_rows s')" by (simp add: res upsert_row_in)
    show "content (ar_world s') (key_of a (p, c, k)) = Some buf" by (simp add: res c2 key)
  qed (simp_all add: rk pg b rs key)
  have "stored content a s' y" if y: "covered a y" "stored content a s y" for y
  proof (cases "y = (p, c, k)")
    case True
    with here show ?thesis by simp
  next
    case other: False
    then have ky: "key_of a y \<noteq> ?key" using key_of_inj [OF N y(1) cov] key by simp
    have ry: "row_key r = (fst y, fst (snd y), year_month (snd (snd y))) \<Longrightarrow> row_key r \<noteq> row_key row" for r
      using other by (cases y) (auto simp: rk year_month_inj)
    from y(2) show ?thesis
      unfolding stored_def pg
      using upsert_row_in(2) [of _ "ar_rows s" row] ry ky by (auto simp: res c2)
  qed
  moreover have "distinct (map row_key (ar_rows s)) \<longrightarrow> distinct (map row_key (ar_rows s'))"
    by (auto simp: res upsert_row_keys simp del: distinct_map)
  ultimately have "later content a s s'" using pg(1) by (simp add: later_def)
  with here res(2) show ?thesis by (simp add: is_ok_iff)
qed

lemma archive_months_stores:
  assumes W: "working content a (ar_pg s)" and cov: "p \<in> set (av_protocols a)" "c \<in> set (av_chainIDs a)"
    and ff: "pg_faults (ar_pg s) = []" and run: "archive_months a p c before k n s = (s', m, err)"
  shows "err = None \<and> later content a s s' \<and>
     (\<forall>j \<ge> k. month_unix j < before \<longrightarrow> stored content a s' (p, c, j))"
  using assms
proof (induction a p c before k n s rule: archive_months.induct)
  case (1 a p c before k n s)
  show ?case
  proof (cases "month_unix k < before")
    case False
    have "\<not> month_unix j < before" if "k \<le> j" for j
      using that False month_unix_mono [of k j] by (cases "k = j") auto
    with False 1(6) show ?thesis by (subst (asm) archive_months.simps) auto
  next
    case True
    have e0: "rt_Err (av_rt a) (ar_world s) = None" using "1.prems"(1) by (simp add: working_def reliable_o3_def)
    obtain s1 r where m: "archive_month a p c k s = (s1, r)" by (metis prod.exhaust)
    have cov: "covered a (p, c, k)" using "1.prems"(2,3) by (simp add: covered_def)
    from archive_month_stores [OF "1.prems"(1) cov "1.prems"(4) m] obtain f where
      f: "r = Inr f" and l: "later content a s s1" and st: "stored content a s1 (p, c, k)"
      by (auto simp: is_ok_iff)
    have ff1: "pg_faults (ar_pg s1) = []" using l "1.prems"(4) by (simp add: later_def)
    have "archive_months a p c before (Suc k) (n + f) s1 = (s', m, err)"
      using "1.prems"(5) True e0 m f by (subst (asm) archive_months.simps) simp
    moreover have "working content a (ar_pg s1)" using l "1.prems"(1) by (simp add: later_def)
    ultimately have
      IH: "err = None" "later content a s1 s'"
      "\<forall>j \<ge> Suc k. month_unix j < before \<longrightarrow> stored content a s' (p, c, j)"
      using "1.IH" [OF True e0 m [symmetric] f _ "1.prems"(2,3) ff1] by simp_all
    have "stored content a s' (p, c, k)" by (rule laterD [OF IH(2) cov st])
    then have "stored content a s' (p, c, j)" if "k \<le> j" "month_unix j < before" for j
      using that IH(3) by (cases "j = k") auto
    with IH later_trans [OF l IH(2)] show ?thesis by blast
  qed
qed

lemma cycle_pairs_stores:
  assumes W: "working content a (ar_pg s)" and cov: "set pairs \<subseteq> set (av_protocols a) \<times> set (av_chainIDs a)"
    and ff: "pg_faults (ar_pg s) = []" and run: "cycle_pairs a before pairs n s = (s', m)"
  shows "later content a s s' \<and>
     (\<forall>(p, c) \<in> set pairs. \<forall>j. month_unix j < before \<longrightarrow> stored content a s' (p, c, j))"
  using W cov ff run
proof (induction pairs arbitrary: n s)
  case (Cons x pairs)
  obtain p c where x: "x = (p, c)" by (metis prod.exhaust)
  obtain s1 k err where a: "archiveChainProtocol a p c before s = (s1, k, err)" by (metis prod.exhaust)
  have pc: "p \<in> set (av_protocols a)" "c \<in> set (av_chainIDs a)" using Cons.prems(2) x by simp_all
  from archive_months_stores [OF Cons.prems(1) pc Cons.prems(3) a [unfolded archiveChainProtocol_def]] have
    one: "err = None" "later content a s s1" "\<forall>j. month_unix j < before \<longrightarrow> stored content a s1 (p, c, j)"
    by simp_all
  have "pg_faults (ar_pg s1) = []" using one(2) Cons.prems(3) by (simp add: later_def)
  moreover have "cycle_pairs a before pairs (n + k) s1 = (s', m)" using Cons.prems(4) x a one(1) by simp
  ultimately have rest: "later content a s1 s'"
    "\<forall>(p, c) \<in> set pairs. \<forall>j. month_unix j < before \<longrightarrow> stored content a s' (p, c, j)"
    using Cons.IH [of s1 "n + k"] Cons.prems(1,2) one(2) by (simp_all add: later_def)
  have "stored content a s' (p, c, j)" if "month_unix j < before" for j
    using laterD [OF rest(1), of "(p, c, j)"] one(3) that pc by (simp add: covered_def)
  with rest later_trans [OF one(2) rest(1)] show ?case by (auto simp: x)
qed simp

lemma updateManifest_later:
  assumes W: "working content a (ar_pg s)" and ff: "pg_faults (ar_pg s) = []" and run: "updateManifest a s = (s', err)"
  shows "err = None \<and> later content a s s' \<and>
     (\<exists>buf. av_json a (BuildManifest (order_by (row_le (av_le a)) (ar_rows s)) (av_chainNames a) (av_Now a (ar_world s)))
        = Inr buf \<and> content (ar_world s') ManifestKey = Some buf)"
proof -
  let ?m = "BuildManifest (order_by (row_le (av_le a)) (ar_rows s)) (av_chainNames a) (av_Now a (ar_world s))"
  obtain buf where b: "av_json a ?m = Inr buf" using W unfolding working_def is_ok_iff by blast
  obtain w1 e1 where u: "Upload (av_rt a) (av_o3 a) ManifestKey buf (int (length buf)) (ar_world s) = (w1, e1)"
    by (metis prod.exhaust)
  have u1: "e1 = None" "content w1 = (content (ar_world s))(ManifestKey \<mapsto> buf)"
    using reliable_upload [OF _ u, of content] W unfolding working_def by blast+
  have res: "s' = s\<lparr>ar_pg := ar_pg s, ar_world := w1\<rparr>" "err = None"
    using run b u u1(1) ff
    by (simp_all add: updateManifest_def ListArchivalCursors_def tick_quiet MarshalManifest_def on_world_def Let_def)
  have "stored content a s' y" if "stored content a s y" for y
    using that by (rule stored_cong) (simp_all add: res u1(2) key_not_manifest)
  with res u1 b show ?thesis by (simp add: later_def)
qed

text \<open>A cycle as a whole.\<close>

lemma runCycle_stores:
  assumes W: "working content a (ar_pg s)" and ff: "pg_faults (ar_pg s) = []" and run: "runCycle a s = (s', err)"
  shows "err = None \<and> later content a s s' \<and>
     (\<forall>p \<in> set (av_protocols a). \<forall>c \<in> set (av_chainIDs a). \<forall>k.
        month_unix k < month_start 0 (av_Now a (ar_world s)) \<longrightarrow> stored content a s' (p, c, k))"
proof -
  let ?b = "month_start 0 (av_Now a (ar_world s))" and ?pairs = "List.product (av_protocols a) (av_chainIDs a)"
  obtain s1 n where c: "cycle_pairs a ?b ?pairs 0 s = (s1, n)" by (metis prod.exhaust)
  have sub: "set ?pairs \<subseteq> set (av_protocols a) \<times> set (av_chainIDs a)" by simp
  from cycle_pairs_stores [OF W sub ff c] have l: "later content a s s1" and
    st: "\<forall>(p, c) \<in> set ?pairs. \<forall>j. month_unix j < ?b \<longrightarrow> stored content a s1 (p, c, j)" by simp_all
  have ff1: "pg_faults (ar_pg s1) = []" and W1: "working content a (ar_pg s1)"
    using l ff W by (simp_all add: later_def)
  have "err = None \<and> later content a s1 s'"
  proof (cases "n = 0")
    case True
    with run c show ?thesis by (simp add: runCycle_def)
  next
    case False
    obtain s2 e2 where u: "updateManifest a s1 = (s2, e2)" by (metis prod.exhaust)
    with run c False updateManifest_later [OF W1 ff1 u] show ?thesis by (simp add: runCycle_def)
  qed
  moreover from this have "stored content a s' (p, c, k)"
    if "p \<in> set (av_protocols a)" "c \<in> set (av_chainIDs a)" "month_unix k < ?b" for p c k
    using laterD [of content a s1 s' "(p, c, k)"] st that by (simp add: covered_def)
  ultimately show ?thesis using later_trans [OF l] by blast
qed

end
