(* ===== verification/Historical.thy ===== *)
theory Historical
  imports Archiving Handlers Axelar
begin

text \<open>
  Reading archived data back, \<open>internal/api/historical_handler.go\<close>, and what a reader finds after a cycle
  of the archiver.
\<close>

section \<open>Handlers\<close>

record 's HistoricalStore =
  hs_ListArchivalCursors :: "'s \<Rightarrow> 's \<times> (error + ArchivalRecord list)"

datatype hist_body =
    HistError string
  | HistDownloadError error
  | HistRecords ArchivalRecord "ParquetRecord list"
  | HistIndex int "ArchivalRecord list"

definition StatusBadGateway :: nat where "StatusBadGateway = 502"

text \<open>\<open>parsed\<close> is the Parquet library, \<open>sha\<close> SHA-256. The state of the store includes the outside world.\<close>

definition GetHistoricalMessagesHandler ::
    "'w arch HistoricalStore \<Rightarrow> 'w runtime \<Rightarrow> 'w O3 \<Rightarrow> parquet \<Rightarrow> (bytes \<Rightarrow> bytes) \<Rightarrow> request \<Rightarrow> 'w arch
      \<Rightarrow> 'w arch \<times> nat \<times> hist_body" where
  "GetHistoricalMessagesHandler store rt o3 pl sha r s =
     (let protocol = rq_Query r ''protocol''; chainIDStr = rq_Query r ''chain_id'';
          yearMonth = rq_Query r ''year_month'' in
      if protocol = [] \<or> chainIDStr = [] \<or> yearMonth = []
      then (s, StatusBadRequest, HistError ''protocol, chain_id and year_month are required'')
      else
        (case ParseUint10 chainIDStr of
           Inl err \<Rightarrow> (s, StatusBadRequest, HistError ''invalid chain_id'')
         | Inr chainID \<Rightarrow>
             (case hs_ListArchivalCursors store s of
                (s, Inl err) \<Rightarrow> (s, StatusInternalServerError, HistError ''failed to query archival index'')
              | (s, Inr cursors) \<Rightarrow>
                  (case find (\<lambda>c. ac_Protocol c = protocol \<and> ac_ChainID c = chainID \<and>
                                  ac_YearMonth c = yearMonth) cursors of
                     None \<Rightarrow> (s, StatusNotFound, HistError ''no archived data found for the requested period'')
                   | Some rec \<Rightarrow>
                       (case on_world (Download rt o3 (ac_ObjectKey rec)) s of
                          (s, Inl err) \<Rightarrow> (s, StatusBadGateway, HistDownloadError err)
                        | (s, Inr None) \<Rightarrow> (s, StatusInternalServerError, HistError ''nil object'')
                        | (s, Inr (Some obj)) \<Rightarrow>
                            (case on_world obj s of
                               (s, Inl err) \<Rightarrow>
                                 (s, StatusInternalServerError, HistError ''failed to read archive data'')
                             | (s, Inr data) \<Rightarrow>
                                 if ac_Checksum rec \<noteq> [] \<and> EncodeToString (sha data) \<noteq> ac_Checksum rec
                                 then (s, StatusInternalServerError,
                                       HistError ''checksum mismatch: archive integrity check failed'')
                                 else
                                   (case ReadParquet pl data of
                                      Inl err \<Rightarrow>
                                        (s, StatusInternalServerError,
                                         HistError ''failed to deserialize archive'')
                                    | Inr records \<Rightarrow> (s, StatusOK, HistRecords rec records))))))))"

definition GetHistoricalIndexHandler :: "'s HistoricalStore \<Rightarrow> 's \<Rightarrow> 's \<times> nat \<times> hist_body" where
  "GetHistoricalIndexHandler store s =
     (case hs_ListArchivalCursors store s of
        (s, Inl err) \<Rightarrow> (s, StatusInternalServerError, HistError ''failed to query archival index'')
      | (s, Inr cursors) \<Rightarrow> (s, StatusOK, HistIndex (int (length cursors)) cursors))"

definition ArchiveStore :: "(string \<Rightarrow> string \<Rightarrow> bool) \<Rightarrow> 'w arch HistoricalStore" where
  "ArchiveStore le = \<lparr>hs_ListArchivalCursors = ListArchivalCursors le\<rparr>"

section \<open>Integrity\<close>

text \<open>
  C37: what an archive request serves. Records are served only for an entry of the index with the
  protocol, chain and month asked for, and only from data that has the checksum of this entry,
  whatever the object store answers and however its objects have changed. The exception is an entry
  without a checksum, as the rows from before the fifth migration are: its data is served
  unchecked.
\<close>

theorem historical_integrity:
  assumes "GetHistoricalMessagesHandler store rt o3 pl sha r s = (s', code, HistRecords rec recs)"
  shows "code = StatusOK \<and> ac_Protocol rec = rq_Query r ''protocol'' \<and> ac_YearMonth rec = rq_Query r ''year_month'' \<and>
     ParseUint10 (rq_Query r ''chain_id'') = Inr (ac_ChainID rec) \<and>
     (\<exists>s1 cursors. hs_ListArchivalCursors store s = (s1, Inr cursors) \<and> rec \<in> set cursors) \<and>
     (\<exists>data. ReadParquet pl data = Inr recs \<and>
        (ac_Checksum rec = [] \<or> EncodeToString (sha data) = ac_Checksum rec))"
proof -
  from assms obtain cid s1 cursors where
    p: "ParseUint10 (rq_Query r ''chain_id'') = Inr cid" "hs_ListArchivalCursors store s = (s1, Inr cursors)"
    and f: "find (\<lambda>c. ac_Protocol c = rq_Query r ''protocol'' \<and> ac_ChainID c = cid \<and>
              ac_YearMonth c = rq_Query r ''year_month'') cursors = Some rec"
    and rest: "code = StatusOK" "\<exists>data. ReadParquet pl data = Inr recs \<and>
        (ac_Checksum rec = [] \<or> EncodeToString (sha data) = ac_Checksum rec)"
    unfolding GetHistoricalMessagesHandler_def Let_def
    by (auto split: if_splits sum.splits prod.splits option.splits)
  from f show ?thesis using p rest by (auto simp: find_Some_iff)
qed

section \<open>From the index to the archive and back\<close>

definition period_request :: "string \<Rightarrow> u64 \<Rightarrow> nat \<Rightarrow> request" where
  "period_request p c k = \<lparr>rq_Param = (\<lambda>_. []), rq_Query = (\<lambda>name.
     if name = ''protocol'' then p else if name = ''chain_id'' then dec_word c
     else if name = ''year_month'' then year_month k else [])\<rparr>"

lemma find_distinct:
  assumes "row \<in> set rows" and "distinct (map f rows)" and "\<And>r. P r \<longleftrightarrow> f r = f row"
  shows "find P rows = Some row"
  using assms(1,2)
proof (induction rows)
  case (Cons r rows)
  then show ?case by (auto simp: assms(3))
qed simp

lemma year_month_nonempty [simp]: "year_month k \<noteq> []"
  by (simp add: year_month_def)

lemma stored_served:
  assumes W: "working content a (ar_pg s)" and ff: "pg_faults (ar_pg s) = []" and d: "distinct (map row_key (ar_rows s))"
    and st: "stored content a s (p, c, k)" and ne: "records_of s (p, c, k) \<noteq> []" and p: "p \<noteq> []"
  shows "\<exists>s' row. GetHistoricalMessagesHandler (ArchiveStore (av_le a)) (av_rt a) (av_o3 a) (av_parquet a)
     (av_sha256 a) (period_request p c k) s = (s', StatusOK, HistRecords row (records_of s (p, c, k)))"
proof -
  from st ne obtain row data where row: "row \<in> set (ar_rows s)" "row_key row = (p, c, year_month k)"
    "ac_ObjectKey row = key_of a (p, c, k)" and data: "content (ar_world s) (key_of a (p, c, k)) = Some data"
    "checksum_of a data = ac_Checksum row" "ReadParquet (av_parquet a) data = Inr (records_of s (p, c, k))"
    by (auto simp: stored_def)
  have "mset (map row_key (order_by (row_le (av_le a)) (ar_rows s))) = mset (map row_key (ar_rows s))" by simp
  with d have "distinct (map row_key (order_by (row_le (av_le a)) (ar_rows s)))"
    by (metis mset_eq_imp_distinct_iff)
  then have f: "find (\<lambda>r. ac_Protocol r = p \<and> ac_ChainID r = c \<and> ac_YearMonth r = year_month k)
      (order_by (row_le (av_le a)) (ar_rows s)) = Some row"
    by (rule find_distinct [rotated]) (use row in \<open>auto simp: row_key_def\<close>)
  have R: "reliable_o3 content (av_rt a) (av_o3 a)" using W by (simp add: working_def)
  from reliable_download [OF R, of "key_of a (p, c, k)" "ar_world s"] data(1) obtain w1 obj w2 where
    dl: "Download (av_rt a) (av_o3 a) (key_of a (p, c, k)) (ar_world s) = (w1, Inr (Some obj))"
    "obj w1 = (w2, Inr data)" by blast
  have l: "ListArchivalCursors (av_le a) s = (s\<lparr>ar_pg := ar_pg s\<rparr>, Inr (order_by (row_le (av_le a)) (ar_rows s)))"
    using ff by (simp add: ListArchivalCursors_def tick_quiet)
  show ?thesis
    using p f dl row(3) data(2,3)
    by (simp add: GetHistoricalMessagesHandler_def period_request_def ArchiveStore_def l on_world_def
        checksum_of_def)
qed

lemma period_records_iff:
  assumes "plan_ok g" and "schema_ok (pg_tables g)"
  shows "r \<in> set (month_records g (p, c, k)) \<longleftrightarrow>
     (\<exists>mid. scan_record (pg_tables g) mid = Some r) \<and> in_period p c (month_unix k) (month_unix (Suc k)) r"
proof -
  have "set (pg_plan g (t_ids (pg_tables g))) = set (t_ids (pg_tables g))" using assms(1) by (simp add: plan_ok_def)
  moreover have "mid \<in> set (t_ids (pg_tables g))" if "scan_record (pg_tables g) mid = Some r" for mid
    using assms(2) that by (auto simp: schema_ok_def row_schema_def scan_record_def split: option.splits)
  moreover have "r \<in> set (List.map_filter f xs) \<longleftrightarrow> (\<exists>x \<in> set xs. f x = Some r)"
    for f :: "string \<Rightarrow> ParquetRecord option" and xs
    by (induction xs) (auto simp: List.map_filter_simps split: option.splits)
  ultimately show ?thesis by (auto simp: month_records_def period_records_def)
qed


section \<open>Examples\<close>

text \<open>One message of February 2020, archived in March 2020 to a bucket that always answers.\<close>

definition arch_source :: source where
  "arch_source = \<lparr>src_ChainID = 1, src_TxHash = ''0xaa'', src_BlockNumber = 100, src_Timestamp = 1581000000,
     src_Sender = ''0xbb'', src_LogIndex = 3\<rparr>"

definition arch_tables :: tables where
  "arch_tables = empty_tables\<lparr>t_ids := [''m1''],
     t_messages := [''m1'' \<mapsto> \<lparr>mr_protocol = ax_ProtocolName, mr_type = TypeMessage, mr_status = StatusPending,
       mr_created = 5, mr_updated = 5\<rparr>],
     t_sources := [''m1'' \<mapsto> arch_source]\<rparr>"

definition arch_record :: ParquetRecord where
  "arch_record = the (scan_record arch_tables ''m1'')"

definition calm_minio :: "(string \<rightharpoonup> bytes) MinioClient" where
  "calm_minio = \<lparr>mc_BucketExists = (\<lambda>b w. (w, Inr True)), mc_MakeBucket = (\<lambda>b w. (w, None)),
     mc_PutObject = (\<lambda>b key reader n w. if n = int (length reader) then ((w(key \<mapsto> reader), []), None)
        else ((w, []), Some (Errorf ''unexpected EOF''))),
     mc_GetObject = (\<lambda>b key w. (w, Inr (\<lambda>w.
        (w, case w key of None \<Rightarrow> Inl (Errorf ''NoSuchKey'') | Some d \<Rightarrow> Inr d)))),
     mc_ListObjects = (\<lambda>b prefix w. (w, [])), mc_RemoveObject = (\<lambda>b key w. (w(key := None), None))\<rparr>"

definition calm_archiver :: "(string \<rightharpoonup> bytes) Archiver" where
  "calm_archiver = \<lparr>av_rt = \<lparr>rt_Wait = (\<lambda>w. (w, None)), rt_Err = (\<lambda>w. None), rt_After = (\<lambda>n w. (w, None)),
       rt_Sleep = (\<lambda>d w. w), rt_Now = (\<lambda>w. 0)\<rparr>,
     av_o3 = \<lparr>o3_minio = calm_minio, o3_bucketName = ''archive''\<rparr>, av_chainNames = [1 \<mapsto> ''ethereum''],
     av_protocols = [ax_ProtocolName], av_chainIDs = [1],
     av_parquet = \<lparr>pl_Write = (\<lambda>_. None), pl_Close = (\<lambda>_. Inr [7]), pl_Read = (\<lambda>_. Inr [arch_record])\<rparr>,
     av_sha256 = (\<lambda>d. d), av_json = (\<lambda>_. Inr []), av_Now = (\<lambda>w. 1585000000), av_le = (\<lambda>a b. True)\<rparr>"

definition arch_start :: "(string \<rightharpoonup> bytes) arch" where
  "arch_start = \<lparr>ar_pg = \<lparr>pg_tables = arch_tables, pg_faults = [], pg_now = 9, pg_plan = id\<rparr>, ar_rows = [],
     ar_world = Map.empty\<rparr>"

lemma arch_start_simps [simp]:
  "pg_tables (ar_pg arch_start) = arch_tables" "pg_faults (ar_pg arch_start) = []" "ar_rows arch_start = []"
  "pg_plan (ar_pg arch_start) = id" "av_Now calm_archiver w = 1585000000"
  "av_protocols calm_archiver = [ax_ProtocolName]" "av_chainIDs calm_archiver = [1]"
  "t_ids arch_tables = [''m1'']"
  by (simp_all add: arch_start_def calm_archiver_def arch_tables_def)

lemma arch_scan:
  "scan_record arch_tables ''m1'' = Some arch_record" "pq_Protocol arch_record = ax_ProtocolName"
  "pq_SrcChainID arch_record = 1" "pq_SrcTimestamp arch_record = 1581000000"
  by (simp_all add: arch_record_def scan_record_def arch_tables_def arch_source_def Let_def)

lemma arch_month_records: "month_records (ar_pg arch_start) x \<in> {[], [arch_record]}"
  by (simp add: month_records_def period_records_def List.map_filter_def arch_scan)

lemma arch_working: "working (\<lambda>w. w) calm_archiver (ar_pg arch_start)"
proof -
  have o3: "av_o3 calm_archiver = \<lparr>o3_minio = calm_minio, o3_bucketName = ''archive''\<rparr>"
    "av_parquet calm_archiver = \<lparr>pl_Write = (\<lambda>_. None), pl_Close = (\<lambda>_. Inr [7]), pl_Read = (\<lambda>_. Inr [arch_record])\<rparr>"
    by (simp_all add: calm_archiver_def)
  have "reliable_o3 (\<lambda>w. w) (av_rt calm_archiver) (av_o3 calm_archiver)"
    unfolding reliable_o3_def put_stores_def get_reads_def quiet_def reads_def
    by (auto simp: o3 calm_minio_def is_ok_iff calm_archiver_def split: if_splits option.splits)
  moreover have "parquet_ok (av_parquet calm_archiver) (month_records (ar_pg arch_start) x)" for x
    using arch_month_records [of x] by (auto simp: parquet_ok_def WriteParquet_def ReadParquet_def o3)
  moreover have "names_ok calm_archiver"
    by (simp add: names_ok_def chain_name_def ax_ProtocolName_def, simp add: calm_archiver_def)
  ultimately show ?thesis by (simp add: working_def, simp add: calm_archiver_def is_ok_iff)
qed


definition arch_row :: ArchivalRecord where
  "arch_row = \<lparr>ac_Protocol = ''axelar'', ac_ChainID = 1, ac_YearMonth = ''2020-02'', ac_RowCount = 1,
     ac_MinTimestamp = 0, ac_MaxTimestamp = 0, ac_FileSize = 1, ac_ObjectKey = ''k'', ac_Checksum = ''07'',
     ac_ArchivedAt = 0\<rparr>"

definition arch_request :: request where
  "arch_request = \<lparr>rq_Param = (\<lambda>_. []), rq_Query = (\<lambda>name.
     if name = ''protocol'' then ''axelar'' else if name = ''chain_id'' then ''1'' else ''2020-02'')\<rparr>"

abbreviation served_from :: "ArchivalRecord \<Rightarrow> bytes \<Rightarrow> (string \<Rightarrow> bytes option) arch \<times> nat \<times> hist_body" where
  "served_from row d \<equiv> GetHistoricalMessagesHandler \<lparr>hs_ListArchivalCursors = (\<lambda>s. (s, Inr [row]))\<rparr>
     (av_rt calm_archiver) (av_o3 calm_archiver) (av_parquet calm_archiver) (\<lambda>d. d) arch_request
     (arch_start\<lparr>ar_world := [''k'' \<mapsto> d]\<rparr>)"

lemma arch_row_served:
  assumes "row = arch_row\<lparr>ac_Checksum := c\<rparr>" and "c = [] \<or> EncodeToString d = c"
  shows "\<exists>s' recs. served_from row d = (s', StatusOK, HistRecords row recs)"
proof -
  have row: "ac_ObjectKey row = ''k''" "ac_Checksum row = c" "ac_Protocol row = ''axelar''"
    "ac_ChainID row = 1" "ac_YearMonth row = ''2020-02''"
    by (simp_all add: assms(1) arch_row_def)
  have "ParseUint10 ''1'' = Inr 1" by (simp add: ParseUint10_def digit_val_def)
  moreover have "Download (av_rt calm_archiver) (av_o3 calm_archiver) ''k'' w =
      (w, Inr (Some (\<lambda>w. (w, case w ''k'' of None \<Rightarrow> Inl (Errorf ''NoSuchKey'') | Some d \<Rightarrow> Inr d))))" for w
    by (simp add: Download_def o3_withRetry_def o3_retry_loop.simps o3_maxRetries_def calm_archiver_def calm_minio_def)
  ultimately show ?thesis
    using assms(2)
    by (auto simp: GetHistoricalMessagesHandler_def arch_request_def on_world_def row ReadParquet_def
        calm_archiver_def)
qed

text \<open>An entry without a checksum is served whatever its object has become.\<close>

lemma unrecorded_checksum_served:
  "\<exists>s' recs. served_from (arch_row\<lparr>ac_Checksum := []\<rparr>) d =
     (s', StatusOK, HistRecords (arch_row\<lparr>ac_Checksum := []\<rparr>) recs)"
  by (rule arch_row_served [OF refl]) simp

theorem historical_integrity_witness:
  "\<exists>s' recs data. served_from arch_row [7] = (s', StatusOK, HistRecords arch_row recs) \<and>
     EncodeToString data = ''07'' \<and> ReadParquet (av_parquet calm_archiver) data = Inr recs"
proof -
  have hex: "EncodeToString [7 :: byte] = ''07''" by (simp add: EncodeToString_def hex_of_byte_def hex_digit_def)
  have c: "ac_Checksum arch_row = ''07''" by (simp add: arch_row_def)
  have "\<exists>s' recs. served_from arch_row [7] = (s', StatusOK, HistRecords arch_row recs)"
    by (rule arch_row_served [where c = "''07''"]) (simp_all add: hex, simp add: arch_row_def)
  then obtain s' recs where g: "served_from arch_row [7] = (s', StatusOK, HistRecords arch_row recs)" by blast
  from historical_integrity [OF g] g c show ?thesis by auto
qed

end
