(* ===== verification/Api.thy ===== *)
theory Api
  imports Stats Historical Config
begin

text \<open>
  The wiring of the API server, \<open>cmd/api/main.go\<close>: which handler is registered for which route, over
  which parts of the state, and the server's settings with their defaults. Matching a request's path
  to a route is the router's.
\<close>

section \<open>Settings\<close>

definition seconds :: "int \<Rightarrow> int" where "seconds n = n * 1000000000"

record server =
  sv_AllowedOrigins :: "string list"
  sv_Addr :: string
  sv_ReadTimeout :: int
  sv_WriteTimeout :: int

definition server_settings :: "API \<Rightarrow> server" where
  "server_settings c =
     \<lparr>sv_AllowedOrigins = (if length (api_CORSAllowedOrigins c) = 0 then [''*''] else api_CORSAllowedOrigins c),
      sv_Addr = '':'' @ dec_int (if api_Port c = 0 then 8080 else api_Port c),
      sv_ReadTimeout = (if api_ReadTimeout c = 0 then seconds 15 else api_ReadTimeout c),
      sv_WriteTimeout = (if api_WriteTimeout c = 0 then seconds 30 else api_WriteTimeout c)\<rparr>"

section \<open>Routes\<close>

text \<open>
  What the server's handlers work on: the database with the archiver's rows and the outside world,
  and the statistics querier's cache.
\<close>

record 'w api =
  ap_arch :: "'w arch"
  ap_entries :: "string \<rightharpoonup> cacheEntry"

datatype reply =
    MessageReply response
  | StatsReply nat stats_body
  | HistoricalReply nat hist_body
  | HealthReply nat healthResponse

text \<open>The pool's \<open>Ping\<close>, the query of the cursors, the clocks and the libraries.\<close>

record 'w api_libs =
  al_ping :: "pg \<Rightarrow> pg \<times> error option"
  al_cursors :: "pg \<Rightarrow> pg \<times> (error + CursorInfo list)"
  al_json :: cursor_json
  al_le :: "string \<Rightarrow> string \<Rightarrow> bool"
  al_now :: int
  al_later :: int
  al_rt :: "'w runtime"
  al_parquet :: parquet
  al_sha :: "bytes \<Rightarrow> bytes"

definition on_messages ::
    "(pg \<Rightarrow> pg \<times> response) \<Rightarrow> 'w api \<Rightarrow> 'w api \<times> reply" where
  "on_messages f s = (case on_db f (ap_arch s) of (a, r) \<Rightarrow> (s\<lparr>ap_arch := a\<rparr>, MessageReply r))"

definition on_stats ::
    "(stats \<Rightarrow> stats \<times> nat \<times> stats_body) \<Rightarrow> 'w api \<Rightarrow> 'w api \<times> reply" where
  "on_stats f s =
     (case f \<lparr>sq_pg = ar_pg (ap_arch s), sq_entries = ap_entries s\<rparr> of
        (q, code, b) \<Rightarrow>
          (s\<lparr>ap_arch := (ap_arch s)\<lparr>ar_pg := sq_pg q\<rparr>, ap_entries := sq_entries q\<rparr>, StatsReply code b))"

definition on_arch ::
    "('w arch \<Rightarrow> 'w arch \<times> nat \<times> hist_body) \<Rightarrow> 'w api \<Rightarrow> 'w api \<times> reply" where
  "on_arch f s = (case f (ap_arch s) of (a, code, b) \<Rightarrow> (s\<lparr>ap_arch := a\<rparr>, HistoricalReply code b))"

definition on_health :: "(pg \<Rightarrow> pg \<times> nat \<times> healthResponse) \<Rightarrow> 'w api \<Rightarrow> 'w api \<times> reply" where
  "on_health f s =
     (case f (ar_pg (ap_arch s)) of
        (g, code, b) \<Rightarrow> (s\<lparr>ap_arch := (ap_arch s)\<lparr>ar_pg := g\<rparr>\<rparr>, HealthReply code b))"

type_synonym 'w handler = "request \<Rightarrow> 'w api \<Rightarrow> 'w api \<times> reply"

text \<open>The message, history, trace and statistics routes, in the order they are registered.\<close>

definition query_routes :: "'w api_libs \<Rightarrow> (string \<times> 'w handler) list" where
  "query_routes l =
     (let mq = PgMessageQuerier (al_json l) (al_le l);
          sq = PgStatsQuerier (seconds 60) (al_now l) (al_later l) in
      [(''/health'', \<lambda>r. on_health (HealthHandler (al_ping l) (al_cursors l))),
       (''/messages'', \<lambda>r. on_messages (ListMessagesHandler mq r)),
       (''/messages/{message_id}'', \<lambda>r. on_messages (GetMessageHandler mq r)),
       (''/transactions/{tx_hash}/messages'', \<lambda>r. on_messages (GetTxMessagesHandler mq r)),
       (''/address/{address}/history'', \<lambda>r. on_messages (GetAddressHistoryHandler mq r)),
       (''/trace/{message_id}'', \<lambda>r. on_messages (GetTraceHandler mq r)),
       (''/protocols/{protocol}/stats'', \<lambda>r. on_stats (GetProtocolStatsHandler sq r)),
       (''/routes/stats'', \<lambda>r. on_stats (GetRoutesStatsHandler sq r))])"

text \<open>The historical routes: \<open>minio\<close> is the outcome of \<open>minio.New\<close>, asked only with credentials.\<close>

definition historical_routes ::
    "'w api_libs \<Rightarrow> Akave \<Rightarrow> error + 'w MinioClient \<Rightarrow> 'w \<Rightarrow> 'w \<times> (string \<times> 'w handler) list" where
  "historical_routes l cfg minio w =
     (let store = ArchiveStore (al_le l); index = (''/historical/index'', \<lambda>r. on_arch (GetHistoricalIndexHandler store)) in
      if ak_AccessKey cfg \<noteq> [] \<and> ak_SecretKey cfg \<noteq> [] then
        (case NewO3 minio cfg w of
           (w, Inl err) \<Rightarrow> (w, [])
         | (w, Inr o3Client) \<Rightarrow>
             (w, [index,
                  (''/historical/messages'', \<lambda>r. on_arch (GetHistoricalMessagesHandler store (al_rt l) o3Client
                     (al_parquet l) (al_sha l) r))]))
      else (w, [index]))"

definition api_main ::
    "'w api_libs \<Rightarrow> error + Config \<Rightarrow> error option \<Rightarrow> error + 'w MinioClient \<Rightarrow> 'w
      \<Rightarrow> 'w \<times> (int + server \<times> (string \<times> 'w handler) list)" where
  "api_main l conf pool minio w =
     (case conf of
        Inl err \<Rightarrow> (w, Inl 1)
      | Inr cfg \<Rightarrow>
          if pool \<noteq> None then (w, Inl 1)
          else
            (case historical_routes l (cf_Akave cfg) minio w of
               (w, rs) \<Rightarrow> (w, Inr (server_settings (cf_API cfg), query_routes l @ rs))))"

text \<open>
  Every route has one handler. Archived messages are served exactly with credentials and a working
  object store; with credentials and a store that does not work, not even the index is.
\<close>

lemma api_routes:
  assumes "api_main l (Inr cfg) None minio w = (w', Inr (sv, routes))"
  shows "distinct (map fst routes) \<and>
     (''/historical/messages'' \<in> fst ` set routes \<longleftrightarrow>
        ak_AccessKey (cf_Akave cfg) \<noteq> [] \<and> ak_SecretKey (cf_Akave cfg) \<noteq> [] \<and> is_ok (snd (NewO3 minio (cf_Akave cfg) w))) \<and>
     (''/historical/index'' \<in> fst ` set routes \<longleftrightarrow>
        (ak_AccessKey (cf_Akave cfg) \<noteq> [] \<and> ak_SecretKey (cf_Akave cfg) \<noteq> [] \<longrightarrow>
           is_ok (snd (NewO3 minio (cf_Akave cfg) w))))"
  using assms
  by (auto simp: api_main_def historical_routes_def query_routes_def Let_def is_ok_def
      split: if_splits prod.splits sum.splits)

end
