(* ===== verification/Spec2Isabelle.thy ===== *)
theory Spec2Isabelle
  imports Handlers Concurrent Api
begin

text \<open>
  A verification development of the cross-chain message archive (Go, module
  \<open>akave-crosschain-archive\<close>): an indexer that reads the logs of bridge contracts on several chains,
  joins the two halves of every cross-chain message and stores them in PostgreSQL, an archiver that
  copies finished months to an object store as Parquet files, and an API that reads both.

  \<^bold>\<open>The program and the theories.\<close> Data flows from a chain to a reader:

  \<^item> \<open>cmd/indexer\<close>, \<open>internal/indexer/indexer.go\<close> (\<open>Startup\<close>) read the configuration
    (\<open>internal/config\<close>, \<open>Config\<close>), connect the chains (\<open>internal/chain\<close>, \<open>ChainClient\<close>), register the
    decoders (\<open>internal/decoder/registry.go\<close>, \<open>Decoder\<close>) and start one processor for every chain and
    protocol, and the archiver. The processors run side by side on one database and, on one chain,
    one client (\<open>Concurrent\<close>).
  \<^item> A processor (\<open>internal/indexer/processor.go\<close>, \<open>Processor\<close>) asks the chain client for the confirmed
    height, checks for a reorganisation against the recorded block hashes, fetches the logs of the
    next batch, decodes and processes each, and advances its cursor. Cursors and block hashes are
    in the database (\<open>cursor.go\<close>, \<open>block_hash_store.go\<close>, \<open>Stores\<close>).
  \<^item> The decoders (\<open>LayerZero\<close>, \<open>Wormhole\<close>, \<open>Axelar\<close>, \<open>Ccip\<close>) turn a log into an event with a map of
    strings; the normalizer (\<open>Normalizer\<close>) turns an event into a new pending message or into a
    correlation with an existing one; the correlator (\<open>Correlator\<close>) carries that out on the message
    store (\<open>message_store.go\<close>, \<open>message_store_pg.go\<close>, \<open>MessageStore\<close>).
  \<^item> \<open>cmd/backfill\<close> (\<open>Backfill\<close>) runs the same loop over a given range with its own cursor store.
  \<^item> The archiver (\<open>internal/archiver\<close>, \<open>Archive\<close>) writes each finished month to the object store
    (\<open>internal/storage/akave\<close>, \<open>ObjectStore\<close>), records it and refreshes a manifest.
  \<^item> The API: message queries (\<open>message_querier.go\<close>, \<open>address_trace_querier.go\<close>, \<open>Query\<close>), their handlers
    (\<open>message_handler.go\<close>, \<open>address_trace_handler.go\<close>, \<open>Handlers\<close>), statistics and health
    (\<open>stats_querier.go\<close>, \<open>stats_handler.go\<close>, \<open>handler.go\<close>, \<open>Stats\<close>), archived data
    (\<open>historical_handler.go\<close>, \<open>Historical\<close>), and the server's wiring (\<open>cmd/api\<close>, \<open>Api\<close>).

  \<open>Prelude\<close> holds Go's errors, integers and the standard library functions the program computes with;
  \<open>Base64\<close> the URL encoding of cursors; \<open>Types\<close> the unified message and the interface to go-ethereum;
  \<open>Postgres\<close> the tables, constraints, transactions and failing statements.

  \<^bold>\<open>State and operations.\<close> Go structs are records with the fields of the source, interfaces are
  records of functions, and a function of the source is a definition of the same name (with a prefix
  \<open>lz_\<close>, \<open>wh_\<close>, \<open>ax_\<close>, \<open>ccip_\<close>, \<open>o3_\<close> where packages share a name, and a suffix where HOL has the name
  already). State is passed explicitly: \<open>pg\<close> is the database connection with its tables, the schedule
  of statements that fail, the clock and the planner's choice; \<open>'w\<close> is the world outside (chains,
  network, context), a parameter that endpoints, object stores and the runtime step. \<open>proc\<close> is the
  state of a processor, \<open>arch\<close> that of the archiver, \<open>ranged\<close> that of a backfill, \<open>stats\<close> that of the
  statistics querier with its cache, \<open>api\<close> that of the server. Errors are values: \<open>error + 'a\<close> for a
  result, \<open>error option\<close> where Go returns only an error, and a nil dereference is the error \<open>Panic\<close>.
  Machine integers are words of their width, so that the arithmetic of cursors and chunks wraps.

  \<^bold>\<open>Interfaces.\<close> \<open>decoder_iface\<close> (what a decoder promises of its events, interpreted by the four
  decoders), \<open>message_store\<close> and \<open>destination_store\<close> (what the correlator needs of a store, interpreted
  by the PostgreSQL store), \<open>cursor_store\<close>, \<open>block_hash_store\<close>, \<open>hash_frame\<close> and \<open>loop_stores\<close> (what the
  indexing loop needs of its stores, interpreted by the two PostgreSQL stores).

  \<^bold>\<open>What the lemmas show.\<close>

  \<^item> Decoding: the layouts of LayerZero packets and token bridge payloads are recovered field by field;
    the chain tables are inverse to each other; message ids agree on both sides of a transfer.
  \<^item> Normalizing and storing: every result is well formed; the store refines an atomic specification;
    an upsert is idempotent and keeps what was recorded; the lookup is sound and complete.
  \<^item> Life of a message (\<open>Correlator\<close>, \<open>Delivery\<close>): it is absent, pending, executed or failed, a final
    status is never left, and it has a destination exactly then; for each protocol, what becomes of a
    message whose logs are processed in order, and where the program as written does not complete it.
  \<^item> Indexing (\<open>Indexing\<close>, \<open>Equivalence\<close>, \<open>Reorg\<close>): cursor and stored cursor agree; the cursor never
    passes the confirmed height; on one chain and with endpoints that may fail but do not lie, the
    tables are what processing the decodable events of the blocks up to the cursor makes of them; the
    loop catches up; a reorganisation is noticed and how far it is undone.
  \<^item> The service (\<open>Concurrent\<close>): under every interleaving of the iterations of its processors the tables
    are what one sequence of events makes of them, in which each processor's events are those of its
    chain and protocol; and a reorganisation one processor handles is hidden from the others.
  \<^item> Chain client: as long as the chunk counter does not reach \<open>2 ^ 64\<close>, fetching in chunks terminates
    and is one query of the whole range (an example shows what happens beyond it); with one endpoint
    that answers, no operation fails.
  \<^item> Reading (\<open>Reading\<close>, \<open>Pagination\<close>): what was stored is read back; following the cursors of a listing
    gives every selected message once and in order.
  \<^item> Archiving (\<open>Archiving\<close>, \<open>Historical\<close>): after a cycle each finished month reads back to its records,
    and nothing is served whose checksum is not the recorded one, except for entries of the index
    that have no checksum.
  \<^item> Statistics, startup, backfill, configuration, requests: counts, caching, the processors that are
    started, the blocks a backfill indexes (whole batches, beyond its last block too), the
    configurations that are accepted, the filter a listing request becomes.

  \<^bold>\<open>Loops.\<close> The chunk loop of \<open>FetchLogs\<close> is a partial function, since its counter wraps near \<open>2 ^ 64\<close>;
  for ranges that do not reach there it is proved to return. Retries are recursive functions over the
  attempts (three in the program), the walk back over the block number. The processor's endless loop
  is the relation \<open>step\<close> between iterations (\<open>turn\<close> for several processors), and \<open>loop\<close> with a number of iterations where a result is
  computed; the archiver's is a recursion over its ticks. The walk through the pages takes a number of
  requests as fuel; one more than there are stored messages is enough, since every page but the last
  one holds at least one, and the theorems say so.

  \<^bold>\<open>Parameters.\<close> Code that is not in the repository is a parameter: go-ethereum's ABI decoding,
  addresses and hashes (\<open>geth\<close>), the endpoints (\<open>EthClient\<close>), the MinIO client, the Parquet and SHA-256
  libraries, JSON of cursors and manifest, the context and clock (\<open>runtime\<close>), the collation of text in
  the database, the outcome of opening the connection pool. What the theorems need of them is stated
  by named hypotheses (\<open>address_crops\<close>, \<open>hash_big_endian\<close>, \<open>codec_ok\<close>, \<open>parquet_ok\<close>, \<open>honest\<close>,
  \<open>reliable\<close>, \<open>calm\<close>, \<open>reliable_o3\<close> and others), and every theorem with one has a witness on concrete
  instances.

  \<^bold>\<open>Not modelled.\<close> Log lines and metrics, which the program writes and does not read; the connection
  pool and the migrations runner, which are calls of libraries; the listing of cursors for the health
  handler, since the cursor table is a map without its time column; the matching of a path to a route,
  middleware and shutdown of the server. The iterations of concurrent processors are interleaved as
  wholes; that the statements of two iterations can alternate is not modelled, nor that the archiver
  reads while processors write. Numbers beyond the range of BIGINT are among the failing
  statements. Rates and averages are exact fractions where Go has \<open>float64\<close>, and the quoting of \<open>%q\<close>
  in error texts is that of texts without special characters.
\<close>

end
